(* ===== verification/Prelude.thy ===== *)
theory Prelude
  imports Main "HOL-Library.AList" "HOL-Library.Word"
begin

text \<open>
  What the component theories share: Go's error values and the three ways a Go call can end
  (a result, an error, a panic), the state-and-error sequencing in which every handler of the
  program is written, and Go's maps as association lists with distinct keys.
\<close>

named_theorems go_run \<open>running a sequenced Go computation on a state\<close>
named_theorems go_inv \<open>inverting a sequenced Go computation that ended in a known way\<close>

section \<open>Machine integers\<close>

type_synonym int32 = "32 word"
type_synonym int64 = "64 word"

section \<open>Errors\<close>

text \<open>The gRPC status codes the program names, and \<open>Unknown\<close>, the code that gRPC gives to an
  error that carries no status.\<close>

datatype code = InvalidArgument | Internal | Unavailable | Unimplemented | Unknown

text \<open>The reasons of a Kubernetes API error that the program distinguishes.\<close>

datatype reason = NotFound | AlreadyExists | Conflict | OtherReason string

datatype errno = ENOENT | EEXIST | ENOTDIR | EISDIR | ELOOP | ENOSPC | EBUSY | EACCES | EINVAL
  | ENXIO | ENOTEMPTY | EADDRINUSE

text \<open>
  An error value keeps how it was built. \<open>ApiErr\<close> is an error of the Kubernetes client,
  \<open>NewErr\<close> is \<^verbatim>\<open>errors.New(text)\<close>, \<open>FmtErr p e\<close> is \<^verbatim>\<open>fmt.Errorf(p, e)\<close> whose text
  ends with the text of \<open>e\<close>, \<open>GrpcErr c e\<close> is \<^verbatim>\<open>status.Error(c, text of e)\<close> and
  \<open>OsErr\<close> is an error of a system call on a path.
\<close>

datatype error =
    ApiErr reason string
  | NewErr string
  | FmtErr string error
  | GrpcErr code error
  | OsErr errno string

text \<open>The status code that a caller of the gRPC method sees.\<close>

fun status_code :: "error \<Rightarrow> code" where
  "status_code (GrpcErr c e) = c"
| "status_code _ = Unknown"

fun is_api :: "reason \<Rightarrow> error \<Rightarrow> bool" where
  "is_api r (ApiErr r' msg) = (r = r')"
| "is_api r _ = False"

abbreviation IsNotFound :: "error \<Rightarrow> bool" where
  "IsNotFound \<equiv> is_api NotFound"

abbreviation IsAlreadyExists :: "error \<Rightarrow> bool" where
  "IsAlreadyExists \<equiv> is_api AlreadyExists"

abbreviation IsConflict :: "error \<Rightarrow> bool" where
  "IsConflict \<equiv> is_api Conflict"

section \<open>Sequencing\<close>

text \<open>How a Go function ends: it returns a value, it returns an error, or it panics (a nil
  pointer is dereferenced).\<close>

datatype 'a outcome = Ok 'a | Err error | Panic string

text \<open>A call of a library or of the API server returns a value or an error and never panics;
  a function of the program may also panic.\<close>

type_synonym ('s, 'a) call = "'s \<Rightarrow> (error + 'a) \<times> 's"
type_synonym ('s, 'a) go = "'s \<Rightarrow> 'a outcome \<times> 's"

definition retG :: "'a \<Rightarrow> ('s, 'a) go" where
  "retG a s = (Ok a, s)"

definition failG :: "error \<Rightarrow> ('s, 'a) go" where
  "failG e s = (Err e, s)"

definition panicG :: "string \<Rightarrow> ('s, 'a) go" where
  "panicG p s = (Panic p, s)"

definition bindG :: "('s, 'a) go \<Rightarrow> ('a \<Rightarrow> ('s, 'b) go) \<Rightarrow> ('s, 'b) go" where
  "bindG m f s = (case m s of
     (Ok a, s') \<Rightarrow> f a s'
   | (Err e, s') \<Rightarrow> (Err e, s')
   | (Panic p, s') \<Rightarrow> (Panic p, s'))"

text \<open>\<open>callG\<close> runs a library call; \<open>mapErrG g m\<close> is \<^verbatim>\<open>if err != nil { return g(err) }\<close>.\<close>

definition callG :: "('s, 'a) call \<Rightarrow> ('s, 'a) go" where
  "callG c s = (case c s of (Inr a, s') \<Rightarrow> (Ok a, s') | (Inl e, s') \<Rightarrow> (Err e, s'))"

definition mapErrG :: "(error \<Rightarrow> error) \<Rightarrow> ('s, 'a) go \<Rightarrow> ('s, 'a) go" where
  "mapErrG g m s = (case m s of
     (Ok a, s') \<Rightarrow> (Ok a, s')
   | (Err e, s') \<Rightarrow> (Err (g e), s')
   | (Panic p, s') \<Rightarrow> (Panic p, s'))"

text \<open>\<open>tryG m f\<close> hands the error of \<open>m\<close> to the code after it, where the program looks at it
  instead of returning at once.\<close>

definition tryG :: "('s, 'a) go \<Rightarrow> ((error + 'a) \<Rightarrow> ('s, 'b) go) \<Rightarrow> ('s, 'b) go" where
  "tryG m f s = (case m s of
     (Ok a, s') \<Rightarrow> f (Inr a) s'
   | (Err e, s') \<Rightarrow> f (Inl e) s'
   | (Panic p, s') \<Rightarrow> (Panic p, s'))"

text \<open>A pure result, and a dereferenced pointer.\<close>

definition liftG :: "(error + 'a) \<Rightarrow> ('s, 'a) go" where
  "liftG r = (case r of Inr a \<Rightarrow> retG a | Inl e \<Rightarrow> failG e)"

definition derefG :: "'a option \<Rightarrow> ('s, 'a) go" where
  "derefG p = (case p of Some a \<Rightarrow> retG a | None \<Rightarrow> panicG ''nil pointer dereference'')"

text \<open>A \<^verbatim>\<open>for\<close> loop over a slice whose body returns early on an error.\<close>

fun forG :: "'a list \<Rightarrow> ('a \<Rightarrow> ('s, 'b) go) \<Rightarrow> ('s, 'b list) go" where
  "forG [] f = retG []"
| "forG (x # xs) f = bindG (f x) (\<lambda>b. bindG (forG xs f) (\<lambda>bs. retG (b # bs)))"

subsection \<open>Running\<close>

lemma retG_run [go_run, simp]: "retG a s = (Ok a, s)"
  by (simp add: retG_def)

lemma failG_run [go_run, simp]: "failG e s = (Err e, s)"
  by (simp add: failG_def)

lemma panicG_run [go_run, simp]: "panicG p s = (Panic p, s)"
  by (simp add: panicG_def)

lemma liftG_run [go_run, simp]:
  "liftG (Inr a) s = (Ok a, s)" "liftG (Inl e) s = (Err e, s)"
  by (simp_all add: liftG_def)

lemma derefG_run [go_run, simp]:
  "derefG (Some a) s = (Ok a, s)" "derefG None s = (Panic ''nil pointer dereference'', s)"
  by (simp_all add: derefG_def)

lemma bindG_Ok_run [simp]: "m s = (Ok a, s') \<Longrightarrow> bindG m f s = f a s'"
  by (simp add: bindG_def)

lemma bindG_Err_run [simp]: "m s = (Err e, s') \<Longrightarrow> bindG m f s = (Err e, s')"
  by (simp add: bindG_def)

lemma bindG_Panic_run [simp]: "m s = (Panic p, s') \<Longrightarrow> bindG m f s = (Panic p, s')"
  by (simp add: bindG_def)

lemma callG_Inr_run [simp]: "c s = (Inr a, s') \<Longrightarrow> callG c s = (Ok a, s')"
  by (simp add: callG_def)

lemma callG_Inl_run [simp]: "c s = (Inl e, s') \<Longrightarrow> callG c s = (Err e, s')"
  by (simp add: callG_def)

lemma mapErrG_Ok_run [simp]: "m s = (Ok a, s') \<Longrightarrow> mapErrG g m s = (Ok a, s')"
  by (simp add: mapErrG_def)

lemma mapErrG_Err_run [simp]: "m s = (Err e, s') \<Longrightarrow> mapErrG g m s = (Err (g e), s')"
  by (simp add: mapErrG_def)

lemma mapErrG_Panic_run [simp]: "m s = (Panic p, s') \<Longrightarrow> mapErrG g m s = (Panic p, s')"
  by (simp add: mapErrG_def)

lemma tryG_Ok_run [simp]: "m s = (Ok a, s') \<Longrightarrow> tryG m f s = f (Inr a) s'"
  by (simp add: tryG_def)

lemma tryG_Err_run [simp]: "m s = (Err e, s') \<Longrightarrow> tryG m f s = f (Inl e) s'"
  by (simp add: tryG_def)

lemmas [go_run] = bindG_def callG_def mapErrG_def tryG_def

subsection \<open>Inversion\<close>

lemma bindG_eq_Ok [go_inv]:
  "bindG m f s = (Ok b, s'') \<longleftrightarrow> (\<exists>a s'. m s = (Ok a, s') \<and> f a s' = (Ok b, s''))"
  by (auto simp: bindG_def split: prod.splits outcome.splits)

lemma bindG_eq_Err [go_inv]:
  "bindG m f s = (Err e, s'') \<longleftrightarrow>
     m s = (Err e, s'') \<or> (\<exists>a s'. m s = (Ok a, s') \<and> f a s' = (Err e, s''))"
  by (auto simp: bindG_def split: prod.splits outcome.splits)

lemma bindG_eq_Panic [go_inv]:
  "bindG m f s = (Panic p, s'') \<longleftrightarrow>
     m s = (Panic p, s'') \<or> (\<exists>a s'. m s = (Ok a, s') \<and> f a s' = (Panic p, s''))"
  by (auto simp: bindG_def split: prod.splits outcome.splits)

lemma callG_eq [go_inv]:
  "callG c s = (Ok a, s') \<longleftrightarrow> c s = (Inr a, s')"
  "callG c s = (Err e, s') \<longleftrightarrow> c s = (Inl e, s')"
  "callG c s \<noteq> (Panic p, s')"
  by (auto simp: callG_def split: prod.splits sum.splits)

lemma mapErrG_eq [go_inv]:
  "mapErrG g m s = (Ok a, s') \<longleftrightarrow> m s = (Ok a, s')"
  "mapErrG g m s = (Err e, s') \<longleftrightarrow> (\<exists>e'. m s = (Err e', s') \<and> e = g e')"
  "mapErrG g m s = (Panic p, s') \<longleftrightarrow> m s = (Panic p, s')"
  by (auto simp: mapErrG_def split: prod.splits outcome.splits)

lemma liftG_eq [go_inv]:
  "liftG r s = (Ok a, s') \<longleftrightarrow> r = Inr a \<and> s' = s"
  "liftG r s = (Err e, s') \<longleftrightarrow> r = Inl e \<and> s' = s"
  "liftG r s \<noteq> (Panic p, s')"
  by (auto simp: liftG_def split: sum.splits)

lemma derefG_eq [go_inv]:
  "derefG v s = (Ok a, s') \<longleftrightarrow> v = Some a \<and> s' = s"
  "derefG v s \<noteq> (Err e, s')"
  "derefG v s = (Panic p, s') \<longleftrightarrow> v = None \<and> p = ''nil pointer dereference'' \<and> s' = s"
  by (auto simp: derefG_def split: option.splits)

lemma tryG_eq_Ok:
  "tryG m f s = (Ok b, s'') \<longleftrightarrow> (\<exists>a s'. m s = (Ok a, s') \<and> f (Inr a) s' = (Ok b, s''))
     \<or> (\<exists>e s'. m s = (Err e, s') \<and> f (Inl e) s' = (Ok b, s''))"
  by (auto simp: tryG_def split: prod.splits outcome.splits)

section \<open>Go maps\<close>

text \<open>
  A Go map is an association list with distinct keys; the order of the list is the order in
  which one \<^verbatim>\<open>range\<close> over the map happens to visit it. A nil map and an empty map are both
  \<open>[]\<close>: they differ only when assigned to, which the program always guards.
\<close>

type_synonym 'v gomap = "(string \<times> 'v) list"
type_synonym labels = "string gomap"

definition wf_map :: "'v gomap \<Rightarrow> bool" where
  "wf_map m = distinct (map fst m)"

text \<open>\<^verbatim>\<open>maps.Copy(dst, src)\<close>\<close>

definition maps_Copy :: "'v gomap \<Rightarrow> 'v gomap \<Rightarrow> 'v gomap" where
  "maps_Copy dst src = fold (\<lambda>(k, v). AList.update k v) src dst"

lemma wf_map_Nil [simp]: "wf_map []"
  by (simp add: wf_map_def)

lemma wf_map_update [simp, intro]: "wf_map m \<Longrightarrow> wf_map (AList.update k v m)"
  by (simp add: wf_map_def distinct_update)

lemma wf_map_maps_Copy [simp, intro]: "wf_map dst \<Longrightarrow> wf_map (maps_Copy dst src)"
  by (induction src arbitrary: dst) (auto simp: maps_Copy_def)

lemma map_of_maps_Copy_rev: "map_of (maps_Copy dst src) = map_of dst ++ map_of (rev src)"
proof (induction src arbitrary: dst)
  case Nil
  then show ?case by (simp add: maps_Copy_def)
next
  case (Cons kv src)
  then show ?case
    by (cases kv) (simp add: maps_Copy_def update_conv' map_add_def fun_eq_iff split: option.splits)
qed

lemma map_of_rev_wf: "wf_map m \<Longrightarrow> map_of (rev m) = map_of m"
  by (subst map_of_inject_set) (simp_all add: wf_map_def rev_map [symmetric])

lemma map_of_maps_Copy [simp]:
  "wf_map src \<Longrightarrow> map_of (maps_Copy dst src) = map_of dst ++ map_of src"
  by (simp add: map_of_maps_Copy_rev map_of_rev_wf)

lemma maps_Copy_Nil [simp]: "maps_Copy dst [] = dst"
  by (simp add: maps_Copy_def)

end
