(* ===== verification/GoStd.thy ===== *)
theory GoStd
  imports Prelude "HOL-Library.Sublist"
begin

text \<open>
  The parts of Go's standard library that the program calls on strings: prefixes, splitting and
  replacing from \<^verbatim>\<open>strings\<close>, \<^verbatim>\<open>strconv.Itoa\<close>, \<^verbatim>\<open>path/filepath\<close>'s Clean and Join, and the
  fragment of \<^verbatim>\<open>regexp\<close> that the one pattern of the program uses. A Go string is a list of
  bytes, that is, a \<^typ>\<open>string\<close>.
\<close>

section \<open>strings\<close>

definition HasPrefix :: "string \<Rightarrow> string \<Rightarrow> bool" where
  "HasPrefix s p = prefix p s"

definition TrimPrefix :: "string \<Rightarrow> string \<Rightarrow> string" where
  "TrimPrefix s p = (if HasPrefix s p then drop (length p) s else s)"

text \<open>
  Lower-casing. Outside ASCII two code points have an ASCII lower case, U+0130 (to \<open>i\<close>) and
  U+212A (to \<open>k\<close>); every other one stays outside ASCII, where the program only compares with
  ASCII prefixes, and is left as it is.
\<close>

definition lower_byte :: "char \<Rightarrow> char" where
  "lower_byte c = (let n = of_char c :: nat in if 65 \<le> n \<and> n \<le> 90 then char_of (n + 32) else c)"

fun ToLower :: "string \<Rightarrow> string" where
  "ToLower [] = []"
| "ToLower (a # s) =
     (case s of
        b # t \<Rightarrow>
          if a = CHR 0xC4 \<and> b = CHR 0xB0 then CHR ''i'' # ToLower t
          else (case t of
             c # u \<Rightarrow>
               if a = CHR 0xE2 \<and> b = CHR 0x84 \<and> c = CHR 0xAA then CHR ''k'' # ToLower u
               else lower_byte a # ToLower s
           | [] \<Rightarrow> lower_byte a # ToLower s)
      | [] \<Rightarrow> [lower_byte a])"

text \<open>\<^verbatim>\<open>strings.SplitN(s, sep, 2)\<close> for a non-empty separator: cut at its first occurrence.\<close>

fun SplitN2 :: "string \<Rightarrow> string \<Rightarrow> string list" where
  "SplitN2 sep [] = [[]]"
| "SplitN2 sep (c # s) =
     (if prefix sep (c # s) then [[], drop (length sep) (c # s)]
      else (case SplitN2 sep s of
              [] \<Rightarrow> [c # s]
            | w # ws \<Rightarrow> (c # w) # ws))"

text \<open>\<^verbatim>\<open>strings.ReplaceAll(s, old, new)\<close> for an \<open>old\<close> of one byte.\<close>

fun ReplaceAll :: "string \<Rightarrow> char \<Rightarrow> string \<Rightarrow> string" where
  "ReplaceAll [] old new = []"
| "ReplaceAll (c # s) old new = (if c = old then new else [c]) @ ReplaceAll s old new"

text \<open>\<^verbatim>\<open>strings.Split(s, sep)\<close> for a separator of one byte, and \<^verbatim>\<open>strings.Join\<close>.\<close>

fun split_on :: "char \<Rightarrow> string \<Rightarrow> string list" where
  "split_on sep [] = [[]]"
| "split_on sep (c # s) =
     (if c = sep then [] # split_on sep s
      else (case split_on sep s of [] \<Rightarrow> [[c]] | w # ws \<Rightarrow> (c # w) # ws))"

fun join_with :: "string \<Rightarrow> string list \<Rightarrow> string" where
  "join_with sep [] = []"
| "join_with sep [w] = w"
| "join_with sep (w # v # ws) = w @ sep @ join_with sep (v # ws)"

lemma TrimPrefix_append [simp]: "TrimPrefix (p @ s) p = s"
  by (simp add: TrimPrefix_def HasPrefix_def)

lemma ReplaceAll_empty: "ReplaceAll s old [] = filter (\<lambda>c. c \<noteq> old) s"
  by (induction s) auto

lemma SplitN2_cases:
  assumes "sep \<noteq> []"
  obtains (none) "SplitN2 sep s = [s]" "\<not> sublist sep s"
    | (cut) a b where "SplitN2 sep s = [a, b]" "s = a @ sep @ b" "\<not> sublist sep a"
  using assms
proof (induction s arbitrary: thesis)
  case Nil
  then show ?case by simp
next
  case (Cons c s)
  show ?case
  proof (cases "prefix sep (c # s)")
    case True
    then obtain t where t: "c # s = sep @ t" by (auto simp: prefix_def)
    then have "drop (length sep) (c # s) = t" by simp
    with True have "SplitN2 sep (c # s) = [[], t]" by (simp only: SplitN2.simps if_True)
    with Cons.prems(2) [of "[]" t] Cons.prems(3) t show ?thesis by simp
  next
    case False
    show ?thesis
    proof (rule Cons.IH)
      assume "SplitN2 sep s = [s]" "\<not> sublist sep s"
      then show ?thesis using False Cons.prems by (auto simp: sublist_Cons_right)
    next
      fix a b assume s: "SplitN2 sep s = [a, b]" "s = a @ sep @ b" "\<not> sublist sep a"
      moreover have "\<not> prefix sep (c # a)"
        using False s(2) prefix_prefix [of sep "c # a" "sep @ b"] by auto
      ultimately show ?thesis
        using False Cons.prems(2) [of "c # a" b] by (auto simp: sublist_Cons_right)
    qed (fact Cons.prems(3))
  qed
qed

lemma split_on_neq_Nil [simp]: "split_on sep s \<noteq> []"
  by (induction s) (auto split: list.splits)

lemma split_on_no_sep: "sep \<notin> set s \<Longrightarrow> split_on sep s = [s]"
  by (induction s) auto

lemma split_on_append:
  "sep \<notin> set w \<Longrightarrow> split_on sep (w @ sep # s) = w # split_on sep s"
  by (induction w) auto

section \<open>strconv.Itoa\<close>

definition digit :: "nat \<Rightarrow> char" where
  "digit d = char_of (48 + d)"

definition digit_val :: "char \<Rightarrow> nat" where
  "digit_val c = of_char c - 48"

fun utoa :: "nat \<Rightarrow> string" where
  "utoa n = (if n < 10 then [digit n] else utoa (n div 10) @ [digit (n mod 10)])"

declare utoa.simps [simp del]

definition Itoa :: "int \<Rightarrow> string" where
  "Itoa i = (if i < 0 then CHR ''-'' # utoa (nat (- i)) else utoa (nat i))"

text \<open>Reading a decimal back: what a consumer of the written port file does.\<close>

definition atou :: "string \<Rightarrow> nat" where
  "atou s = foldl (\<lambda>n c. 10 * n + digit_val c) 0 s"

definition Atoi :: "string \<Rightarrow> int" where
  "Atoi s = (case s of c # t \<Rightarrow> if c = CHR ''-'' then - int (atou t) else int (atou s) | [] \<Rightarrow> 0)"

lemma digit_val_digit [simp]: "d < 10 \<Longrightarrow> digit_val (digit d) = d"
  by (simp add: digit_val_def digit_def)

lemma digit_not_minus [simp]: "d < 10 \<Longrightarrow> digit d \<noteq> CHR ''-''"
proof
  assume d: "d < 10" and "digit d = CHR ''-''"
  then have "of_char (digit d) = (of_char CHR ''-'' :: nat)" by simp
  with d show False by (simp add: digit_def)
qed

lemma atou_utoa [simp]: "atou (utoa n) = n"
proof (induction n rule: utoa.induct)
  case (1 n)
  show ?case
  proof (cases "n < 10")
    case True
    then show ?thesis by (subst utoa.simps) (simp add: atou_def)
  next
    case False
    with 1 have "atou (utoa (n div 10)) = n div 10" by simp
    with False show ?thesis by (subst utoa.simps) (simp add: atou_def)
  qed
qed

lemma utoa_hd: "\<exists>d t. utoa n = digit d # t \<and> d < 10"
proof (induction n rule: utoa.induct)
  case (1 n)
  show ?case
  proof (cases "n < 10")
    case True
    then show ?thesis by (subst utoa.simps) auto
  next
    case False
    with 1 obtain d t where "utoa (n div 10) = digit d # t" "d < 10" by blast
    with False show ?thesis by (subst utoa.simps) auto
  qed
qed

lemma Atoi_Itoa [simp]: "Atoi (Itoa i) = i"
proof (cases "i < 0")
  case True
  then show ?thesis by (simp add: Itoa_def Atoi_def)
next
  case False
  obtain d t where u: "utoa (nat i) = digit d # t" "d < 10" using utoa_hd by blast
  have "atou (utoa (nat i)) = nat i" by simp
  with u False show ?thesis by (simp add: Itoa_def Atoi_def)
qed



end
