(* ===== verification/Kube.thy ===== *)
theory Kube
  imports Prelude
begin

text \<open>
  The Kubernetes objects the program reads and writes, with the fields it uses, and the
  third-party code it calls on them: the controller-runtime client, \<^verbatim>\<open>controllerutil\<close>, client-go's
  retry helper and the operator-go constants. That code is not part of the program. It is the
  record \<open>client\<close>, a parameter of every definition that calls it, and what a theorem needs of it
  is a locale of this theory.
\<close>

section \<open>Objects\<close>

text \<open>An object key is a namespace and a name; the namespace of a cluster-scoped object is empty.\<close>

type_synonym objectKey = "string \<times> string"

record ownerReference =
  ownerKind :: string
  ownerName :: string
  ownerUID :: string
  isController :: bool

record objectMeta =
  Name :: string
  Namespace :: string
  UID :: string
  Labels :: labels
  Annotations :: labels
  OwnerReferences :: "ownerReference list"

text \<open>\<^verbatim>\<open>client.ObjectKeyFromObject\<close>\<close>

definition objectKeyOf :: "objectMeta \<Rightarrow> objectKey" where
  "objectKeyOf m = (Namespace m, Name m)"

text \<open>\<^verbatim>\<open>metav1.ObjectMeta{Name: n, Namespace: ns}\<close>, every other field its zero value.\<close>

definition newMeta :: "string \<Rightarrow> string \<Rightarrow> objectMeta" where
  "newMeta n ns = \<lparr>Name = n, Namespace = ns, UID = '''', Labels = [], Annotations = [],
     OwnerReferences = []\<rparr>"

text \<open>Go's string enumerations, with the constants the program names.\<close>

datatype serviceType = ServiceTypeClusterIP | ServiceTypeNodePort | ServiceTypeLoadBalancer
  | OtherServiceType string

fun serviceTypeText :: "serviceType \<Rightarrow> string" where
  "serviceTypeText ServiceTypeClusterIP = ''ClusterIP''"
| "serviceTypeText ServiceTypeNodePort = ''NodePort''"
| "serviceTypeText ServiceTypeLoadBalancer = ''LoadBalancer''"
| "serviceTypeText (OtherServiceType t) = t"

datatype addressType = AddressTypeIP | AddressTypeHostname | AddressTypeHostnameConservative
  | OtherAddressType string

datatype podListenerScope = PodlistenerNodeScope | PodlistenerClusterScope | OtherScope string

datatype nodeAddressType = NodeExternalIP | NodeInternalIP | NodeHostName
  | OtherNodeAddressType string

text \<open>The custom resources of \<^verbatim>\<open>config/crd/bases\<close>.\<close>

record portSpec =
  psName :: string
  psProtocol :: string
  psPort :: int32

record ingressAddressSpec =
  iaAddress :: string
  iaAddressType :: addressType
  iaPorts :: "int32 gomap"

record listenerSpec =
  ClassName :: string
  lsPorts :: "portSpec list"
  ExtraPodSelectorLabels :: labels
  lsPublishNotReadyAddresses :: "bool option"

record listenerStatus =
  ServiceName :: string
  IngressAddresses :: "ingressAddressSpec list"
  NodePorts :: "int32 gomap"

record listener =
  lMeta :: objectMeta
  lSpec :: listenerSpec
  lStatus :: listenerStatus

definition zeroListenerStatus :: listenerStatus where
  "zeroListenerStatus = \<lparr>ServiceName = '''', IngressAddresses = [], NodePorts = []\<rparr>"

record listenerClass =
  lcMeta :: objectMeta
  ServiceType :: "serviceType option"
  ServiceExternalTrafficPolicy :: string
  PreferredAddressType :: addressType
  ServiceAnnotations :: labels

record podListener =
  Scope :: podListenerScope
  ListenerIngresses :: "ingressAddressSpec list"

record podListeners =
  plMeta :: objectMeta
  plListeners :: "podListener gomap"

text \<open>The core objects.\<close>

datatype intOrString = FromInt32 int32 | FromString string

record servicePort =
  spName :: string
  spProtocol :: string
  spPort :: int32
  spTargetPort :: intOrString
  spNodePort :: int32

record lbIngress =
  ingIP :: string
  ingHostname :: string

record service =
  svMeta :: objectMeta
  svPorts :: "servicePort list"
  svSelector :: labels
  svType :: serviceType
  svPublishNotReadyAddresses :: bool
  svExternalTrafficPolicy :: string
  svHealthCheckNodePort :: int32
  svAllocateLoadBalancerNodePorts :: "bool option"
  svLoadBalancerClass :: "string option"
  svClusterIP :: string
  svClusterIPs :: "string list"
  svIPFamilies :: "string list"
  svIPFamilyPolicy :: "string option"
  svIngress :: "lbIngress list"

record nodeAddress =
  naType :: nodeAddressType
  naAddress :: string

record node =
  nMeta :: objectMeta
  nAddresses :: "nodeAddress list"

record containerPort =
  cpName :: string
  cpProtocol :: string
  ContainerPort :: int32

record container =
  cName :: string
  cPorts :: "containerPort list"

record volume =
  vName :: string
  vPersistentVolumeClaim :: "string option"
  vEphemeral :: bool

record pod =
  pMeta :: objectMeta
  NodeName :: string
  Containers :: "container list"
  Volumes :: "volume list"

record persistentVolume =
  pvMeta :: objectMeta
  ClaimRef :: "objectKey option"

record persistentVolumeClaim =
  pvcMeta :: objectMeta

record endpoint =
  epNodeName :: "string option"

record endpointSlice =
  esMeta :: objectMeta
  Endpoints :: "endpoint list"

section \<open>Third-party code\<close>

datatype operationResult = OperationResultNone | OperationResultCreated | OperationResultUpdated

text \<open>An owner is the kind of an object and its metadata.\<close>

type_synonym owner = "string \<times> objectMeta"

text \<open>
  \<open>'k\<close> is whatever the API server and everything behind it keep. A patch takes the object as it
  was read and as it was changed (\<^verbatim>\<open>client.MergeFrom\<close>); a write returns the object as the server
  sent it back.
\<close>

record 'k client =
  GetListener :: "objectKey \<Rightarrow> ('k, listener) call"
  GetListenerClass :: "objectKey \<Rightarrow> ('k, listenerClass) call"
  GetPodListeners :: "objectKey \<Rightarrow> ('k, podListeners) call"
  GetService :: "objectKey \<Rightarrow> ('k, service) call"
  GetNode :: "objectKey \<Rightarrow> ('k, node) call"
  GetPod :: "objectKey \<Rightarrow> ('k, pod) call"
  GetPV :: "objectKey \<Rightarrow> ('k, persistentVolume) call"
  GetPVC :: "objectKey \<Rightarrow> ('k, persistentVolumeClaim) call"
  ListListeners :: "('k, listener list) call"
  ListEndpointSlices :: "string \<Rightarrow> labels \<Rightarrow> ('k, endpointSlice list) call"
  CreateListener :: "listener \<Rightarrow> ('k, listener) call"
  CreatePodListeners :: "podListeners \<Rightarrow> ('k, podListeners) call"
  PatchPV :: "persistentVolume \<Rightarrow> persistentVolume \<Rightarrow> ('k, persistentVolume) call"
  PatchPod :: "pod \<Rightarrow> pod \<Rightarrow> ('k, pod) call"
  PatchPodListeners :: "podListeners \<Rightarrow> podListeners \<Rightarrow> ('k, podListeners) call"
  StatusUpdateListener :: "listener \<Rightarrow> ('k, listener) call"
  CreateOrUpdateService :: "service \<Rightarrow> (service \<Rightarrow> error + service) \<Rightarrow> ('k, operationResult) call"
  RetryOnConflict :: "('k, unit) call \<Rightarrow> ('k, unit) call"
  SetControllerReference :: "owner \<Rightarrow> objectMeta \<Rightarrow> error + objectMeta"
  ListenerClassAnnotation :: string
  AnnotationListenerName :: string
  GetPublishNotReadyAddresses :: "listenerSpec \<Rightarrow> bool"

subsection \<open>What the components rely on\<close>

text \<open>
  \<open>kube_reads\<close>: a read does not change what is stored. This is the contract of the read-only
  paths of the program.
\<close>

locale kube_reads =
  fixes C :: "('k, 'z) client_scheme"
  assumes GetListener_reads: "snd (GetListener C k w) = w"
    and GetListenerClass_reads: "snd (GetListenerClass C k w) = w"
    and GetPodListeners_reads: "snd (GetPodListeners C k w) = w"
    and GetService_reads: "snd (GetService C k w) = w"
    and GetNode_reads: "snd (GetNode C k w) = w"
    and GetPod_reads: "snd (GetPod C k w) = w"
    and GetPV_reads: "snd (GetPV C k w) = w"
    and GetPVC_reads: "snd (GetPVC C k w) = w"
    and ListListeners_reads: "snd (ListListeners C w) = w"
    and ListEndpointSlices_reads: "snd (ListEndpointSlices C ns ls w) = w"
begin

lemmas reads = GetListener_reads GetListenerClass_reads GetPodListeners_reads GetService_reads
  GetNode_reads GetPod_reads GetPV_reads GetPVC_reads ListListeners_reads ListEndpointSlices_reads

lemma reads_eq:
  "GetListener C k w = (r1, w') \<Longrightarrow> w' = w"
  "GetListenerClass C k w = (r2, w') \<Longrightarrow> w' = w"
  "GetPodListeners C k w = (r3, w') \<Longrightarrow> w' = w"
  "GetService C k w = (r4, w') \<Longrightarrow> w' = w"
  "GetNode C k w = (r5, w') \<Longrightarrow> w' = w"
  "GetPod C k w = (r6, w') \<Longrightarrow> w' = w"
  "GetPV C k w = (r7, w') \<Longrightarrow> w' = w"
  "GetPVC C k w = (r8, w') \<Longrightarrow> w' = w"
  "ListListeners C w = (r9, w') \<Longrightarrow> w' = w"
  "ListEndpointSlices C ns ls w = (r10, w') \<Longrightarrow> w' = w"
  by (metis reads snd_conv)+

end

end
