(* ===== verification/Util.thy ===== *)
theory Util
  imports GoStd Kube
begin

text \<open>
  \<^verbatim>\<open>pkg/util\<close>: choosing an address, the labels that tie pods and volumes to a listener, parsing
  the CSI endpoint, and the logging interceptor of the gRPC server.
\<close>

section \<open>address.go\<close>

record addressInfo =
  Address :: string
  AddressType :: addressType

text \<open>Go embeds \<^verbatim>\<open>AddressInfo\<close> in \<^verbatim>\<open>IngressAddress\<close>: the record extends it.\<close>

record ingressAddress = addressInfo +
  Ports :: "int32 gomap"

definition mkAddressInfo :: "string \<Rightarrow> addressType \<Rightarrow> addressInfo" where
  "mkAddressInfo a t = \<lparr>Address = a, AddressType = t\<rparr>"

definition mkIngressAddress :: "addressInfo \<Rightarrow> int32 gomap \<Rightarrow> ingressAddress" where
  "mkIngressAddress a ps = \<lparr>Address = Address a, AddressType = AddressType a, Ports = ps\<rparr>"

text \<open>\<open>None\<close> is the nil pointer that \<^verbatim>\<open>Pick\<close> falls through to.\<close>

definition Pick :: "addressInfo \<Rightarrow> addressType \<Rightarrow> addressInfo option" where
  "Pick a preferredType =
     (if preferredType = AddressTypeIP then
        (if AddressType a = AddressTypeIP then Some a
         else Some (mkAddressInfo (Address a) AddressTypeIP))
      else if AddressType a = AddressTypeHostname then
        (if preferredType = AddressTypeHostname then Some a
         else Some (mkAddressInfo (Address a) AddressTypeHostname))
      else None)"

fun priorAddress :: "nodeAddress list \<Rightarrow> error + addressInfo" where
  "priorAddress [] = Inl (NewErr ''no address found'')"
| "priorAddress (a # as) =
     (case naType a of
        NodeExternalIP \<Rightarrow> Inr (mkAddressInfo (naAddress a) AddressTypeIP)
      | NodeInternalIP \<Rightarrow> Inr (mkAddressInfo (naAddress a) AddressTypeIP)
      | NodeHostName \<Rightarrow> Inr (mkAddressInfo (naAddress a) AddressTypeHostname)
      | OtherNodeAddressType _ \<Rightarrow> priorAddress as)"

definition GetPriorNodeAddress :: "node \<Rightarrow> error + addressInfo" where
  "GetPriorNodeAddress n = priorAddress (nAddresses n)"

lemma mkAddressInfo_sel [simp]:
  "Address (mkAddressInfo a t) = a" "AddressType (mkAddressInfo a t) = t"
  by (simp_all add: mkAddressInfo_def)

lemma mkIngressAddress_sel [simp]:
  "Address (mkIngressAddress a ps) = Address a" "AddressType (mkIngressAddress a ps) = AddressType a"
  "Ports (mkIngressAddress a ps) = ps"
  by (simp_all add: mkIngressAddress_def)

lemma Pick_eq_None:
  "Pick a t = None \<longleftrightarrow> t \<noteq> AddressTypeIP \<and> AddressType a \<noteq> AddressTypeHostname"
  by (simp add: Pick_def)

lemma Pick_Some:
  "Pick a t = Some b \<Longrightarrow>
     Address b = Address a \<and>
     AddressType b = (if t = AddressTypeIP then AddressTypeIP else AddressTypeHostname)"
  by (auto simp: Pick_def split: if_splits)

definition usable :: "nodeAddress \<Rightarrow> bool" where
  "usable a = (naType a \<in> {NodeExternalIP, NodeInternalIP, NodeHostName})"

lemma priorAddress_find:
  "priorAddress as =
     (case find usable as of
        None \<Rightarrow> Inl (NewErr ''no address found'')
      | Some a \<Rightarrow> Inr (mkAddressInfo (naAddress a)
          (if naType a = NodeHostName then AddressTypeHostname else AddressTypeIP)))"
  by (induction as) (auto simp: usable_def split: nodeAddressType.splits)

lemma find_usable_None: "find usable as = None \<longleftrightarrow> list_all (\<lambda>b. \<not> usable b) as"
  by (induction as) auto

lemma find_usable_Some:
  "find usable as = Some a \<longleftrightarrow>
     (\<exists>pre post. as = pre @ a # post \<and> list_all (\<lambda>b. \<not> usable b) pre \<and> usable a)"
proof (induction as)
  case (Cons b as)
  have "(\<exists>pre post. b # as = pre @ a # post \<and> list_all (\<lambda>b. \<not> usable b) pre \<and> usable a) \<longleftrightarrow>
      b = a \<and> usable a \<or> \<not> usable b \<and>
        (\<exists>pre post. as = pre @ a # post \<and> list_all (\<lambda>b. \<not> usable b) pre \<and> usable a)"
    by (auto simp: Cons_eq_append_conv) (metis append_Cons list.pred_inject(2))
  with Cons show ?case by (cases "usable b") auto
qed simp

lemma priorAddress_type:
  "priorAddress as = Inr a \<Longrightarrow> AddressType a \<in> {AddressTypeIP, AddressTypeHostname}"
  by (auto simp: priorAddress_find split: option.splits if_splits)

section \<open>constant.go\<close>

definition LabelListenerName :: string where
  "LabelListenerName = ''listeners.kubecoop.dev/listenerName''"

definition LabelListenerNamespace :: string where
  "LabelListenerNamespace = ''listeners.kubedoop.dev/listenerNamespace''"

definition LabelListenerMntPrefix :: string where
  "LabelListenerMntPrefix = ''listeners.kubedoop.dev/mnt.''"

definition ListenerMountPodLabels :: "listener \<Rightarrow> labels" where
  "ListenerMountPodLabels l =
     [(LabelListenerMntPrefix @ ReplaceAll (UID (lMeta l)) (CHR ''-'') '''', Name (lMeta l))]"

definition ListenerMetaLabels :: "listener \<Rightarrow> labels" where
  "ListenerMetaLabels l =
     [(LabelListenerName, Name (lMeta l)), (LabelListenerNamespace, Namespace (lMeta l))]"

lemma wf_ListenerMountPodLabels [simp]: "wf_map (ListenerMountPodLabels l)"
  by (simp add: wf_map_def ListenerMountPodLabels_def)

lemma wf_ListenerMetaLabels [simp]: "wf_map (ListenerMetaLabels l)"
  by (simp add: wf_map_def ListenerMetaLabels_def LabelListenerName_def LabelListenerNamespace_def)

section \<open>net.go\<close>

text \<open>The slice \<^verbatim>\<open>s\<close> has two elements whenever the prefix test holds; indexing a shorter one
  would panic.\<close>

definition ParseEndpoint :: "string \<Rightarrow> (string \<times> string) outcome" where
  "ParseEndpoint ep =
     (let bad = Err (NewErr (''invalid endpoint: '' @ ep))
      in if HasPrefix (ToLower ep) ''unix://'' \<or> HasPrefix (ToLower ep) ''tcp://'' then
           (let s = SplitN2 ''://'' ep
            in if length s < 2 then Panic ''index out of range''
               else if s ! 1 \<noteq> '''' then Ok (s ! 0, s ! 1) else bad)
         else bad)"

section \<open>log.go\<close>

text \<open>\<open>v\<close> is the verbosity that the logging library reports (\<^verbatim>\<open>ctrl.Log.GetV()\<close>).\<close>

definition getLogLevel :: "int \<Rightarrow> string \<Rightarrow> int" where
  "getLogLevel v method =
     (if method = ''/csi.v1.Identity/Probe'' \<or> method = ''/csi.v1.Node/NodeGetCapabilities''
         \<or> method = ''/csi.v1.Node/NodeGetVolumeStats'' then 8 else v)"

text \<open>A log line with its payload; \<open>'p\<close> is what \<^verbatim>\<open>protosanitizer.StripSecrets\<close> returns.\<close>

datatype 'p logLine =
    LogInfo int string string 'p
  | LogError error string string

text \<open>The interceptor: the handler's answer, and the lines it logged in order.\<close>

definition LogGRPC ::
  "int \<Rightarrow> ('q \<Rightarrow> 'p) \<Rightarrow> ('r \<Rightarrow> 'p) \<Rightarrow> string \<Rightarrow> 'q \<Rightarrow> ('q \<Rightarrow> ('s, 'r) go)
     \<Rightarrow> 's \<Rightarrow> ('r outcome \<times> 's) \<times> 'p logLine list" where
  "LogGRPC v stripQ stripR method req handler s =
     (let level = getLogLevel v method;
          calling = LogInfo level ''gRPC calling'' method (stripQ req)
      in case handler req s of
           (Ok resp, s') \<Rightarrow>
             ((Ok resp, s'), [calling, LogInfo level ''gRPC called'' method (stripR resp)])
         | (Err err, s') \<Rightarrow>
             ((Err err, s'), [calling, LogError err ''RPC called error'' method]
                @ (if level \<ge> 5 then [LogError err ''GRPC called error'' ''''] else []))
         | (Panic p, s') \<Rightarrow> ((Panic p, s'), [calling]))"

section \<open>Splitting an endpoint\<close>

lemma lower_byte_eq [simp]:
  "lower_byte c = CHR '':'' \<longleftrightarrow> c = CHR '':''" "lower_byte c = CHR ''/'' \<longleftrightarrow> c = CHR ''/''"
proof -
  have "lower_byte c = d \<longleftrightarrow> c = d" if "\<not> (97 \<le> (of_char d :: nat))" "(of_char d :: nat) < 65" for d
  proof (cases "65 \<le> (of_char c :: nat) \<and> (of_char c :: nat) \<le> 90")
    case True
    then have "of_char (lower_byte c) = (of_char c + 32 :: nat)" by (simp add: lower_byte_def Let_def)
    with True that show ?thesis by auto
  next
    case False
    then show ?thesis by (auto simp: lower_byte_def Let_def)
  qed
  from this [of "CHR '':''"] this [of "CHR ''/''"]
  show "lower_byte c = CHR '':'' \<longleftrightarrow> c = CHR '':''" "lower_byte c = CHR ''/'' \<longleftrightarrow> c = CHR ''/''"
    by (simp_all add: of_char_Char)
qed

lemmas lower_byte_eq_sym [simp] = lower_byte_eq [unfolded eq_commute [of "lower_byte c" for c]]

text \<open>Reading \<^verbatim>\<open>ToLower\<close> one code point at a time.\<close>

definition special :: "string \<Rightarrow> bool" where
  "special s \<longleftrightarrow> prefix [CHR 0xC4, CHR 0xB0] s \<or> prefix [CHR 0xE2, CHR 0x84, CHR 0xAA] s"

lemma ToLower_plain: "\<not> special (a # s) \<Longrightarrow> ToLower (a # s) = lower_byte a # ToLower s"
  by (subst ToLower.simps(2)) (auto simp: special_def simp del: ToLower.simps(2) split: list.splits)

lemma ToLower_special:
  "ToLower (CHR 0xC4 # CHR 0xB0 # t) = CHR ''i'' # ToLower t"
  "ToLower (CHR 0xE2 # CHR 0x84 # CHR 0xAA # t) = CHR ''k'' # ToLower t"
  by (simp_all only: ToLower.simps(2) list.case simp_thms if_True if_False char.inject)

declare ToLower.simps(2) [simp del]

lemma ToLower_cases [case_names Nil dotted kelvin plain]:
  assumes "P []" "\<And>t. P t \<Longrightarrow> P (CHR 0xC4 # CHR 0xB0 # t)"
    "\<And>t. P t \<Longrightarrow> P (CHR 0xE2 # CHR 0x84 # CHR 0xAA # t)"
    "\<And>a s. \<not> special (a # s) \<Longrightarrow> P s \<Longrightarrow> P (a # s)"
  shows "P s"
proof (induction "length s" arbitrary: s rule: less_induct)
  case less
  show ?case
  proof (cases s)
    case Nil
    with assms(1) show ?thesis by simp
  next
    case (Cons a t)
    then show ?thesis
      using less assms(2-4) by (cases "special (a # t)") (auto simp: special_def prefix_def)
  qed
qed

lemma special_colon: "\<not> special (a # s) \<Longrightarrow> \<not> special (a # s @ CHR '':'' # q)"
  by (auto simp: special_def prefix_def Cons_eq_append_conv append_eq_Cons_conv)

lemma ToLower_colon:
  "ToLower (p @ CHR '':'' # q) = ToLower p @ CHR '':'' # ToLower q"
proof (induction p rule: ToLower_cases)
  case Nil
  have "\<not> special (CHR '':'' # q)" by (simp add: special_def)
  then show ?case using lower_byte_eq(1) [of "CHR '':''"] by (simp add: ToLower_plain)
next
  case (plain a s)
  then show ?case using special_colon [of a s q] by (simp add: ToLower_plain)
qed (simp_all add: ToLower_special)

lemma colon_ToLower: "CHR '':'' \<in> set (ToLower s) \<longleftrightarrow> CHR '':'' \<in> set s"
proof (induction s rule: ToLower_cases)
  case (plain a s)
  then show ?case using lower_byte_eq(1) [of a] by (auto simp: ToLower_plain)
qed (simp_all add: ToLower_special)

lemma ToLower_slash [simp]: "ToLower (CHR ''/'' # r) = CHR ''/'' # ToLower r"
proof -
  have "\<not> special (CHR ''/'' # r)" by (simp add: special_def)
  then show ?thesis using lower_byte_eq(2) [of "CHR ''/''"] by (simp add: ToLower_plain)
qed

lemma ToLower_eq_slash:
  assumes "ToLower r = CHR ''/'' # z"
  obtains r' where "r = CHR ''/'' # r'" "z = ToLower r'"
  using assms
proof (induction r rule: ToLower_cases)
  case (plain a s)
  from plain(4) have "a = CHR ''/''" "ToLower s = z"
    unfolding ToLower_plain [OF plain(1)] by simp_all
  with plain(3) [of s] show ?case by simp
qed (simp_all add: ToLower_special)

lemma SplitN2_scheme:
  "CHR '':'' \<notin> set p \<Longrightarrow> SplitN2 ''://'' (p @ ''://'' @ a) = [p, a]"
  by (induction p) auto

lemma append_colon_eq:
  assumes "x @ CHR '':'' # u = y @ CHR '':'' # v" "CHR '':'' \<notin> set x" "CHR '':'' \<notin> set y"
  shows "x = y \<and> u = v"
  using assms by (auto simp: append_eq_append_conv2 Cons_eq_append_conv append_eq_Cons_conv)

lemma scheme_prefix:
  assumes "CHR '':'' \<notin> set p"
  shows "HasPrefix (ToLower ep) (p @ ''://'') \<longleftrightarrow>
     (\<exists>q a. ep = q @ ''://'' @ a \<and> ToLower q = p)"
proof
  assume "\<exists>q a. ep = q @ ''://'' @ a \<and> ToLower q = p"
  then show "HasPrefix (ToLower ep) (p @ ''://'')"
    by (auto simp: HasPrefix_def ToLower_colon)
next
  assume "HasPrefix (ToLower ep) (p @ ''://'')"
  then obtain z where z: "ToLower ep = p @ CHR '':'' # CHR ''/'' # CHR ''/'' # z"
    by (auto simp: HasPrefix_def prefix_def)
  then have "CHR '':'' \<in> set ep" using colon_ToLower [of ep] by simp
  then obtain q r where ep: "ep = q @ CHR '':'' # r" "CHR '':'' \<notin> set q"
    using split_list_first [of "CHR '':''" ep] by auto
  then have "ToLower q @ CHR '':'' # ToLower r = p @ CHR '':'' # CHR ''/'' # CHR ''/'' # z"
    using z by (simp add: ToLower_colon)
  then have q: "ToLower q = p" "ToLower r = CHR ''/'' # CHR ''/'' # z"
    using append_colon_eq assms ep(2) colon_ToLower by blast+
  from q(2) obtain r1 where r1: "r = CHR ''/'' # r1" "ToLower r1 = CHR ''/'' # z"
    by (rule ToLower_eq_slash) simp
  from r1(2) obtain r2 where "r1 = CHR ''/'' # r2" by (rule ToLower_eq_slash)
  with ep q r1 show "\<exists>q a. ep = q @ ''://'' @ a \<and> ToLower q = p"
    by (intro exI [of _ q] exI [of _ r2]) simp
qed

lemma schemes: "ToLower q \<in> {''unix'', ''tcp''} \<Longrightarrow> CHR '':'' \<notin> set q"
  using colon_ToLower [of q] by auto

lemma ParseEndpoint_scheme:
  assumes "ToLower p \<in> {''unix'', ''tcp''}"
  shows "ParseEndpoint (p @ ''://'' @ a) =
    (if a \<noteq> '''' then Ok (p, a) else Err (NewErr (''invalid endpoint: '' @ p @ ''://'')))"
proof -
  have "CHR '':'' \<notin> set p" by (rule schemes [OF assms])
  moreover have "HasPrefix (ToLower (p @ ''://'' @ a)) ''unix://'' \<or> HasPrefix (ToLower (p @ ''://'' @ a)) ''tcp://''"
    using assms scheme_prefix [of "''unix''" "p @ ''://'' @ a"] scheme_prefix [of "''tcp''" "p @ ''://'' @ a"]
    by auto
  ultimately show ?thesis using SplitN2_scheme [of p a] by (simp add: ParseEndpoint_def Let_def)
qed

lemma ParseEndpoint_no_scheme:
  assumes "\<nexists>p a. ep = p @ ''://'' @ a \<and> ToLower p \<in> {''unix'', ''tcp''}"
  shows "ParseEndpoint ep = Err (NewErr (''invalid endpoint: '' @ ep))"
  using assms scheme_prefix [of "''unix''" ep] scheme_prefix [of "''tcp''" ep]
  by (auto simp: ParseEndpoint_def Let_def)

section \<open>Properties\<close>

text \<open>C39. Parsing an endpoint returns exactly the two parts around the first \<^verbatim>\<open>://\<close>: it succeeds if
  and only if the part before it is \<^verbatim>\<open>unix\<close> or \<^verbatim>\<open>tcp\<close> in any case and the part after it is not
  empty, every other text is refused with the one error of the function, and the slice of the parts
  is never indexed out of range.\<close>

theorem ParseEndpoint_correct:
  "(ParseEndpoint ep = Ok (proto, addr) \<longleftrightarrow>
      ep = proto @ ''://'' @ addr \<and> ToLower proto \<in> {''unix'', ''tcp''} \<and> addr \<noteq> '''')
   \<and> ParseEndpoint ep \<in> range Ok \<union> {Err (NewErr (''invalid endpoint: '' @ ep))}"
proof (cases "\<exists>p a. ep = p @ ''://'' @ a \<and> ToLower p \<in> {''unix'', ''tcp''}")
  case True
  then obtain p a where pa: "ep = p @ ''://'' @ a" "ToLower p \<in> {''unix'', ''tcp''}" by blast
  have same: "p = proto \<and> a = addr" if "ep = proto @ ''://'' @ addr \<and> ToLower proto \<in> {''unix'', ''tcp''}"
    using that pa append_colon_eq [of p "''//'' @ a" proto "''//'' @ addr"] schemes by simp
  have run: "ParseEndpoint ep = (if a \<noteq> '''' then Ok (p, a) else Err (NewErr (''invalid endpoint: '' @ ep)))"
    using ParseEndpoint_scheme [OF pa(2), of a] pa(1) by simp
  have "ParseEndpoint ep = Ok (proto, addr) \<longleftrightarrow> a \<noteq> '''' \<and> p = proto \<and> a = addr"
    unfolding run by auto
  also have "\<dots> \<longleftrightarrow> ep = proto @ ''://'' @ addr \<and> ToLower proto \<in> {''unix'', ''tcp''} \<and> addr \<noteq> ''''"
    using same pa by blast
  finally show ?thesis unfolding run by simp
next
  case False
  then show ?thesis unfolding ParseEndpoint_no_scheme [OF False] by blast
qed

text \<open>The address of a node is its first external IP, internal IP or host name in the order in
  which the node lists its addresses, an IP for the first two and a host name for the third, and the
  function fails exactly when the node lists none of the three kinds.\<close>

theorem GetPriorNodeAddress_first:
  "(GetPriorNodeAddress n = Inr info \<longleftrightarrow>
      (\<exists>pre a post. nAddresses n = pre @ a # post \<and> list_all (\<lambda>b. \<not> usable b) pre \<and> usable a
         \<and> info = mkAddressInfo (naAddress a)
             (if naType a = NodeHostName then AddressTypeHostname else AddressTypeIP)))
   \<and> (GetPriorNodeAddress n = Inl e \<longleftrightarrow>
        list_all (\<lambda>b. \<not> usable b) (nAddresses n) \<and> e = NewErr ''no address found'')"
proof -
  have some: "(\<exists>pre a post. nAddresses n = pre @ a # post \<and> list_all (\<lambda>b. \<not> usable b) pre \<and> usable a \<and> Q a)
      \<longleftrightarrow> (\<exists>a. find usable (nAddresses n) = Some a \<and> Q a)" for Q
    by (auto simp: find_usable_Some)
  show ?thesis
    unfolding some
    unfolding find_usable_None [symmetric] GetPriorNodeAddress_def priorAddress_find
    by (cases "find usable (nAddresses n)") (simp_all split del: if_split, blast+)
qed

text \<open>The interceptor hands the handler's answer and state on unchanged, and what it logs of the
  messages is only what the secret stripper returned: the stripped request first, and the stripped
  response exactly when the handler succeeded.\<close>

theorem LogGRPC_transparent:
  "fst (LogGRPC v stripQ stripR method req handler s) = handler req s
   \<and> [p. LogInfo lv msg m p \<leftarrow> snd (LogGRPC v stripQ stripR method req handler s)]
       = stripQ req # (case fst (handler req s) of Ok resp \<Rightarrow> [stripR resp] | _ \<Rightarrow> [])"
  by (auto simp: LogGRPC_def Let_def split: prod.splits outcome.splits)

end
