(* ===== verification/Service.thy ===== *)
theory Service
  imports Util
begin

text \<open>
  \<^verbatim>\<open>internal/controller/listener/service.go\<close>: the Service that a Listener owns, how it is created
  and kept up to date, and the addresses and ports that are read off it.
\<close>

record ctrlResult =
  Requeue :: bool
  RequeueAfter :: int

definition zeroResult :: ctrlResult where
  "zeroResult = \<lparr>Requeue = False, RequeueAfter = 0\<rparr>"

definition IsZero :: "ctrlResult \<Rightarrow> bool" where
  "IsZero r = (r = zeroResult)"

section \<open>ServiceReconciler\<close>

abbreviation ProtocolTCP :: string where "ProtocolTCP \<equiv> ''TCP''"
abbreviation ServiceExternalTrafficPolicyLocal :: string where
  "ServiceExternalTrafficPolicyLocal \<equiv> ''Local''"

definition getName :: "listener \<Rightarrow> string" where
  "getName l = Name (lMeta l)"

definition getNamespace :: "listener \<Rightarrow> string" where
  "getNamespace l = Namespace (lMeta l)"

definition getListenerClass :: "('k, 'z) client_scheme \<Rightarrow> listener \<Rightarrow> ('k, listenerClass) go" where
  "getListenerClass C l = callG (GetListenerClass C ('''', ClassName (lSpec l)))"

definition getPodSelectorLabels :: "listener \<Rightarrow> labels" where
  "getPodSelectorLabels l = maps_Copy (ListenerMountPodLabels l) (ExtraPodSelectorLabels (lSpec l))"

definition getExternalTrafficPolicyFromListenerClass ::
  "listenerClass \<Rightarrow> ('s, string option) go" where
  "getExternalTrafficPolicyFromListenerClass lc =
     bindG (derefG (ServiceType lc)) (\<lambda>serviceType.
       if serviceType = ServiceTypeNodePort \<or> serviceType = ServiceTypeLoadBalancer
       then retG (Some (ServiceExternalTrafficPolicy lc)) else retG None)"

definition describe :: "('k, 'z) client_scheme \<Rightarrow> listener \<Rightarrow> ('k, service) go" where
  "describe C l = callG (GetService C (Namespace (lMeta l), getName l))"

text \<open>The loop over the ports of the listener: unnamed ports are skipped.\<close>

fun servicePorts :: "portSpec list \<Rightarrow> servicePort list" where
  "servicePorts [] = []"
| "servicePorts (p # ps) =
     (if psName p \<noteq> '''' then
        \<lparr>spName = psName p,
         spProtocol = (if psProtocol p = '''' then ProtocolTCP else psProtocol p),
         spPort = psPort p, spTargetPort = FromInt32 (psPort p), spNodePort = 0\<rparr> # servicePorts ps
      else servicePorts ps)"

definition desiredService ::
  "('k, 'z) client_scheme \<Rightarrow> listener \<Rightarrow> serviceType \<Rightarrow> string option \<Rightarrow> service" where
  "desiredService C l ty externalTrafficPolicy =
     \<lparr>svMeta = newMeta (getName l) (getNamespace l),
      svPorts = servicePorts (lsPorts (lSpec l)),
      svSelector = getPodSelectorLabels l,
      svType = ty,
      svPublishNotReadyAddresses = GetPublishNotReadyAddresses C (lSpec l),
      svExternalTrafficPolicy = (case externalTrafficPolicy of Some p \<Rightarrow> p | None \<Rightarrow> ''''),
      svHealthCheckNodePort = 0, svAllocateLoadBalancerNodePorts = None,
      svLoadBalancerClass = None, svClusterIP = '''', svClusterIPs = [], svIPFamilies = [],
      svIPFamilyPolicy = None, svIngress = []\<rparr>"

text \<open>The inner loop of the mutate callback: the first existing port of the same name and
  protocol gives its node port, then the loop breaks.\<close>

fun keepNodePort :: "servicePort list \<Rightarrow> servicePort \<Rightarrow> servicePort" where
  "keepNodePort [] p = p"
| "keepNodePort (existing # es) p =
     (if spName existing = spName p \<and> spProtocol existing = spProtocol p
      then p\<lparr>spNodePort := spNodePort existing\<rparr> else keepNodePort es p)"

definition mutatePorts :: "service \<Rightarrow> service \<Rightarrow> servicePort list" where
  "mutatePorts desired s =
     (if svType desired = ServiceTypeNodePort \<or> svType desired = ServiceTypeLoadBalancer
      then map (keepNodePort (svPorts s)) (svPorts desired) else svPorts desired)"

definition mutateFields :: "service \<Rightarrow> service \<Rightarrow> service" where
  "mutateFields desired s =
     (let s1 = s\<lparr>svPorts := mutatePorts desired s,
                 svSelector := svSelector desired,
                 svType := svType desired,
                 svPublishNotReadyAddresses := svPublishNotReadyAddresses desired,
                 svExternalTrafficPolicy := svExternalTrafficPolicy desired\<rparr>;
          s2 = (if svType desired \<noteq> ServiceTypeLoadBalancer
                then s1\<lparr>svAllocateLoadBalancerNodePorts := None, svLoadBalancerClass := None\<rparr>
                else s1)
      in if svType desired \<noteq> ServiceTypeLoadBalancer
            \<or> svExternalTrafficPolicy desired \<noteq> ServiceExternalTrafficPolicyLocal
         then s2\<lparr>svHealthCheckNodePort := 0\<rparr> else s2)"

definition mutateService ::
  "('k, 'z) client_scheme \<Rightarrow> listener \<Rightarrow> service \<Rightarrow> service \<Rightarrow> error + service" where
  "mutateService C l desired s =
     (let s' = mutateFields desired s
      in case SetControllerReference C (''Listener'', lMeta l) (svMeta s') of
           Inl e \<Rightarrow> Inl e
         | Inr m \<Rightarrow> Inr (s'\<lparr>svMeta := m\<rparr>))"

definition createService :: "('k, 'z) client_scheme \<Rightarrow> listener \<Rightarrow> ('k, ctrlResult) go" where
  "createService C l =
     bindG (getListenerClass C l) (\<lambda>listenerClass.
     if servicePorts (lsPorts (lSpec l)) = [] then
       failG (NewErr (''could not find any valid ports in listener: '' @ Name (lMeta l)
         @ '' namespace: '' @ Namespace (lMeta l)))
     else
     bindG (derefG (ServiceType listenerClass)) (\<lambda>ty.
     bindG (getExternalTrafficPolicyFromListenerClass listenerClass) (\<lambda>policy.
     let desired = desiredService C l ty policy in
     bindG (callG (CreateOrUpdateService C desired (mutateService C l desired))) (\<lambda>operation.
     if operation \<noteq> OperationResultNone then retG (zeroResult\<lparr>Requeue := True\<rparr>)
     else retG zeroResult))))"

section \<open>ServiceAddress\<close>

definition ingressAddresses :: "lbIngress \<Rightarrow> addressInfo list" where
  "ingressAddresses i =
     (if ingHostname i \<noteq> '''' then [mkAddressInfo (ingHostname i) AddressTypeHostname] else [])
     @ (if ingIP i \<noteq> '''' then [mkAddressInfo (ingIP i) AddressTypeIP] else [])"

definition getLbIngressAddresses :: "service \<Rightarrow> error + addressInfo list" where
  "getLbIngressAddresses s =
     (if svType s \<noteq> ServiceTypeLoadBalancer then
        Inl (NewErr ''service is not of type LoadBalancer'')
      else if svIngress s = [] then Inl (NewErr ''service has no LoadBalancer Ingress'')
      else Inr (concat (map ingressAddresses (svIngress s))))"

definition getClusterIpAddresses :: "service \<Rightarrow> error + addressInfo list" where
  "getClusterIpAddresses s =
     (if svType s \<noteq> ServiceTypeClusterIP then
        Inl (NewErr (''service.Spec.Type is not of type ClusterIP, but '' @ serviceTypeText (svType s)))
      else Inr (map (\<lambda>ip. mkAddressInfo ip AddressTypeIP) (svClusterIPs s)))"

definition getServiceType :: "service \<Rightarrow> serviceType" where
  [simp]: "getServiceType s = svType s"

definition serviceNameLabel :: string where
  "serviceNameLabel = ''kubernetes.io/service-name''"

fun endpointNodes :: "endpoint list \<Rightarrow> string list" where
  "endpointNodes [] = []"
| "endpointNodes (e # es) =
     (case epNodeName e of Some n \<Rightarrow> n # endpointNodes es | None \<Rightarrow> endpointNodes es)"

definition getNodeNames :: "('k, 'z) client_scheme \<Rightarrow> service \<Rightarrow> ('k, string list) go" where
  "getNodeNames C s =
     bindG (mapErrG (FmtErr (''failed to list endpoints for service '' @ Namespace (svMeta s)
              @ ''/'' @ Name (svMeta s) @ '': ''))
        (callG (ListEndpointSlices C (Namespace (svMeta s)) [(serviceNameLabel, Name (svMeta s))])))
     (\<lambda>slices. if slices = [] then retG []
        else retG (concat (map (\<lambda>sl. endpointNodes (Endpoints sl)) slices)))"

definition nodeAddressOf :: "('k, 'z) client_scheme \<Rightarrow> string \<Rightarrow> ('k, addressInfo) go" where
  "nodeAddressOf C nodeName =
     bindG (callG (GetNode C ('''', nodeName))) (\<lambda>n. liftG (GetPriorNodeAddress n))"

definition getNodesAddresses :: "('k, 'z) client_scheme \<Rightarrow> service \<Rightarrow> ('k, addressInfo list) go" where
  "getNodesAddresses C s =
     bindG (getNodeNames C s) (\<lambda>nodeNames. forG nodeNames (nodeAddressOf C))"

definition namedPorts :: "(servicePort \<Rightarrow> int32) \<Rightarrow> servicePort list \<Rightarrow> int32 gomap" where
  "namedPorts f ps =
     fold (\<lambda>p m. if spName p = '''' then m else AList.update (spName p) (f p) m) ps []"

definition getNodePorts :: "service \<Rightarrow> error + int32 gomap" where
  "getNodePorts s =
     (if svType s \<noteq> ServiceTypeNodePort then Inl (NewErr ''service is not of type NodePort'')
      else Inr (namedPorts spNodePort (svPorts s)))"

definition getPorts :: "service \<Rightarrow> int32 gomap" where
  "getPorts s = namedPorts spPort (svPorts s)"

section \<open>Ports\<close>

lemma servicePorts_filter:
  "servicePorts ps = map (\<lambda>p. \<lparr>spName = psName p,
     spProtocol = (if psProtocol p = '''' then ProtocolTCP else psProtocol p),
     spPort = psPort p, spTargetPort = FromInt32 (psPort p), spNodePort = 0\<rparr>)
     (filter (\<lambda>p. psName p \<noteq> '''') ps)"
  by (induction ps) auto

lemma servicePorts_wf:
  assumes "p \<in> set (servicePorts ps)"
  shows "spName p \<noteq> ''''" "spProtocol p \<noteq> ''''" "spTargetPort p = FromInt32 (spPort p)"
    "spNodePort p = 0"
  using assms by (induction ps) (auto split: if_splits)

text \<open>A port is identified by its name and protocol.\<close>

definition portId :: "servicePort \<Rightarrow> string \<times> string" where
  "portId p = (spName p, spProtocol p)"

lemma portId_upd [simp]: "portId (p\<lparr>spNodePort := n\<rparr>) = portId p"
  by (simp add: portId_def)

lemma keepNodePort_Cons:
  "keepNodePort (e # es) p =
     (if portId e = portId p then p\<lparr>spNodePort := spNodePort e\<rparr> else keepNodePort es p)"
  by (simp add: portId_def)

declare keepNodePort.simps(2) [simp del]

lemma keepNodePort_find:
  "keepNodePort es p = (case find (\<lambda>e. portId e = portId p) es of
     Some e \<Rightarrow> p\<lparr>spNodePort := spNodePort e\<rparr> | None \<Rightarrow> p)"
  by (induction es) (auto simp: keepNodePort_Cons)

lemma keepNodePort_shape: "\<exists>n. keepNodePort es p = p\<lparr>spNodePort := n\<rparr>"
  by (induction es) (auto simp: keepNodePort_Cons intro: exI [of _ "spNodePort p"])

lemma keepNodePort_fields [simp]:
  "portId (keepNodePort es p) = portId p" "spPort (keepNodePort es p) = spPort p"
  "spTargetPort (keepNodePort es p) = spTargetPort p"
  using keepNodePort_shape [of es p] by auto

lemma keepNodePort_found:
  "distinct (map portId es) \<Longrightarrow> e \<in> set es \<Longrightarrow> portId e = portId p \<Longrightarrow>
     keepNodePort es p = p\<lparr>spNodePort := spNodePort e\<rparr>"
  by (induction es) (auto simp: keepNodePort_Cons image_iff)

lemma keepNodePort_missing:
  "portId p \<notin> portId ` set es \<Longrightarrow> keepNodePort es p = p"
  by (induction es) (auto simp: keepNodePort_Cons)

text \<open>\<open>reallocated D Q\<close>: \<open>Q\<close> is \<open>D\<close> with other node ports.\<close>

definition reallocated :: "servicePort list \<Rightarrow> servicePort list \<Rightarrow> bool" where
  "reallocated D Q = list_all2 (\<lambda>p q. \<exists>n. q = p\<lparr>spNodePort := n\<rparr>) D Q"

lemma reallocated_ids: "reallocated D Q \<Longrightarrow> map portId Q = map portId D"
  unfolding reallocated_def by (induction rule: list_all2_induct) auto

lemma reallocated_trans: "reallocated D P \<Longrightarrow> reallocated P Q \<Longrightarrow> reallocated D Q"
  unfolding reallocated_def
  by (rule list_all2_trans [where ?P1.0 = "\<lambda>p q. \<exists>n. q = p\<lparr>spNodePort := n\<rparr>"
        and ?P2.0 = "\<lambda>p q. \<exists>n. q = p\<lparr>spNodePort := n\<rparr>"]) auto

lemma reallocated_keepNodePort: "reallocated D (map (keepNodePort E) D)"
  unfolding reallocated_def using keepNodePort_shape by (simp add: list_all2_conv_all_nth)

lemma map_keepNodePort_id:
  assumes "reallocated D Q" "distinct (map portId D)"
  shows "map (keepNodePort Q) D = Q"
proof (rule nth_equalityI)
  show "length (map (keepNodePort Q) D) = length Q"
    using assms(1) by (simp add: reallocated_def list_all2_lengthD)
next
  fix i assume i: "i < length (map (keepNodePort Q) D)"
  with assms(1) obtain n where q: "Q ! i = (D ! i)\<lparr>spNodePort := n\<rparr>" and iQ: "i < length Q"
    by (auto simp: reallocated_def list_all2_conv_all_nth)
  have "keepNodePort Q (D ! i) = (D ! i)\<lparr>spNodePort := spNodePort (Q ! i)\<rparr>"
    by (rule keepNodePort_found) (use assms(2) reallocated_ids [OF assms(1)] nth_mem [OF iQ] q in simp_all)
  with q i show "map (keepNodePort Q) D ! i = Q ! i" by simp
qed

lemma namedPorts_snoc:
  "namedPorts f (ps @ [p]) =
     (if spName p = '''' then namedPorts f ps else AList.update (spName p) (f p) (namedPorts f ps))"
  by (simp add: namedPorts_def)

lemma wf_namedPorts [simp]: "wf_map (namedPorts f ps)"
  by (induction ps rule: rev_induct) (auto simp: namedPorts_snoc, simp add: namedPorts_def)

lemma map_of_namedPorts:
  "map_of (namedPorts f ps) =
     map_of (rev (map (\<lambda>p. (spName p, f p)) (filter (\<lambda>p. spName p \<noteq> '''') ps)))"
proof (induction ps rule: rev_induct)
  case Nil
  then show ?case by (simp add: namedPorts_def)
next
  case (snoc p ps)
  then show ?case by (auto simp: namedPorts_snoc update_conv')
qed

section \<open>The mutate callback\<close>

abbreviation exposed :: "serviceType \<Rightarrow> bool" where
  "exposed ty \<equiv> ty = ServiceTypeNodePort \<or> ty = ServiceTypeLoadBalancer"

text \<open>The fields that the controller owns, and the ones it leaves to the API server.\<close>

lemma mutateFields_owned [simp]:
  "svPorts (mutateFields d s) = mutatePorts d s" "svSelector (mutateFields d s) = svSelector d"
  "svType (mutateFields d s) = svType d"
  "svPublishNotReadyAddresses (mutateFields d s) = svPublishNotReadyAddresses d"
  "svExternalTrafficPolicy (mutateFields d s) = svExternalTrafficPolicy d"
  "svHealthCheckNodePort (mutateFields d s) =
     (if svType d = ServiceTypeLoadBalancer \<and> svExternalTrafficPolicy d = ServiceExternalTrafficPolicyLocal
      then svHealthCheckNodePort s else 0)"
  "svAllocateLoadBalancerNodePorts (mutateFields d s) =
     (if svType d = ServiceTypeLoadBalancer then svAllocateLoadBalancerNodePorts s else None)"
  "svLoadBalancerClass (mutateFields d s) =
     (if svType d = ServiceTypeLoadBalancer then svLoadBalancerClass s else None)"
  by (simp_all add: mutateFields_def Let_def)

lemma mutateFields_kept [simp]:
  "svMeta (mutateFields d s) = svMeta s" "svClusterIP (mutateFields d s) = svClusterIP s"
  "svClusterIPs (mutateFields d s) = svClusterIPs s" "svIPFamilies (mutateFields d s) = svIPFamilies s"
  "svIPFamilyPolicy (mutateFields d s) = svIPFamilyPolicy s" "svIngress (mutateFields d s) = svIngress s"
  by (simp_all add: mutateFields_def Let_def)

lemma mutateService_Inr:
  "mutateService C l d s = Inr s' \<longleftrightarrow>
     (\<exists>m. SetControllerReference C (''Listener'', lMeta l) (svMeta s) = Inr m
        \<and> s' = (mutateFields d s)\<lparr>svMeta := m\<rparr>)"
  by (auto simp: mutateService_def Let_def split: sum.splits)

text \<open>
  \<open>admitted sub st\<close>: the API server may store \<open>st\<close> when \<open>sub\<close> was submitted. It allocates node
  ports (for the exposed types), cluster addresses and a health check port, defaults an empty
  traffic policy of an exposed service, and keeps everything else that the controller sets.
\<close>

definition admitted :: "service \<Rightarrow> service \<Rightarrow> bool" where
  "admitted sub st =
     (Namespace (svMeta st) = Namespace (svMeta sub) \<and> Name (svMeta st) = Name (svMeta sub)
      \<and> OwnerReferences (svMeta st) = OwnerReferences (svMeta sub)
      \<and> svSelector st = svSelector sub \<and> svType st = svType sub
      \<and> svPublishNotReadyAddresses st = svPublishNotReadyAddresses sub
      \<and> (if exposed (svType sub) then reallocated (svPorts sub) (svPorts st)
         else svPorts st = svPorts sub)
      \<and> (exposed (svType sub) \<and> svExternalTrafficPolicy sub = ''''
         \<or> svExternalTrafficPolicy st = svExternalTrafficPolicy sub)
      \<and> (svType sub = ServiceTypeLoadBalancer
         \<or> svAllocateLoadBalancerNodePorts st = svAllocateLoadBalancerNodePorts sub
           \<and> svLoadBalancerClass st = svLoadBalancerClass sub)
      \<and> (svType sub = ServiceTypeLoadBalancer
           \<and> svExternalTrafficPolicy sub = ServiceExternalTrafficPolicyLocal
         \<or> svHealthCheckNodePort st = svHealthCheckNodePort sub))"

lemma mutatePorts_admitted:
  assumes "admitted sub st" "svType sub = svType d" "svPorts sub = mutatePorts d s0"
    "distinct (map portId (svPorts d))"
  shows "mutatePorts d st = svPorts st"
proof (cases "exposed (svType d)")
  case True
  with assms have "reallocated (svPorts d) (svPorts st)"
    using reallocated_trans [OF reallocated_keepNodePort [of "svPorts d" "svPorts s0"]]
    by (simp add: admitted_def mutatePorts_def)
  with assms(4) True show ?thesis by (simp add: mutatePorts_def map_keepNodePort_id)
next
  case False
  with assms show ?thesis by (simp add: admitted_def mutatePorts_def)
qed

lemma reallocated_refl [simp]: "reallocated D D"
proof -
  have "\<exists>n. p = p\<lparr>spNodePort := n\<rparr>" for p :: servicePort
    by (rule exI [of _ "spNodePort p"]) simp
  then show ?thesis unfolding reallocated_def by (intro list_all2_refl) auto
qed

lemma admitted_refl [simp]: "admitted s s"
  by (simp add: admitted_def)

text \<open>What the server stored of a mutated service is a fixed point of the mutation: the next
  reconciliation finds nothing to change.\<close>

lemma mutateFields_admitted:
  assumes "admitted ((mutateFields d s0)\<lparr>svMeta := m\<rparr>) st" "distinct (map portId (svPorts d))"
    "exposed (svType d) \<longrightarrow> svExternalTrafficPolicy d \<noteq> ''''"
  shows "mutateFields d st = st"
proof -
  have "mutatePorts d st = svPorts st"
    by (rule mutatePorts_admitted [OF assms(1), where ?s0.0 = s0]) (use assms(2) in simp_all)
  with assms(1,3) show ?thesis
    by (intro service.equality) (auto simp: admitted_def)
qed

lemma mutatePorts_idem:
  assumes "\<forall>p\<in>set (svPorts d). spNodePort p = 0"
  shows "mutatePorts d (s\<lparr>svPorts := mutatePorts d s\<rparr>) = mutatePorts d s"
proof (cases "exposed (svType d)")
  case True
  let ?E = "svPorts s" and ?D = "svPorts d"
  have "keepNodePort (map (keepNodePort ?E) D') p = keepNodePort ?E p"
    if "p \<in> set D'" "set D' \<subseteq> set ?D" for p D'
    using that
  proof (induction D')
    case (Cons q D')
    have "keepNodePort ?E p = p\<lparr>spNodePort := spNodePort (keepNodePort ?E q)\<rparr>"
      if "portId q = portId p"
      using that Cons.prems assms by (auto simp: keepNodePort_find split: option.splits)
    with Cons show ?case by (auto simp: keepNodePort_Cons)
  qed simp
  with True show ?thesis by (simp add: mutatePorts_def)
next
  case False
  then show ?thesis by (simp add: mutatePorts_def)
qed

text \<open>
  The contract of the API server for services, as \<^verbatim>\<open>controllerutil.CreateOrUpdate\<close> documents it:
  the callback runs on the stored object (or on the given one if there is none), nothing is
  written when it changes nothing or fails, and otherwise the result is submitted.
\<close>

locale kube_services = kube_reads C for C :: "('k, 'z) client_scheme" +
  fixes stored :: "'k \<Rightarrow> objectKey \<Rightarrow> service option"
  assumes getService_stored:
      "stored w k = Some s \<Longrightarrow> fst (GetService C k w) = Inr s"
    and unchanged:
      "stored w (objectKeyOf (svMeta s0)) = Some s \<Longrightarrow> f s = Inr s \<Longrightarrow>
         CreateOrUpdateService C s0 f w = (Inr OperationResultNone, w)"
    and updated:
      "stored w (objectKeyOf (svMeta s0)) = Some s \<Longrightarrow> f s = Inr s' \<Longrightarrow> s' \<noteq> s \<Longrightarrow>
         CreateOrUpdateService C s0 f w = (Inr r, w') \<Longrightarrow>
         r = OperationResultUpdated
         \<and> (\<exists>st. admitted s' st \<and> stored w' = (stored w)(objectKeyOf (svMeta s0) \<mapsto> st))"
    and created:
      "stored w (objectKeyOf (svMeta s0)) = None \<Longrightarrow> f s0 = Inr s' \<Longrightarrow>
         CreateOrUpdateService C s0 f w = (Inr r, w') \<Longrightarrow>
         r = OperationResultCreated
         \<and> (\<exists>st. admitted s' st \<and> stored w' = (stored w)(objectKeyOf (svMeta s0) \<mapsto> st))"
    and mutate_failed:
      "f (case stored w (objectKeyOf (svMeta s0)) of Some s \<Rightarrow> s | None \<Rightarrow> s0) = Inl e \<Longrightarrow>
         CreateOrUpdateService C s0 f w = (Inl e, w)"
    and classes_kept:
      "CreateOrUpdateService C s0 f w = (r', w') \<Longrightarrow>
         fst (GetListenerClass C k w') = fst (GetListenerClass C k w)"
    and listeners_kept:
      "CreateOrUpdateService C s0 f w = (r', w') \<Longrightarrow>
         fst (GetListener C k w') = fst (GetListener C k w)"
    and controller_ref_idem:
      "SetControllerReference C ow m = Inr m' \<Longrightarrow> Namespace m'' = Namespace m \<Longrightarrow>
         Name m'' = Name m \<Longrightarrow> OwnerReferences m'' = OwnerReferences m' \<Longrightarrow>
         SetControllerReference C ow m'' = Inr m''"
    and controller_ref_frame:
      "SetControllerReference C ow m = Inr m' \<Longrightarrow>
         \<exists>os. m' = m\<lparr>OwnerReferences := os\<rparr>"

section \<open>createService\<close>

definition policyFor :: "listenerClass \<Rightarrow> serviceType \<Rightarrow> string option" where
  "policyFor lc ty = (if exposed ty then Some (ServiceExternalTrafficPolicy lc) else None)"

abbreviation desiredFor ::
  "('k, 'z) client_scheme \<Rightarrow> listener \<Rightarrow> listenerClass \<Rightarrow> serviceType \<Rightarrow> service" where
  "desiredFor C l lc ty \<equiv> desiredService C l ty (policyFor lc ty)"

lemma desiredService_sel [simp]:
  "svPorts (desiredService C l ty p) = servicePorts (lsPorts (lSpec l))"
  "svType (desiredService C l ty p) = ty"
  "svSelector (desiredService C l ty p) = getPodSelectorLabels l"
  "svPublishNotReadyAddresses (desiredService C l ty p) = GetPublishNotReadyAddresses C (lSpec l)"
  "svExternalTrafficPolicy (desiredService C l ty p) = (case p of Some x \<Rightarrow> x | None \<Rightarrow> '''')"
  "svMeta (desiredService C l ty p) = newMeta (Name (lMeta l)) (Namespace (lMeta l))"
  "objectKeyOf (newMeta (Name (lMeta l)) (Namespace (lMeta l))) = objectKeyOf (lMeta l)"
  by (simp_all add: desiredService_def getName_def getNamespace_def objectKeyOf_def newMeta_def)

lemma getExternalTrafficPolicy_run [simp]:
  "ServiceType lc = Some ty \<Longrightarrow>
     getExternalTrafficPolicyFromListenerClass lc s = (Ok (policyFor lc ty), s)"
  by (simp add: getExternalTrafficPolicyFromListenerClass_def policyFor_def)

lemma createService_Ok:
  "createService C l w = (Ok r, w') \<longleftrightarrow>
     (\<exists>lc w1 ty operation.
        GetListenerClass C ('''', ClassName (lSpec l)) w = (Inr lc, w1)
        \<and> servicePorts (lsPorts (lSpec l)) \<noteq> [] \<and> ServiceType lc = Some ty
        \<and> CreateOrUpdateService C (desiredFor C l lc ty) (mutateService C l (desiredFor C l lc ty)) w1
            = (Inr operation, w')
        \<and> r = (if operation \<noteq> OperationResultNone then zeroResult\<lparr>Requeue := True\<rparr> else zeroResult))"
  by (fastforce simp: createService_def getListenerClass_def go_inv Let_def split: if_splits)

text \<open>What a Listener asks of its Service: the abstract specification that \<^verbatim>\<open>createService\<close>
  implements.\<close>

definition up_to_date ::
  "('k, 'z) client_scheme \<Rightarrow> listener \<Rightarrow> listenerClass \<Rightarrow> service \<Rightarrow> bool" where
  "up_to_date C l lc st =
     (Some (svType st) = ServiceType lc
      \<and> svSelector st = getPodSelectorLabels l
      \<and> svPublishNotReadyAddresses st = GetPublishNotReadyAddresses C (lSpec l)
      \<and> (if exposed (svType st) then reallocated (servicePorts (lsPorts (lSpec l))) (svPorts st)
         else svPorts st = servicePorts (lsPorts (lSpec l)))
      \<and> (if exposed (svType st)
         then ServiceExternalTrafficPolicy lc = '''' \<or>
              svExternalTrafficPolicy st = ServiceExternalTrafficPolicy lc
         else svExternalTrafficPolicy st = '''')
      \<and> SetControllerReference C (''Listener'', lMeta l) (svMeta st) = Inr (svMeta st))"

context kube_services
begin

text \<open>Whatever \<^verbatim>\<open>CreateOrUpdate\<close> leaves stored was admitted for a result of the callback.\<close>

lemma createOrUpdate_stored:
  assumes "CreateOrUpdateService C s0 f w = (Inr r, w')"
  shows "\<exists>st s s'. stored w' (objectKeyOf (svMeta s0)) = Some st \<and> f s = Inr s' \<and> admitted s' st
     \<and> (r = OperationResultNone \<longrightarrow> w' = w)"
proof -
  let ?k = "objectKeyOf (svMeta s0)"
  let ?s = "case stored w ?k of Some s \<Rightarrow> s | None \<Rightarrow> s0"
  obtain s' where s': "f ?s = Inr s'"
    using mutate_failed [where f = f and w = w and ?s0.0 = s0] assms by (cases "f ?s") auto
  show ?thesis
  proof (cases "stored w ?k")
    case None
    with s' created [OF None _ assms, of s'] show ?thesis by fastforce
  next
    case (Some s)
    show ?thesis
    proof (cases "s' = s")
      case True
      with Some s' unchanged [OF Some, of f] assms show ?thesis by (auto intro: admitted_refl)
    next
      case False
      with Some s' updated [OF Some _ False assms] show ?thesis by fastforce
    qed
  qed
qed

lemma controller_ref_admitted:
  assumes "mutateService C l d s = Inr s'" "admitted s' st"
  shows "SetControllerReference C (''Listener'', lMeta l) (svMeta st) = Inr (svMeta st)"
proof -
  obtain m where m: "SetControllerReference C (''Listener'', lMeta l) (svMeta s) = Inr m"
    and s': "svMeta s' = m"
    using assms(1) by (auto simp: mutateService_Inr)
  obtain os where "m = (svMeta s)\<lparr>OwnerReferences := os\<rparr>"
    using controller_ref_frame [OF m] by blast
  with assms(2) s' show ?thesis
    by (intro controller_ref_idem [OF m]) (auto simp: admitted_def)
qed

lemma mutateService_admitted:
  assumes "mutateService C l d s = Inr s'" "admitted s' st" "distinct (map portId (svPorts d))"
    "exposed (svType d) \<longrightarrow> svExternalTrafficPolicy d \<noteq> ''''"
  shows "mutateService C l d st = Inr st"
proof -
  obtain m where s': "s' = (mutateFields d s)\<lparr>svMeta := m\<rparr>"
    using assms(1) by (auto simp: mutateService_Inr)
  have "mutateFields d st = st"
    by (rule mutateFields_admitted [OF assms(2) [unfolded s']]) (use assms in simp_all)
  with controller_ref_admitted [OF assms(1,2)] show ?thesis
    by (simp add: mutateService_def Let_def)
qed

lemma mutateService_up_to_date:
  assumes "mutateService C l (desiredFor C l lc ty) s = Inr s'" "admitted s' st"
    "ServiceType lc = Some ty"
  shows "up_to_date C l lc st"
proof -
  obtain m where s': "s' = (mutateFields (desiredFor C l lc ty) s)\<lparr>svMeta := m\<rparr>"
    using assms(1) by (auto simp: mutateService_Inr)
  have "reallocated (servicePorts (lsPorts (lSpec l))) (svPorts st)" if "exposed ty"
    by (rule reallocated_trans [OF reallocated_keepNodePort [of _ "svPorts s"]])
      (use assms(2) that s' in \<open>simp add: admitted_def mutatePorts_def\<close>)
  with assms(2,3) s' controller_ref_admitted [OF assms(1,2)] show ?thesis
    by (auto simp: up_to_date_def admitted_def mutatePorts_def policyFor_def split: if_splits)
qed

lemma createService_converges:
  assumes "createService C l w = (Ok r, w')"
    and "distinct (map portId (servicePorts (lsPorts (lSpec l))))"
    and "\<And>lc. fst (GetListenerClass C ('''', ClassName (lSpec l)) w) = Inr lc \<Longrightarrow>
           ServiceExternalTrafficPolicy lc \<noteq> ''''"
  shows "createService C l w' = (Ok zeroResult, w')"
proof -
  obtain lc w1 ty r' where lc: "GetListenerClass C ('''', ClassName (lSpec l)) w = (Inr lc, w1)"
    and ports: "servicePorts (lsPorts (lSpec l)) \<noteq> []" and ty: "ServiceType lc = Some ty"
    and cou: "CreateOrUpdateService C (desiredFor C l lc ty)
        (mutateService C l (desiredFor C l lc ty)) w1 = (Inr r', w')"
    using assms(1) by (auto simp: createService_Ok)
  have w1: "w1 = w" using reads_eq(2) [OF lc] by simp
  let ?d = "desiredFor C l lc ty"
  have policy: "exposed (svType ?d) \<longrightarrow> svExternalTrafficPolicy ?d \<noteq> ''''"
    using assms(3) lc by (simp add: policyFor_def)
  obtain st s s' where st: "stored w' (objectKeyOf (svMeta ?d)) = Some st"
    and s': "mutateService C l ?d s = Inr s'" "admitted s' st"
    using createOrUpdate_stored [OF cou] by blast
  have "mutateService C l ?d st = Inr st"
    by (rule mutateService_admitted [OF s']) (use assms(2) policy in simp_all)
  with st have "CreateOrUpdateService C ?d (mutateService C l ?d) w' = (Inr OperationResultNone, w')"
    by (rule unchanged)
  moreover have "GetListenerClass C ('''', ClassName (lSpec l)) w' = (Inr lc, w')"
    using classes_kept [OF cou] lc w1 reads_eq(2) by (metis fst_conv prod.collapse reads(2))
  ultimately show ?thesis
    using ports ty by (subst createService_Ok) auto
qed

lemma createService_listeners:
  assumes "createService C l w = (Ok r, w')"
  shows "fst (GetListener C k w') = fst (GetListener C k w)"
proof -
  obtain lc w1 s0 f r' where lc: "GetListenerClass C ('''', ClassName (lSpec l)) w = (Inr lc, w1)"
    and cou: "CreateOrUpdateService C s0 f w1 = (Inr r', w')"
    using assms unfolding createService_Ok by blast
  from listeners_kept [OF cou] reads_eq(2) [OF lc] show ?thesis by simp
qed

lemma createService_up_to_date:
  assumes "createService C l w = (Ok r, w')"
  shows "\<exists>lc st. fst (GetListenerClass C ('''', ClassName (lSpec l)) w) = Inr lc
     \<and> stored w' (objectKeyOf (lMeta l)) = Some st \<and> up_to_date C l lc st
     \<and> (Requeue r \<or> w' = w)"
proof -
  obtain lc w1 ty r' where lc: "GetListenerClass C ('''', ClassName (lSpec l)) w = (Inr lc, w1)"
    and ty: "ServiceType lc = Some ty"
    and cou: "CreateOrUpdateService C (desiredFor C l lc ty)
        (mutateService C l (desiredFor C l lc ty)) w1 = (Inr r', w')"
    and r: "r = (if r' \<noteq> OperationResultNone then zeroResult\<lparr>Requeue := True\<rparr> else zeroResult)"
    using assms by (auto simp: createService_Ok)
  obtain st s s' where st: "stored w' (objectKeyOf (lMeta l)) = Some st"
    and s': "mutateService C l (desiredFor C l lc ty) s = Inr s'" "admitted s' st"
    and none: "r' = OperationResultNone \<longrightarrow> w' = w1"
    using createOrUpdate_stored [OF cou] by auto
  have "up_to_date C l lc st" by (rule mutateService_up_to_date [OF s' ty])
  with lc st none r reads_eq(2) [OF lc] show ?thesis by (auto simp: zeroResult_def)
qed

end

end
