(* ===== verification/FakeClient.thy ===== *)
theory FakeClient
  imports Service
begin

text \<open>
  An in-memory API server, in the manner of controller-runtime's fake client that the program's
  own tests use: a store of objects by kind and key, reads that look them up, creates that assign
  a UID and refuse an existing key, patches that merge a change into the stored object, and
  services admitted with allocated node ports and addresses. It satisfies every locale that the
  components state about the client, and the witnesses run on it.
\<close>

record cluster =
  cListeners :: "(objectKey \<times> listener) list"
  cClasses :: "(objectKey \<times> listenerClass) list"
  cPodListeners :: "(objectKey \<times> podListeners) list"
  cServices :: "(objectKey \<times> service) list"
  cNodes :: "(objectKey \<times> node) list"
  cPods :: "(objectKey \<times> pod) list"
  cPVs :: "(objectKey \<times> persistentVolume) list"
  cPVCs :: "(objectKey \<times> persistentVolumeClaim) list"
  cSlices :: "endpointSlice list"
  cConflicts :: nat

definition emptyCluster :: cluster where
  "emptyCluster = \<lparr>cListeners = [], cClasses = [], cPodListeners = [], cServices = [], cNodes = [],
     cPods = [], cPVs = [], cPVCs = [], cSlices = [], cConflicts = 0\<rparr>"

section \<open>Reads\<close>

definition fakeGet :: "('k \<Rightarrow> (objectKey \<times> 'o) list) \<Rightarrow> objectKey \<Rightarrow> ('k, 'o) call" where
  "fakeGet objs k w = (case map_of (objs w) k of
     Some x \<Rightarrow> Inr x | None \<Rightarrow> Inl (ApiErr NotFound (snd k)), w)"

text \<open>A cluster-scoped kind ignores the namespace of the key.\<close>

definition fakeGetCluster :: "('k \<Rightarrow> (objectKey \<times> 'o) list) \<Rightarrow> objectKey \<Rightarrow> ('k, 'o) call" where
  "fakeGetCluster objs k = fakeGet objs ('''', snd k)"

text \<open>The server stores an object under its own name.\<close>

definition storedAt ::
  "('o \<Rightarrow> objectMeta) \<Rightarrow> ('k \<Rightarrow> (objectKey \<times> 'o) list) \<Rightarrow> 'k \<Rightarrow> objectKey \<Rightarrow> 'o option" where
  "storedAt meta objs w k = (case map_of (objs w) k of
     Some x \<Rightarrow> if objectKeyOf (meta x) = k then Some x else None
   | None \<Rightarrow> None)"

definition fakeGetOwn ::
  "('o \<Rightarrow> objectMeta) \<Rightarrow> ('k \<Rightarrow> (objectKey \<times> 'o) list) \<Rightarrow> objectKey \<Rightarrow> ('k, 'o) call" where
  "fakeGetOwn meta objs k w = (case storedAt meta objs w k of
     Some x \<Rightarrow> Inr x | None \<Rightarrow> Inl (ApiErr NotFound (snd k)), w)"

definition matchingLabels :: "labels \<Rightarrow> labels \<Rightarrow> bool" where
  "matchingLabels sel ls = list_all (\<lambda>(k, v). map_of ls k = Some v) sel"

definition fakeListSlices :: "string \<Rightarrow> labels \<Rightarrow> (cluster, endpointSlice list) call" where
  "fakeListSlices ns sel w = (Inr (filter (\<lambda>sl. Namespace (esMeta sl) = ns
     \<and> matchingLabels sel (Labels (esMeta sl))) (cSlices w)), w)"

section \<open>Owner references\<close>

definition refersSame :: "ownerReference \<Rightarrow> ownerReference \<Rightarrow> bool" where
  "refersSame a b = (ownerKind a = ownerKind b \<and> ownerName a = ownerName b)"

definition upsertRef :: "ownerReference \<Rightarrow> ownerReference list \<Rightarrow> ownerReference list" where
  "upsertRef r rs = (if \<exists>x\<in>set rs. refersSame x r then map (\<lambda>x. if refersSame x r then r else x) rs
     else rs @ [r])"

definition fakeSetControllerReference :: "owner \<Rightarrow> objectMeta \<Rightarrow> error + objectMeta" where
  "fakeSetControllerReference ow m =
     (let r = \<lparr>ownerKind = fst ow, ownerName = Name (snd ow), ownerUID = UID (snd ow), isController = True\<rparr>
      in if Namespace (snd ow) \<noteq> '''' \<and> Namespace m \<noteq> Namespace (snd ow)
         then Inl (NewErr ''cross-namespace owner references are disallowed'')
         else if \<exists>x\<in>set (OwnerReferences m). isController x \<and> \<not> refersSame x r
         then Inl (NewErr ''Object is already owned by another controller'')
         else Inr (m\<lparr>OwnerReferences := upsertRef r (OwnerReferences m)\<rparr>))"

lemma refersSame_refl [simp]: "refersSame r r"
  by (simp add: refersSame_def)

lemma upsertRef_cases:
  "(\<exists>x\<in>set rs. refersSame x r) \<Longrightarrow> upsertRef r rs = map (\<lambda>x. if refersSame x r then r else x) rs"
  "\<not> (\<exists>x\<in>set rs. refersSame x r) \<Longrightarrow> upsertRef r rs = rs @ [r]"
  unfolding upsertRef_def by (simp_all only: if_True if_False)

lemma upsertRef_idem [simp]: "upsertRef r (upsertRef r rs) = upsertRef r rs"
proof (cases "\<exists>x\<in>set rs. refersSame x r")
  case True
  let ?f = "\<lambda>x. if refersSame x r then r else x"
  have "r \<in> set (map ?f rs)" using True by force
  then have "upsertRef r (map ?f rs) = map ?f (map ?f rs)"
    by (intro upsertRef_cases(1)) (rule bexI [of _ r], simp_all)
  moreover have "map ?f (map ?f rs) = map ?f rs" by simp
  ultimately show ?thesis using upsertRef_cases(1) [OF True] by simp
next
  case False
  have "map (\<lambda>x. if refersSame x r then r else x) rs = rs"
    by (rule map_idI) (use False in simp)
  moreover have "upsertRef r (rs @ [r]) = map (\<lambda>x. if refersSame x r then r else x) (rs @ [r])"
    by (rule upsertRef_cases(1)) simp
  ultimately show ?thesis using upsertRef_cases(2) [OF False] by simp
qed

lemma upsertRef_controllers:
  "x \<in> set (upsertRef r rs) \<Longrightarrow> \<not> refersSame x r \<Longrightarrow> x \<in> set rs"
  by (auto simp: upsertRef_def split: if_splits)

section \<open>Services\<close>

fun allocPorts :: "int32 \<Rightarrow> servicePort list \<Rightarrow> servicePort list" where
  "allocPorts n [] = []"
| "allocPorts n (p # ps) =
     (if spNodePort p = 0 then p\<lparr>spNodePort := n\<rparr> else p) # allocPorts (n + 1) ps"

definition admit :: "service \<Rightarrow> service" where
  "admit s = s\<lparr>svPorts := (if exposed (svType s) then allocPorts 30000 (svPorts s) else svPorts s),
     svClusterIP := (if svClusterIP s = '''' then ''10.0.0.1'' else svClusterIP s),
     svClusterIPs := (if svClusterIPs s = [] then [''10.0.0.1''] else svClusterIPs s)\<rparr>"

definition fakeCreateOrUpdate ::
  "service \<Rightarrow> (service \<Rightarrow> error + service) \<Rightarrow> (cluster, operationResult) call" where
  "fakeCreateOrUpdate s0 f w =
     (let k = objectKeyOf (svMeta s0)
      in case map_of (cServices w) k of
           None \<Rightarrow> (case f s0 of Inl e \<Rightarrow> (Inl e, w)
             | Inr s' \<Rightarrow> (Inr OperationResultCreated,
                 w\<lparr>cServices := AList.update k (admit s') (cServices w)\<rparr>))
         | Some s \<Rightarrow> (case f s of Inl e \<Rightarrow> (Inl e, w)
             | Inr s' \<Rightarrow> if s' = s then (Inr OperationResultNone, w)
                 else (Inr OperationResultUpdated,
                   w\<lparr>cServices := AList.update k (admit s') (cServices w)\<rparr>)))"

lemma reallocated_allocPorts: "reallocated ps (allocPorts n ps)"
proof (induction ps arbitrary: n)
  case Nil
  then show ?case by (simp add: reallocated_def)
next
  case (Cons p ps)
  have "\<exists>m. (if spNodePort p = 0 then p\<lparr>spNodePort := n\<rparr> else p) = p\<lparr>spNodePort := m\<rparr>"
    by (rule exI [of _ "if spNodePort p = 0 then n else spNodePort p"]) simp
  with Cons show ?case by (simp add: reallocated_def)
qed

lemma admitted_admit [simp]: "admitted s (admit s)"
  by (simp add: admitted_def admit_def reallocated_allocPorts)

section \<open>Other writes\<close>

text \<open>A merge patch sets the entries that changed and removes the ones that disappeared.\<close>

definition mergeMap :: "'v gomap \<Rightarrow> 'v gomap \<Rightarrow> 'v gomap \<Rightarrow> 'v gomap" where
  "mergeMap old new cur =
     maps_Copy (filter (\<lambda>(k, v). map_of old k = None \<or> map_of new k \<noteq> None) cur)
       (filter (\<lambda>(k, v). map_of old k \<noteq> Some v) new)"

definition fakePatch ::
  "('k \<Rightarrow> (objectKey \<times> 'o) list) \<Rightarrow> ((objectKey \<times> 'o) list \<Rightarrow> 'k \<Rightarrow> 'k) \<Rightarrow> ('o \<Rightarrow> 'o) \<Rightarrow> objectKey
     \<Rightarrow> ('k, 'o) call" where
  "fakePatch objs put change k w = (case map_of (objs w) k of
     None \<Rightarrow> (Inl (ApiErr NotFound (snd k)), w)
   | Some cur \<Rightarrow> (Inr (change cur), put (AList.update k (change cur) (objs w)) w))"

definition patchMeta :: "objectMeta \<Rightarrow> objectMeta \<Rightarrow> objectMeta \<Rightarrow> objectMeta" where
  "patchMeta old new cur = cur\<lparr>Labels := mergeMap (Labels old) (Labels new) (Labels cur)\<rparr>"

definition fakePatchPV :: "persistentVolume \<Rightarrow> persistentVolume \<Rightarrow> (cluster, persistentVolume) call" where
  "fakePatchPV old new = fakePatch cPVs (\<lambda>x. cPVs_update (\<lambda>_. x))
     (\<lambda>cur. cur\<lparr>pvMeta := patchMeta (pvMeta old) (pvMeta new) (pvMeta cur)\<rparr>)
     ('''', Name (pvMeta old))"

definition fakePatchPod :: "pod \<Rightarrow> pod \<Rightarrow> (cluster, pod) call" where
  "fakePatchPod old new = fakePatch cPods (\<lambda>x. cPods_update (\<lambda>_. x))
     (\<lambda>cur. cur\<lparr>pMeta := patchMeta (pMeta old) (pMeta new) (pMeta cur)\<rparr>)
     (objectKeyOf (pMeta old))"

definition fakePatchPodListeners :: "podListeners \<Rightarrow> podListeners \<Rightarrow> (cluster, podListeners) call" where
  "fakePatchPodListeners old new = fakePatch cPodListeners (\<lambda>x. cPodListeners_update (\<lambda>_. x))
     (\<lambda>cur. cur\<lparr>plListeners := mergeMap (plListeners old) (plListeners new) (plListeners cur)\<rparr>)
     (objectKeyOf (plMeta old))"

definition fakeCreateListener :: "listener \<Rightarrow> (cluster, listener) call" where
  "fakeCreateListener l w =
     (let k = objectKeyOf (lMeta l); l' = l\<lparr>lMeta := (lMeta l)\<lparr>UID := ''uid-'' @ Name (lMeta l)\<rparr>\<rparr>
      in if map_of (cListeners w) k \<noteq> None then (Inl (ApiErr AlreadyExists (Name (lMeta l))), w)
         else (Inr l', w\<lparr>cListeners := AList.update k l' (cListeners w)\<rparr>))"

definition fakeCreatePodListeners :: "podListeners \<Rightarrow> (cluster, podListeners) call" where
  "fakeCreatePodListeners p w =
     (let k = objectKeyOf (plMeta p)
      in if map_of (cPodListeners w) k \<noteq> None then (Inl (ApiErr AlreadyExists (Name (plMeta p))), w)
         else (Inr p, w\<lparr>cPodListeners := AList.update k p (cPodListeners w)\<rparr>))"

text \<open>\<open>cConflicts\<close> is how many more status updates meet a concurrent writer.\<close>

definition fakeStatusUpdate :: "listener \<Rightarrow> (cluster, listener) call" where
  "fakeStatusUpdate l w =
     (let k = objectKeyOf (lMeta l)
      in case map_of (cListeners w) k of
           None \<Rightarrow> (Inl (ApiErr NotFound (Name (lMeta l))), w)
         | Some cur \<Rightarrow>
             if cConflicts w > 0 then
               (Inl (ApiErr Conflict (Name (lMeta l))), w\<lparr>cConflicts := cConflicts w - 1\<rparr>)
             else (let cur' = cur\<lparr>lStatus := lStatus l\<rparr>
                   in (Inr cur', w\<lparr>cListeners := AList.update k cur' (cListeners w)\<rparr>)))"

fun retryN :: "nat \<Rightarrow> ('k, unit) call \<Rightarrow> ('k, unit) call" where
  "retryN 0 f w = f w"
| "retryN (Suc n) f w = (case f w of
     (Inl e, w') \<Rightarrow> if IsConflict e then retryN n f w' else (Inl e, w')
   | (Inr u, w') \<Rightarrow> (Inr u, w'))"

definition fakeClient :: "cluster client" where
  "fakeClient = \<lparr>
     GetListener = fakeGetOwn lMeta cListeners, GetListenerClass = fakeGetCluster cClasses,
     GetPodListeners = fakeGetOwn plMeta cPodListeners, GetService = fakeGet cServices,
     GetNode = fakeGetCluster cNodes, GetPod = fakeGet cPods, GetPV = fakeGetCluster cPVs,
     GetPVC = fakeGet cPVCs, ListListeners = (\<lambda>w. (Inr (map snd (cListeners w)), w)),
     ListEndpointSlices = fakeListSlices, CreateListener = fakeCreateListener,
     CreatePodListeners = fakeCreatePodListeners, PatchPV = fakePatchPV, PatchPod = fakePatchPod,
     PatchPodListeners = fakePatchPodListeners, StatusUpdateListener = fakeStatusUpdate,
     CreateOrUpdateService = fakeCreateOrUpdate, RetryOnConflict = retryN 4,
     SetControllerReference = fakeSetControllerReference,
     ListenerClassAnnotation = ''listeners.kubedoop.dev/class'',
     AnnotationListenerName = ''listeners.kubedoop.dev/name'',
     GetPublishNotReadyAddresses =
       (\<lambda>s. case lsPublishNotReadyAddresses s of None \<Rightarrow> True | Some b \<Rightarrow> b)\<rparr>"

lemma fakeClient_sel [simp]:
  "GetListener fakeClient = fakeGetOwn lMeta cListeners" "GetListenerClass fakeClient = fakeGetCluster cClasses"
  "GetPodListeners fakeClient = fakeGetOwn plMeta cPodListeners" "GetService fakeClient = fakeGet cServices"
  "GetNode fakeClient = fakeGetCluster cNodes" "GetPod fakeClient = fakeGet cPods"
  "GetPV fakeClient = fakeGetCluster cPVs" "GetPVC fakeClient = fakeGet cPVCs"
  "ListListeners fakeClient w = (Inr (map snd (cListeners w)), w)"
  "ListEndpointSlices fakeClient = fakeListSlices" "CreateListener fakeClient = fakeCreateListener"
  "CreatePodListeners fakeClient = fakeCreatePodListeners" "PatchPV fakeClient = fakePatchPV"
  "PatchPod fakeClient = fakePatchPod" "PatchPodListeners fakeClient = fakePatchPodListeners"
  "StatusUpdateListener fakeClient = fakeStatusUpdate"
  "CreateOrUpdateService fakeClient = fakeCreateOrUpdate" "RetryOnConflict fakeClient = retryN 4"
  "SetControllerReference fakeClient = fakeSetControllerReference"
  "ListenerClassAnnotation fakeClient = ''listeners.kubedoop.dev/class''"
  "AnnotationListenerName fakeClient = ''listeners.kubedoop.dev/name''"
  "GetPublishNotReadyAddresses fakeClient sp =
     (case lsPublishNotReadyAddresses sp of None \<Rightarrow> True | Some b \<Rightarrow> b)"
  by (simp_all add: fakeClient_def)

lemmas fake_defs = fakeGet_def fakeGetOwn_def storedAt_def fakeGetCluster_def fakeListSlices_def

interpretation fake: kube_reads fakeClient
  by unfold_locales (simp_all add: fake_defs)

lemma fakeCreateOrUpdate_None:
  assumes "map_of (cServices w) (objectKeyOf (svMeta s0)) = None"
  shows "fakeCreateOrUpdate s0 f w = (case f s0 of Inl e \<Rightarrow> (Inl e, w)
    | Inr s' \<Rightarrow> (Inr OperationResultCreated,
        w\<lparr>cServices := AList.update (objectKeyOf (svMeta s0)) (admit s') (cServices w)\<rparr>))"
  using assms by (simp add: fakeCreateOrUpdate_def)

lemma fakeCreateOrUpdate_Some:
  assumes "map_of (cServices w) (objectKeyOf (svMeta s0)) = Some s"
  shows "fakeCreateOrUpdate s0 f w = (case f s of Inl e \<Rightarrow> (Inl e, w)
    | Inr s' \<Rightarrow> if s' = s then (Inr OperationResultNone, w) else (Inr OperationResultUpdated,
        w\<lparr>cServices := AList.update (objectKeyOf (svMeta s0)) (admit s') (cServices w)\<rparr>))"
  using assms by (simp add: fakeCreateOrUpdate_def)

lemma fakeCreateOrUpdate_classes:
  "fakeCreateOrUpdate s0 f w = (r, w') \<Longrightarrow> cClasses w' = cClasses w \<and> cListeners w' = cListeners w"
  by (cases "map_of (cServices w) (objectKeyOf (svMeta s0))")
    (auto simp: fakeCreateOrUpdate_None fakeCreateOrUpdate_Some split: sum.splits if_splits)

lemma fakeSetControllerReference_frame:
  "fakeSetControllerReference ow m = Inr m' \<Longrightarrow> \<exists>os. m' = m\<lparr>OwnerReferences := os\<rparr>"
  by (auto simp: fakeSetControllerReference_def Let_def split: if_splits)

lemma fakeSetControllerReference_idem:
  assumes "fakeSetControllerReference ow m = Inr m'" "Namespace m'' = Namespace m"
    "OwnerReferences m'' = OwnerReferences m'"
  shows "fakeSetControllerReference ow m'' = Inr m''"
proof -
  let ?r = "\<lparr>ownerKind = fst ow, ownerName = Name (snd ow), ownerUID = UID (snd ow), isController = True\<rparr>"
  have os: "OwnerReferences m'' = upsertRef ?r (OwnerReferences m)"
    and ns: "\<not> (Namespace (snd ow) \<noteq> '''' \<and> Namespace m'' \<noteq> Namespace (snd ow))"
    and sole: "\<not> (\<exists>x\<in>set (OwnerReferences m). isController x \<and> \<not> refersSame x ?r)"
    using assms by (auto simp: fakeSetControllerReference_def Let_def split: if_splits)
  from os sole have "\<not> (\<exists>x\<in>set (OwnerReferences m''). isController x \<and> \<not> refersSame x ?r)"
    using upsertRef_controllers by metis
  moreover from os have "m''\<lparr>OwnerReferences := upsertRef ?r (OwnerReferences m'')\<rparr> = m''" by simp
  ultimately show ?thesis
    using ns by (simp add: fakeSetControllerReference_def Let_def)
qed

interpretation fake: kube_services fakeClient "\<lambda>w. map_of (cServices w)"
proof (unfold_locales, goal_cases)
  case (1 w k s)
  then show ?case by (simp add: fake_defs)
next
  case (2 w s0 s f)
  then show ?case by (simp add: fakeCreateOrUpdate_Some)
next
  case (3 w s0 s f s' r w')
  then show ?case
    by (auto simp: fakeCreateOrUpdate_Some update_conv' intro: exI [of _ "admit s'"])
next
  case (4 w s0 f s' r w')
  then show ?case
    by (auto simp: fakeCreateOrUpdate_None update_conv' intro: exI [of _ "admit s'"])
next
  case (5 f s0 w e)
  then show ?case
    by (cases "map_of (cServices w) (objectKeyOf (svMeta s0))")
      (simp_all add: fakeCreateOrUpdate_None fakeCreateOrUpdate_Some)
next
  case (6 s0 f w r' w' k)
  then show ?case using fakeCreateOrUpdate_classes by (simp add: fake_defs)
next
  case (7 s0 f w r' w' k)
  then show ?case using fakeCreateOrUpdate_classes by (simp add: fake_defs)
next
  case (8 ow m m' m'')
  then show ?case using fakeSetControllerReference_idem by simp
next
  case (9 ow m m')
  then show ?case using fakeSetControllerReference_frame by simp
qed

end
