(* ===== verification/ServiceSpec.thy ===== *)
theory ServiceSpec
  imports FakeClient
begin

text \<open>
  The properties of \<^verbatim>\<open>internal/controller/listener/service.go\<close>: what the reconciler of a Service
  promises for every API server that keeps the contract \<open>kube_services\<close>, with witnesses on the
  in-memory server.
\<close>

section \<open>A cluster for the witnesses\<close>

definition exampleClass :: listenerClass where
  "exampleClass = \<lparr>lcMeta = newMeta ''external'' '''', ServiceType = Some ServiceTypeNodePort,
     ServiceExternalTrafficPolicy = ''Local'', PreferredAddressType = AddressTypeHostnameConservative,
     ServiceAnnotations = []\<rparr>"

definition exampleListener :: listener where
  "exampleListener = \<lparr>lMeta = (newMeta ''web'' ''shop'')\<lparr>UID := ''8f-1''\<rparr>,
     lSpec = \<lparr>ClassName = ''external'',
       lsPorts = [\<lparr>psName = ''http'', psProtocol = '''', psPort = 80\<rparr>,
                  \<lparr>psName = '''', psProtocol = ''TCP'', psPort = 81\<rparr>],
       ExtraPodSelectorLabels = [], lsPublishNotReadyAddresses = None\<rparr>,
     lStatus = zeroListenerStatus\<rparr>"

definition exampleCluster :: cluster where
  "exampleCluster = emptyCluster\<lparr>cClasses := [(('''', ''external''), exampleClass)],
     cListeners := [((''shop'', ''web''), exampleListener)]\<rparr>"

lemma example_sel [simp]:
  "Name (lMeta exampleListener) = ''web''" "Namespace (lMeta exampleListener) = ''shop''"
  "objectKeyOf (lMeta exampleListener) = (''shop'', ''web'')"
  "ClassName (lSpec exampleListener) = ''external''" "ServiceType exampleClass = Some ServiceTypeNodePort"
  "ServiceExternalTrafficPolicy exampleClass = ''Local''"
  "map_of (cClasses exampleCluster) ('''', ''external'') = Some exampleClass"
  "map_of (cListeners exampleCluster) (''shop'', ''web'') = Some exampleListener"
  "map_of (cServices exampleCluster) k = None"
  by (simp_all add: exampleListener_def exampleClass_def exampleCluster_def emptyCluster_def newMeta_def
      objectKeyOf_def)

lemma example_ports [simp]:
  "servicePorts (lsPorts (lSpec exampleListener)) =
     [\<lparr>spName = ''http'', spProtocol = ''TCP'', spPort = 80, spTargetPort = FromInt32 80, spNodePort = 0\<rparr>]"
  by (simp add: exampleListener_def)

lemma fakeSetControllerReference_new:
  "Namespace m = Namespace m' \<Longrightarrow> OwnerReferences m' = [] \<Longrightarrow>
     \<exists>m''. fakeSetControllerReference (k, m) m' = Inr m''"
  by (simp add: fakeSetControllerReference_def Let_def)

lemma example_createService:
  "\<exists>w'. createService fakeClient exampleListener exampleCluster = (Ok (zeroResult\<lparr>Requeue := True\<rparr>), w')"
proof -
  let ?d = "desiredFor fakeClient exampleListener exampleClass ServiceTypeNodePort"
  obtain s' where "mutateService fakeClient exampleListener ?d ?d = Inr s'"
    using fakeSetControllerReference_new [of "lMeta exampleListener" "newMeta ''web'' ''shop''" "''Listener''"]
    by (auto simp: mutateService_def Let_def newMeta_def)
  then have "\<exists>w'. fakeCreateOrUpdate ?d (mutateService fakeClient exampleListener ?d) exampleCluster
      = (Inr OperationResultCreated, w')"
    by (subst fakeCreateOrUpdate_None) auto
  then show ?thesis by (auto simp: createService_Ok fake_defs)
qed

section \<open>Properties\<close>

text \<open>C1. Reconciling a Service converges in one step. Whatever was stored before, once
  \<^verbatim>\<open>createService\<close> has succeeded, a second run finds nothing to change: it writes nothing and asks
  for no requeue. The ports must differ in name or protocol, as the API server requires, and the class
  must name an external traffic policy, so that the server has no default to fill in.\<close>

theorem createService_convergence:
  assumes "kube_services C stored" "createService C l w = (Ok r, w')"
    and "distinct (map portId (servicePorts (lsPorts (lSpec l))))"
    and "\<forall>lc. fst (GetListenerClass C ('''', ClassName (lSpec l)) w) = Inr lc \<longrightarrow>
           ServiceExternalTrafficPolicy lc \<noteq> ''''"
  shows "createService C l w' = (Ok zeroResult, w')"
  using kube_services.createService_converges [OF assms(1,2,3)] assms(4) by blast

theorem createService_convergence_witness:
  "\<exists>w'. createService fakeClient exampleListener exampleCluster = (Ok (zeroResult\<lparr>Requeue := True\<rparr>), w')
     \<and> createService fakeClient exampleListener w' = (Ok zeroResult, w')"
proof -
  obtain w' where w': "createService fakeClient exampleListener exampleCluster
      = (Ok (zeroResult\<lparr>Requeue := True\<rparr>), w')"
    using example_createService by blast
  have "createService fakeClient exampleListener w' = (Ok zeroResult, w')"
    by (rule createService_convergence [OF fake.kube_services_axioms w']) (simp_all add: fake_defs)
  with w' show ?thesis by blast
qed

text \<open>C5. \<^verbatim>\<open>createService\<close> implements its specification: after it has succeeded, the Service stored
  under the Listener's name is up to date with the Listener and its class (type, selector, ports up to
  the node ports that the server allocates, traffic policy, readiness and controller reference), and
  unless a requeue is asked for nothing was written.\<close>

theorem createService_implements:
  assumes "kube_services C stored" "createService C l w = (Ok r, w')"
  shows "\<exists>lc st. fst (GetListenerClass C ('''', ClassName (lSpec l)) w) = Inr lc
     \<and> stored w' (objectKeyOf (lMeta l)) = Some st \<and> up_to_date C l lc st
     \<and> (Requeue r \<or> w' = w)"
  by (rule kube_services.createService_up_to_date [OF assms])

theorem createService_implements_witness:
  "\<exists>w' st. createService fakeClient exampleListener exampleCluster
       = (Ok (zeroResult\<lparr>Requeue := True\<rparr>), w')
     \<and> map_of (cServices w') (''shop'', ''web'') = Some st
     \<and> up_to_date fakeClient exampleListener exampleClass st"
  using example_createService createService_implements [OF fake.kube_services_axioms]
  by (fastforce simp: fake_defs)

text \<open>C20. What the mutate callback keeps and what it replaces. A desired port whose name and
  protocol the existing Service has keeps the node port allocated for it, with the desired port
  number; a new port gets none; a type that is not exposed loses all node ports. The addresses and IP
  families allocated by the API server are not touched.\<close>

theorem mutateService_allocations:
  assumes "mutateService C l d s = Inr s'" "\<forall>p\<in>set (svPorts d). spNodePort p = 0"
  shows "map portId (svPorts s') = map portId (svPorts d)
     \<and> map spPort (svPorts s') = map spPort (svPorts d)
     \<and> map spNodePort (svPorts s') =
        map (\<lambda>p. case find (\<lambda>e. portId e = portId p) (svPorts s) of
               Some e \<Rightarrow> if exposed (svType d) then spNodePort e else 0
             | None \<Rightarrow> 0) (svPorts d)
     \<and> svType s' = svType d \<and> svSelector s' = svSelector d
     \<and> svClusterIP s' = svClusterIP s \<and> svClusterIPs s' = svClusterIPs s
     \<and> svIPFamilies s' = svIPFamilies s \<and> svIPFamilyPolicy s' = svIPFamilyPolicy s
     \<and> svIngress s' = svIngress s"
proof -
  obtain m where s': "s' = (mutateFields d s)\<lparr>svMeta := m\<rparr>"
    using assms(1) by (auto simp: mutateService_Inr)
  have "map spNodePort (svPorts s') =
      map (\<lambda>p. case find (\<lambda>e. portId e = portId p) (svPorts s) of
             Some e \<Rightarrow> if exposed (svType d) then spNodePort e else 0
           | None \<Rightarrow> 0) (svPorts d)"
    using assms(2) by (auto simp: s' mutatePorts_def keepNodePort_find split: option.splits)
  then show ?thesis by (simp add: s' mutatePorts_def comp_def)
qed

theorem mutateService_allocations_witness:
  "\<exists>s'. mutateService fakeClient exampleListener
       (desiredFor fakeClient exampleListener exampleClass ServiceTypeNodePort)
       ((desiredFor fakeClient exampleListener exampleClass ServiceTypeNodePort)\<lparr>
          svPorts := [\<lparr>spName = ''http'', spProtocol = ''TCP'', spPort = 8080,
            spTargetPort = FromInt32 8080, spNodePort = 31000\<rparr>], svClusterIP := ''10.0.0.7''\<rparr>) = Inr s'
     \<and> map spPort (svPorts s') = [80] \<and> map spNodePort (svPorts s') = [31000]
     \<and> svClusterIP s' = ''10.0.0.7''"
proof -
  let ?d = "desiredFor fakeClient exampleListener exampleClass ServiceTypeNodePort"
  let ?s = "?d\<lparr>svPorts := [\<lparr>spName = ''http'', spProtocol = ''TCP'', spPort = 8080,
    spTargetPort = FromInt32 8080, spNodePort = 31000\<rparr>], svClusterIP := ''10.0.0.7''\<rparr>"
  obtain s' where s': "mutateService fakeClient exampleListener ?d ?s = Inr s'"
    using fakeSetControllerReference_new [of "lMeta exampleListener" "newMeta ''web'' ''shop''" "''Listener''"]
    by (auto simp: mutateService_def Let_def newMeta_def)
  then show ?thesis
    using mutateService_allocations [OF s'] by (simp add: portId_def)
qed

text \<open>Every branch of \<^verbatim>\<open>createService\<close>: the class is looked up by name in the cluster scope, a
  Listener whose ports are all unnamed is refused, a class without a service type makes the handler
  panic, and otherwise the outcome is that of submitting the desired Service.\<close>

theorem createService_branches:
  "createService C l w =
     (case GetListenerClass C ('''', ClassName (lSpec l)) w of
        (Inl e, w1) \<Rightarrow> (Err e, w1)
      | (Inr lc, w1) \<Rightarrow>
          if list_all (\<lambda>p. psName p = '''') (lsPorts (lSpec l)) then
            (Err (NewErr (''could not find any valid ports in listener: '' @ Name (lMeta l)
               @ '' namespace: '' @ Namespace (lMeta l))), w1)
          else (case ServiceType lc of
             None \<Rightarrow> (Panic ''nil pointer dereference'', w1)
           | Some ty \<Rightarrow>
              (case CreateOrUpdateService C (desiredFor C l lc ty)
                      (mutateService C l (desiredFor C l lc ty)) w1 of
                 (Inl e, w2) \<Rightarrow> (Err e, w2)
               | (Inr operation, w2) \<Rightarrow>
                   (Ok \<lparr>Requeue = operation \<noteq> OperationResultNone, RequeueAfter = 0\<rparr>, w2))))"
proof -
  have "servicePorts (lsPorts (lSpec l)) = [] \<longleftrightarrow> list_all (\<lambda>p. psName p = '''') (lsPorts (lSpec l))"
    by (auto simp: servicePorts_filter filter_empty_conv list_all_iff)
  then show ?thesis
    by (auto simp: createService_def getListenerClass_def Let_def zeroResult_def
        split: prod.splits sum.splits option.splits)
qed

end
