(* ===== verification/ListenerCtl.thy ===== *)
theory ListenerCtl
  imports ServiceSpec
begin

text \<open>
  \<^verbatim>\<open>internal/controller/listener/controller.go\<close>: the reconciler of Listener objects, which keeps
  the Service of a Listener and publishes its addresses in the Listener's status, and the watches
  that requeue a Listener when something it depends on changes. The reconcilers of
  ListenerClass and PodListeners objects do nothing.
\<close>

section \<open>Watches\<close>

definition requestFor :: "listener \<Rightarrow> objectKey" where
  "requestFor l = (Namespace (lMeta l), Name (lMeta l))"

fun requestsWhere :: "(listener \<Rightarrow> bool) \<Rightarrow> listener list \<Rightarrow> objectKey list" where
  "requestsWhere P [] = []"
| "requestsWhere P (l # ls) =
     (if P l then requestFor l # requestsWhere P ls else requestsWhere P ls)"

definition handleListenerClassChanges ::
  "('k, 'z) client_scheme \<Rightarrow> listenerClass \<Rightarrow> ('k, objectKey list) go" where
  "handleListenerClassChanges C lc =
     tryG (callG (ListListeners C)) (\<lambda>r. case r of
         Inl err \<Rightarrow> retG []
       | Inr ls \<Rightarrow> retG (requestsWhere (\<lambda>l. ClassName (lSpec l) = Name (lcMeta lc)) ls))"

definition handleEndpointSliceChanges ::
  "('k, 'z) client_scheme \<Rightarrow> endpointSlice \<Rightarrow> ('k, objectKey list) go" where
  "handleEndpointSliceChanges C es =
     (case map_of (Labels (esMeta es)) ''kubernetes.io/service-name'' of
        None \<Rightarrow> retG []
      | Some serviceName \<Rightarrow>
          tryG (callG (ListListeners C)) (\<lambda>r. case r of
              Inl err \<Rightarrow> retG []
            | Inr ls \<Rightarrow> retG (requestsWhere (\<lambda>l. ServiceName (lStatus l) = serviceName
                \<and> Namespace (lMeta l) = Namespace (esMeta es)) ls)))"

definition handlePVChanges ::
  "('k, 'z) client_scheme \<Rightarrow> persistentVolume \<Rightarrow> ('k, objectKey list) go" where
  "handlePVChanges C pv =
     (case map_of (Labels (pvMeta pv)) LabelListenerNamespace of
        None \<Rightarrow> retG []
      | Some ns \<Rightarrow> (case map_of (Labels (pvMeta pv)) (AnnotationListenerName C) of
          None \<Rightarrow> retG []
        | Some name \<Rightarrow> retG [(ns, name)]))"

text \<open>\<^verbatim>\<open>SetupWithManager\<close>: what the registrations of the controller enqueue when an object changes. A
  Listener is requeued itself (\<^verbatim>\<open>For\<close>), three kinds of objects go through the handlers above
  (\<^verbatim>\<open>Watches\<close>), and no other kind is watched: not the Services and not the Nodes, which a reconciliation
  reads as well.\<close>

datatype objectEvent =
    ListenerChanged listener
  | EndpointSliceChanged endpointSlice
  | PersistentVolumeChanged persistentVolume
  | ListenerClassChanged listenerClass
  | ServiceChanged service
  | NodeChanged node

definition SetupWithManager :: "('k, 'z) client_scheme \<Rightarrow> objectEvent \<Rightarrow> ('k, objectKey list) go" where
  "SetupWithManager C ev = (case ev of
     ListenerChanged l \<Rightarrow> retG [requestFor l]
   | EndpointSliceChanged es \<Rightarrow> handleEndpointSliceChanges C es
   | PersistentVolumeChanged pv \<Rightarrow> handlePVChanges C pv
   | ListenerClassChanged lc \<Rightarrow> handleListenerClassChanges C lc
   | ServiceChanged s \<Rightarrow> retG []
   | NodeChanged nd \<Rightarrow> retG [])"

section \<open>Status\<close>

definition preferredAddressType :: "('k, 'z) client_scheme \<Rightarrow> listener \<Rightarrow> ('k, addressType) go" where
  "preferredAddressType C l =
     bindG (callG (GetListenerClass C ('''', ClassName (lSpec l)))) (\<lambda>listenerClass.
       if PreferredAddressType listenerClass = AddressTypeHostnameConservative then
         bindG (derefG (ServiceType listenerClass)) (\<lambda>ty.
           if ty = ServiceTypeNodePort then retG AddressTypeIP else retG AddressTypeHostname)
       else retG (PreferredAddressType listenerClass))"

definition getClusterDomain :: string where
  "getClusterDomain = ''cluster.local''"

definition getServiceFQDN :: "service \<Rightarrow> string" where
  "getServiceFQDN s =
     Name (svMeta s) @ ''.'' @ Namespace (svMeta s) @ ''.svc.'' @ getClusterDomain"

text \<open>The three loops over addresses: each address is picked, and the fields of the picked
  address, which may be a nil pointer, are read.\<close>

definition pickIngress :: "addressType \<Rightarrow> int32 gomap \<Rightarrow> addressInfo \<Rightarrow> ('s, ingressAddressSpec) go" where
  "pickIngress preferred ports a =
     bindG (derefG (Pick a preferred)) (\<lambda>p.
       retG \<lparr>iaAddress = Address p, iaAddressType = AddressType p, iaPorts = ports\<rparr>)"

definition computeStatus ::
  "('k, 'z) client_scheme \<Rightarrow> listener \<Rightarrow> service \<Rightarrow> addressType \<Rightarrow> ('k, listenerStatus) go" where
  "computeStatus C l service preferred =
     (let status = zeroListenerStatus\<lparr>ServiceName := Name (lMeta l)\<rparr>;
          servicePorts = getPorts service
      in case getServiceType service of
        ServiceTypeNodePort \<Rightarrow>
          bindG (liftG (getNodePorts service)) (\<lambda>ports.
          bindG (getNodesAddresses C service) (\<lambda>addresses.
          bindG (forG addresses (pickIngress preferred ports)) (\<lambda>ingress.
          retG (status\<lparr>IngressAddresses := ingress, NodePorts := ports\<rparr>))))
      | ServiceTypeLoadBalancer \<Rightarrow>
          bindG (liftG (getLbIngressAddresses service)) (\<lambda>addresses.
          bindG (forG addresses (pickIngress preferred servicePorts)) (\<lambda>ingress.
          retG (status\<lparr>IngressAddresses := ingress\<rparr>)))
      | ServiceTypeClusterIP \<Rightarrow>
          if preferred = AddressTypeIP then
            bindG (liftG (getClusterIpAddresses service)) (\<lambda>addresses.
            bindG (forG addresses (pickIngress preferred servicePorts)) (\<lambda>ingress.
            retG (status\<lparr>IngressAddresses := ingress\<rparr>)))
          else
            retG (status\<lparr>IngressAddresses := [\<lparr>iaAddress = getServiceFQDN service,
              iaAddressType = AddressTypeHostname, iaPorts = servicePorts\<rparr>]\<rparr>)
      | OtherServiceType t \<Rightarrow>
          failG (NewErr (''unsupported service type '' @ t @ '' for listener '' @ Name (lMeta l)
            @ '', namespace '' @ Namespace (lMeta l))))"

text \<open>The function that is retried on a conflict: read the listener again, replace its status.\<close>

definition writeStatus ::
  "('k, 'z) client_scheme \<Rightarrow> objectKey \<Rightarrow> listenerStatus \<Rightarrow> ('k, unit) call" where
  "writeStatus C key status w = (case GetListener C key w of
     (Inl e, w') \<Rightarrow> (Inl e, w')
   | (Inr cur, w') \<Rightarrow> (case StatusUpdateListener C (cur\<lparr>lStatus := status\<rparr>) w' of
       (Inl e, w'') \<Rightarrow> (Inl e, w'')
     | (Inr _, w'') \<Rightarrow> (Inr (), w'')))"

definition updateListenerStatus :: "('k, 'z) client_scheme \<Rightarrow> listener \<Rightarrow> ('k, unit) go" where
  "updateListenerStatus C l =
     bindG (describe C l) (\<lambda>service.
     bindG (preferredAddressType C l) (\<lambda>preferred.
     bindG (computeStatus C l service preferred) (\<lambda>status.
     callG (RetryOnConflict C (writeStatus C (objectKeyOf (lMeta l)) status)))))"

section \<open>Reconcile\<close>

definition Reconcile :: "('k, 'z) client_scheme \<Rightarrow> objectKey \<Rightarrow> ('k, ctrlResult) go" where
  "Reconcile C req =
     tryG (callG (GetListener C req)) (\<lambda>r. case r of
         Inl err \<Rightarrow> if IsNotFound err then retG zeroResult else failG err
       | Inr l \<Rightarrow>
           bindG (createService C l) (\<lambda>result.
             if \<not> IsZero result then retG result
             else bindG (updateListenerStatus C l) (\<lambda>_. retG zeroResult)))"

text \<open>\<^verbatim>\<open>internal/controller/listenerclass_controller.go\<close> and
  \<^verbatim>\<open>internal/controller/podlisteners_controller.go\<close>\<close>

definition ListenerClassReconcile :: "objectKey \<Rightarrow> ('k, ctrlResult) go" where
  "ListenerClassReconcile req = retG zeroResult"

definition ListenerClassSetupWithManager :: "objectEvent \<Rightarrow> objectKey list" where
  "ListenerClassSetupWithManager ev = (case ev of ListenerClassChanged lc \<Rightarrow> [objectKeyOf (lcMeta lc)] | _ \<Rightarrow> [])"

definition PodListenersReconcile :: "objectKey \<Rightarrow> ('k, ctrlResult) go" where
  "PodListenersReconcile req = retG zeroResult"

definition PodListenersSetupWithManager :: "podListeners \<Rightarrow> objectKey list" where
  "PodListenersSetupWithManager pl = [objectKeyOf (plMeta pl)]"

text \<open>Whatever changes, these two controllers leave the cluster alone and never ask for a requeue.\<close>

lemma idle_controllers:
  "\<exists>rs. forG (ListenerClassSetupWithManager ev) ListenerClassReconcile w = (Ok rs, w) \<and> list_all IsZero rs"
  "forG (PodListenersSetupWithManager pl) PodListenersReconcile w = (Ok [zeroResult], w)"
  by (cases ev) (simp_all add: ListenerClassSetupWithManager_def ListenerClassReconcile_def
      PodListenersSetupWithManager_def PodListenersReconcile_def IsZero_def)

section \<open>What the loops compute\<close>

lemma requestsWhere_filter: "requestsWhere P ls = map requestFor (filter P ls)"
  by (induction ls) auto

lemma forG_total:
  "(\<And>x. x \<in> set xs \<Longrightarrow> f x s = (Ok (g x), s)) \<Longrightarrow> forG xs f s = (Ok (map g xs), s)"
  by (induction xs) auto

lemma forG_Ok_rel:
  assumes "forG xs f s = (Ok ys, s')"
    and "\<And>x s y s'. f x s = (Ok y, s') \<Longrightarrow> s' = s \<and> R x y"
  shows "s' = s \<and> list_all2 R xs ys"
  using assms(1)
proof (induction xs arbitrary: ys s)
  case Nil
  then show ?case by simp
next
  case (Cons x xs)
  then obtain y ys' s1 where "f x s = (Ok y, s1)" "forG xs f s1 = (Ok ys', s')" "ys = y # ys'"
    by (auto simp: go_inv)
  with assms(2) Cons.IH show ?case by fastforce
qed

lemma pickIngress_Ok:
  "pickIngress t ports a s = (Ok i, s') \<longleftrightarrow>
     (\<exists>p. Pick a t = Some p \<and> s' = s
        \<and> i = \<lparr>iaAddress = Address p, iaAddressType = AddressType p, iaPorts = ports\<rparr>)"
  by (auto simp: pickIngress_def go_inv)

lemma pickIngress_never_Err: "pickIngress t ports a s \<noteq> (Err e, s')"
  by (auto simp: pickIngress_def go_inv)

text \<open>The ingress entry of an address under a preference, where \<^verbatim>\<open>Pick\<close> returns one.\<close>

definition ingressOf :: "addressType \<Rightarrow> int32 gomap \<Rightarrow> addressInfo \<Rightarrow> ingressAddressSpec" where
  "ingressOf t ports a = \<lparr>iaAddress = Address a,
     iaAddressType = (if t = AddressTypeIP then AddressTypeIP else AddressTypeHostname),
     iaPorts = ports\<rparr>"

lemma pickIngress_run:
  "Pick a t \<noteq> None \<Longrightarrow> pickIngress t ports a s = (Ok (ingressOf t ports a), s)"
  using Pick_Some [of a t] by (cases "Pick a t") (auto simp: pickIngress_def ingressOf_def)

lemma forG_pickIngress:
  "forG as (pickIngress t ports) s =
     (if \<forall>a\<in>set as. Pick a t \<noteq> None then (Ok (map (ingressOf t ports) as), s)
      else (Panic ''nil pointer dereference'', s))"
proof (induction as)
  case Nil
  then show ?case by simp
next
  case (Cons a as)
  show ?case
  proof (cases "Pick a t")
    case None
    then have "pickIngress t ports a s = (Panic ''nil pointer dereference'', s)"
      by (simp add: pickIngress_def)
    with None show ?thesis by simp
  next
    case (Some p)
    with Cons show ?thesis by (simp add: pickIngress_run)
  qed
qed

lemma Pick_all:
  "(\<forall>a\<in>set as. Pick a t \<noteq> None) \<longleftrightarrow>
     t = AddressTypeIP \<or> list_all (\<lambda>a. AddressType a = AddressTypeHostname) as"
  by (auto simp: Pick_eq_None list_all_iff)

lemma lb_hostnames:
  "list_all (\<lambda>a. AddressType a = AddressTypeHostname) (concat (map ingressAddresses is)) \<longleftrightarrow>
     list_all (\<lambda>i. ingIP i = '''') is"
  by (induction "is") (auto simp: ingressAddresses_def)

text \<open>The status of each type of Service.\<close>

lemma computeStatus_LoadBalancer:
  assumes "svType s = ServiceTypeLoadBalancer" "svIngress s \<noteq> []"
  shows "computeStatus C l s t w =
    (if t = AddressTypeIP \<or> list_all (\<lambda>i. ingIP i = '''') (svIngress s)
     then (Ok (zeroListenerStatus\<lparr>ServiceName := Name (lMeta l),
       IngressAddresses := map (ingressOf t (getPorts s)) (concat (map ingressAddresses (svIngress s)))\<rparr>), w)
     else (Panic ''nil pointer dereference'', w))"
proof -
  let ?as = "concat (map ingressAddresses (svIngress s))"
  have "getLbIngressAddresses s = Inr ?as" using assms by (simp add: getLbIngressAddresses_def)
  moreover have "forG ?as (pickIngress t (getPorts s)) w =
      (if t = AddressTypeIP \<or> list_all (\<lambda>i. ingIP i = '''') (svIngress s)
       then (Ok (map (ingressOf t (getPorts s)) ?as), w) else (Panic ''nil pointer dereference'', w))"
    unfolding forG_pickIngress Pick_all lb_hostnames ..
  ultimately show ?thesis using assms(1) by (simp add: computeStatus_def Let_def)
qed

lemma computeStatus_NodePort:
  assumes "svType s = ServiceTypeNodePort" "getNodesAddresses C s w = (Ok as, w')"
  shows "computeStatus C l s t w =
    (if t = AddressTypeIP \<or> list_all (\<lambda>a. AddressType a = AddressTypeHostname) as
     then (Ok (zeroListenerStatus\<lparr>ServiceName := Name (lMeta l),
       IngressAddresses := map (ingressOf t (namedPorts spNodePort (svPorts s))) as,
       NodePorts := namedPorts spNodePort (svPorts s)\<rparr>), w')
     else (Panic ''nil pointer dereference'', w'))"
proof -
  have "forG as (pickIngress t (namedPorts spNodePort (svPorts s))) w' =
      (if t = AddressTypeIP \<or> list_all (\<lambda>a. AddressType a = AddressTypeHostname) as
       then (Ok (map (ingressOf t (namedPorts spNodePort (svPorts s))) as), w')
       else (Panic ''nil pointer dereference'', w'))"
    unfolding forG_pickIngress Pick_all ..
  then show ?thesis using assms by (simp add: computeStatus_def Let_def getNodePorts_def)
qed

lemma computeStatus_ClusterIP:
  assumes "svType s = ServiceTypeClusterIP"
  shows "computeStatus C l s t w =
    (Ok (zeroListenerStatus\<lparr>ServiceName := Name (lMeta l),
       IngressAddresses := (if t = AddressTypeIP
         then map (\<lambda>ip. \<lparr>iaAddress = ip, iaAddressType = AddressTypeIP, iaPorts = getPorts s\<rparr>) (svClusterIPs s)
         else [\<lparr>iaAddress = getServiceFQDN s, iaAddressType = AddressTypeHostname, iaPorts = getPorts s\<rparr>])\<rparr>), w)"
proof (cases "t = AddressTypeIP")
  case True
  let ?as = "map (\<lambda>ip. mkAddressInfo ip AddressTypeIP) (svClusterIPs s)"
  have "forG ?as (pickIngress AddressTypeIP (getPorts s)) w
      = (Ok (map (ingressOf AddressTypeIP (getPorts s)) ?as), w)"
    unfolding forG_pickIngress Pick_all by simp
  moreover have "getClusterIpAddresses s = Inr ?as"
    using assms by (simp add: getClusterIpAddresses_def)
  ultimately show ?thesis
    using assms True by (simp add: computeStatus_def Let_def ingressOf_def comp_def)
next
  case False
  with assms show ?thesis by (simp add: computeStatus_def Let_def)
qed

lemma computeStatus_Ok_cases:
  assumes "computeStatus C l s t w = (Ok st, w')"
  obtains (NodePort) as where "svType s = ServiceTypeNodePort" "getNodesAddresses C s w = (Ok as, w')"
      "st = zeroListenerStatus\<lparr>ServiceName := Name (lMeta l),
         IngressAddresses := map (ingressOf t (namedPorts spNodePort (svPorts s))) as,
         NodePorts := namedPorts spNodePort (svPorts s)\<rparr>"
    | (LoadBalancer) "svType s = ServiceTypeLoadBalancer" "svIngress s \<noteq> []"
    | (ClusterIP) "svType s = ServiceTypeClusterIP"
proof (cases "svType s")
  case ServiceTypeNodePort
  then obtain as w1 where as: "getNodesAddresses C s w = (Ok as, w1)"
    using assms by (auto simp: computeStatus_def Let_def go_inv getNodePorts_def)
  show ?thesis
    using assms computeStatus_NodePort [OF ServiceTypeNodePort as]
    by (intro NodePort [OF ServiceTypeNodePort]) (use as in \<open>auto split: if_splits\<close>)
next
  case ServiceTypeLoadBalancer
  with assms have "svIngress s \<noteq> []"
    by (auto simp: computeStatus_def Let_def go_inv getLbIngressAddresses_def)
  with ServiceTypeLoadBalancer show ?thesis by (rule LoadBalancer)
next
  case (OtherServiceType x)
  with assms show ?thesis by (simp add: computeStatus_def Let_def)
qed (rule ClusterIP)

lemma computeStatus_kinds:
  assumes "computeStatus C l s t w = (Ok st, w')"
  shows "ServiceName st = Name (lMeta l)
     \<and> (\<forall>i\<in>set (IngressAddresses st).
          iaAddressType i = (if t = AddressTypeIP then AddressTypeIP else AddressTypeHostname)
          \<and> iaPorts i = (if svType s = ServiceTypeNodePort
              then namedPorts spNodePort (svPorts s) else namedPorts spPort (svPorts s)))
     \<and> NodePorts st = (if svType s = ServiceTypeNodePort then namedPorts spNodePort (svPorts s) else [])"
  using assms
proof (cases rule: computeStatus_Ok_cases)
  case (NodePort as)
  then show ?thesis by (auto simp: ingressOf_def)
next
  case LoadBalancer
  then show ?thesis
    using assms by (auto simp: computeStatus_LoadBalancer ingressOf_def getPorts_def
        zeroListenerStatus_def split: if_splits)
next
  case ClusterIP
  then show ?thesis
    using assms by (auto simp: computeStatus_ClusterIP getPorts_def zeroListenerStatus_def split: if_splits)
qed

end
