(* ===== verification/ListenerSpec.thy ===== *)
theory ListenerSpec
  imports ListenerCtl
begin

text \<open>
  The properties of \<^verbatim>\<open>internal/controller/listener/controller.go\<close>: what the status of a Listener
  says, that it is published across write conflicts, how reconciliations follow one another, and that
  the watches requeue the Listeners that read what changed.
\<close>

section \<open>Publishing a status\<close>

text \<open>
  The contract of \<^verbatim>\<open>retry.RetryOnConflict\<close>: the function runs again after each conflict, and what
  the last run returned is the result.
\<close>

inductive retried ::
  "('k, unit) call \<Rightarrow> 'k \<Rightarrow> error + unit \<Rightarrow> 'k \<Rightarrow> bool" for f where
  last: "f w = (r, w') \<Longrightarrow> retried f w r w'"
| again: "f w = (Inl e, w1) \<Longrightarrow> IsConflict e \<Longrightarrow> retried f w1 r w' \<Longrightarrow> retried f w r w'"

lemma retried_last_run: "retried f w r w' \<Longrightarrow> \<exists>w1. f w1 = (r, w')"
  by (induction rule: retried.induct) auto

text \<open>
  \<open>kube_status\<close>: a read returns the object of that name, a successful status update stores the
  status, and the retry helper keeps its contract.
\<close>

locale kube_status = kube_reads C for C :: "('k, 'z) client_scheme" +
  fixes storedListener :: "'k \<Rightarrow> objectKey \<Rightarrow> listener option"
  assumes getListener_key: "GetListener C k w = (Inr l, w') \<Longrightarrow> objectKeyOf (lMeta l) = k"
    and status_stored: "StatusUpdateListener C l w = (Inr l', w') \<Longrightarrow>
      \<exists>cur. storedListener w' (objectKeyOf (lMeta l)) = Some cur \<and> lStatus cur = lStatus l"
    and retry: "RetryOnConflict C f w = (r, w') \<Longrightarrow> retried f w r w'"
begin

lemma writeStatus_stored:
  assumes "writeStatus C k st w = (Inr (), w')"
  shows "\<exists>cur. storedListener w' k = Some cur \<and> lStatus cur = st"
proof -
  obtain cur w1 l' where cur: "GetListener C k w = (Inr cur, w1)"
    and upd: "StatusUpdateListener C (cur\<lparr>lStatus := st\<rparr>) w1 = (Inr l', w')"
    using assms by (auto simp: writeStatus_def split: prod.splits sum.splits)
  show ?thesis using status_stored [OF upd] getListener_key [OF cur] by simp
qed

lemma updateListenerStatus_published:
  assumes "updateListenerStatus C l w = (Ok (), w')"
  shows "\<exists>s t st w1. describe C l w = (Ok s, w) \<and> preferredAddressType C l w = (Ok t, w)
     \<and> computeStatus C l s t w = (Ok st, w1)
     \<and> (\<exists>cur. storedListener w' (objectKeyOf (lMeta l)) = Some cur \<and> lStatus cur = st)"
proof -
  obtain s w1 t w2 st w3 where s: "describe C l w = (Ok s, w1)"
    and t: "preferredAddressType C l w1 = (Ok t, w2)" and st: "computeStatus C l s t w2 = (Ok st, w3)"
    and retry_run: "RetryOnConflict C (writeStatus C (objectKeyOf (lMeta l)) st) w3 = (Inr (), w')"
    using assms by (auto simp: updateListenerStatus_def go_inv)
  have w1: "w1 = w" using s by (auto simp: describe_def go_inv dest: reads_eq)
  have w2: "w2 = w1" using t by (auto simp: preferredAddressType_def go_inv dest: reads_eq split: if_splits)
  obtain w4 where "writeStatus C (objectKeyOf (lMeta l)) st w4 = (Inr (), w')"
    using retried_last_run [OF retry [OF retry_run]] by blast
  from writeStatus_stored [OF this] s t st w1 w2 show ?thesis by blast
qed

end

lemma retryN_retried: "retryN n f w = (r, w') \<Longrightarrow> retried f w r w'"
proof (induction n arbitrary: w)
  case 0
  then show ?case by (auto intro: retried.last)
next
  case (Suc n)
  then show ?case
    by (auto split: prod.splits sum.splits if_splits intro: retried.intros)
qed

interpretation fake: kube_status fakeClient "\<lambda>w. map_of (cListeners w)"
proof (unfold_locales, goal_cases)
  case (1 k w l w')
  then show ?case by (auto simp: fake_defs split: option.splits if_splits)
next
  case (2 l w l' w')
  then show ?case
    by (auto simp: fakeStatusUpdate_def Let_def update_conv' split: option.splits if_splits)
next
  case (3 f w r w')
  then show ?case by (simp add: retryN_retried)
qed

section \<open>Watches\<close>

text \<open>
  The contract of a map function of a watch: the Listeners that depend on the changed object are
  requeued, in the order in which they are listed, and a failed list requeues none.
\<close>

locale watch =
  fixes C :: "('k, 'z) client_scheme" and handler :: "'o \<Rightarrow> ('k, objectKey list) go"
    and depends :: "'o \<Rightarrow> listener \<Rightarrow> bool"
  assumes handler_lists: "ListListeners C w = (Inr ls, w1) \<Longrightarrow>
      fst (handler x w) = Ok (requestsWhere (depends x) ls)"
    and handler_fails: "ListListeners C w = (Inl e, w1) \<Longrightarrow> fst (handler x w) = Ok []"
begin

lemma requeued:
  assumes "ListListeners C w = (Inr ls, w1)" "handler x w = (Ok reqs, w')"
  shows "set reqs = {(Namespace (lMeta l), Name (lMeta l)) | l. l \<in> set ls \<and> depends x l}"
  using handler_lists [OF assms(1), of x] assms(2)
  by (auto simp: requestsWhere_filter requestFor_def)

lemma total: "\<exists>reqs. fst (handler x w) = Ok reqs"
  using handler_lists handler_fails by (metis prod.exhaust sum.exhaust)

end

interpretation classWatch: watch C "handleListenerClassChanges C"
  "\<lambda>lc l. ClassName (lSpec l) = Name (lcMeta lc)" for C :: "('k, 'z) client_scheme"
  by unfold_locales (simp_all add: handleListenerClassChanges_def)

interpretation sliceWatch: watch C "handleEndpointSliceChanges C"
  "\<lambda>es l. map_of (Labels (esMeta es)) serviceNameLabel = Some (ServiceName (lStatus l))
     \<and> Namespace (lMeta l) = Namespace (esMeta es)" for C :: "('k, 'z) client_scheme"
proof (unfold_locales, goal_cases)
  case (1 w ls w1 x)
  then show ?case
    by (cases "map_of (Labels (esMeta x)) ''kubernetes.io/service-name''")
      (auto simp: handleEndpointSliceChanges_def serviceNameLabel_def requestsWhere_filter
        intro!: arg_cong [where f = "map requestFor"] filter_cong)
next
  case (2 w e w1 x)
  then show ?case
    by (simp add: handleEndpointSliceChanges_def split: option.splits)
qed

section \<open>Reading the nodes\<close>

context kube_reads
begin

lemma nodeAddressOf_Ok:
  "nodeAddressOf C n w = (Ok a, w') \<Longrightarrow>
     w' = w \<and> (\<exists>nd. fst (GetNode C ('''', n) w) = Inr nd \<and> GetPriorNodeAddress nd = Inr a)"
  by (auto simp: nodeAddressOf_def go_inv dest: reads_eq)

lemma forG_nodeAddressOf:
  "forG ns (nodeAddressOf C) w = (Ok as, w') \<Longrightarrow>
     w' = w \<and> list_all2 (\<lambda>n a. \<exists>nd. fst (GetNode C ('''', n) w) = Inr nd
       \<and> GetPriorNodeAddress nd = Inr a) ns as"
proof (induction ns arbitrary: as w)
  case Nil
  then show ?case by simp
next
  case (Cons n ns)
  then obtain a as' w1 where a: "nodeAddressOf C n w = (Ok a, w1)"
    and as: "forG ns (nodeAddressOf C) w1 = (Ok as', w')" "as = a # as'"
    by (auto simp: go_inv)
  from nodeAddressOf_Ok [OF a] Cons.IH [OF as(1)] as(2) show ?case by auto
qed

lemma getNodesAddresses_Ok:
  assumes "getNodesAddresses C s w = (Ok as, w')"
    and "fst (ListEndpointSlices C (Namespace (svMeta s)) [(serviceNameLabel, Name (svMeta s))] w) = Inr slices"
  shows "w' = w \<and> list_all2 (\<lambda>n a. \<exists>nd. fst (GetNode C ('''', n) w) = Inr nd
       \<and> GetPriorNodeAddress nd = Inr a) (concat (map (\<lambda>sl. endpointNodes (Endpoints sl)) slices)) as"
proof -
  obtain w1 where w1: "ListEndpointSlices C (Namespace (svMeta s))
      [(serviceNameLabel, Name (svMeta s))] w = (Inr slices, w1)"
    using assms(2) by (metis prod.collapse)
  have "w1 = w" using reads_eq(10) [OF w1] .
  with w1 assms(1) have "forG (concat (map (\<lambda>sl. endpointNodes (Endpoints sl)) slices)) (nodeAddressOf C) w
      = (Ok as, w')"
    by (auto simp: getNodesAddresses_def getNodeNames_def go_inv split: if_splits)
  then show ?thesis by (rule forG_nodeAddressOf)
qed

end

section \<open>Properties\<close>

text \<open>C19. The status that is computed for a Listener names its Service, gives every ingress address
  the kind that the class prefers (IP addresses for the preference IP and host names for every other
  one) with the ports of the Service type, and carries node ports only for a NodePort Service.\<close>

theorem status_follows_preference:
  assumes "computeStatus C l s t w = (Ok st, w')"
  shows "ServiceName st = Name (lMeta l)
     \<and> (\<forall>i\<in>set (IngressAddresses st).
          iaAddressType i = (if t = AddressTypeIP then AddressTypeIP else AddressTypeHostname)
          \<and> iaPorts i = (if svType s = ServiceTypeNodePort
              then namedPorts spNodePort (svPorts s) else namedPorts spPort (svPorts s)))
     \<and> NodePorts st = (if svType s = ServiceTypeNodePort then namedPorts spNodePort (svPorts s) else [])"
  by (rule computeStatus_kinds [OF assms])

definition exampleService :: service where
  "exampleService = (desiredService fakeClient exampleListener ServiceTypeClusterIP None)\<lparr>
     svClusterIPs := [''10.0.0.9'']\<rparr>"

theorem status_follows_preference_witness:
  "\<exists>st. computeStatus fakeClient exampleListener exampleService AddressTypeHostname exampleCluster
       = (Ok st, exampleCluster)
     \<and> ServiceName st = ''web'' \<and> NodePorts st = []
     \<and> (\<forall>i\<in>set (IngressAddresses st). iaAddressType i = AddressTypeHostname)"
proof -
  obtain st where st: "computeStatus fakeClient exampleListener exampleService AddressTypeHostname
      exampleCluster = (Ok st, exampleCluster)"
    by (simp add: exampleService_def computeStatus_ClusterIP)
  with status_follows_preference [OF st] show ?thesis by (auto simp: exampleService_def)
qed

lemma endpointNodes_def':
  "endpointNodes es = [n. e \<leftarrow> es, Some n \<leftarrow> [epNodeName e]]"
  by (induction es) (auto split: option.splits)

text \<open>C18. For a NodePort Service the ingress addresses are those of the nodes that run its endpoints:
  one entry per endpoint that has a node, in the order of the endpoint slices and of the endpoints in
  them. The address of a node is the one that the node lists first among those that are an external IP, an
  internal IP or a host name. The cluster is only read.\<close>

theorem nodeport_status_addresses:
  assumes "kube_reads C" "svType s = ServiceTypeNodePort" "computeStatus C l s t w = (Ok st, w')"
    and "fst (ListEndpointSlices C (Namespace (svMeta s)) [(serviceNameLabel, Name (svMeta s))] w) = Inr slices"
  shows "w' = w
     \<and> list_all2 (\<lambda>n i. \<exists>nd pre a post. fst (GetNode C ('''', n) w) = Inr nd
            \<and> nAddresses nd = pre @ a # post
            \<and> naType a \<in> {NodeExternalIP, NodeInternalIP, NodeHostName}
            \<and> (\<forall>b\<in>set pre. naType b \<notin> {NodeExternalIP, NodeInternalIP, NodeHostName})
            \<and> iaAddress i = naAddress a)
         [n. sl \<leftarrow> slices, e \<leftarrow> Endpoints sl, Some n \<leftarrow> [epNodeName e]] (IngressAddresses st)"
  using assms(3)
proof (cases rule: computeStatus_Ok_cases)
  case (NodePort as)
  have "\<exists>pre b post. nAddresses nd = pre @ b # post \<and> naType b \<in> {NodeExternalIP, NodeInternalIP, NodeHostName}
      \<and> (\<forall>b\<in>set pre. naType b \<notin> {NodeExternalIP, NodeInternalIP, NodeHostName}) \<and> Address a = naAddress b"
    if "GetPriorNodeAddress nd = Inr a" for nd a
    using that unfolding conjunct1 [OF GetPriorNodeAddress_first] list_all_iff usable_def by fastforce
  with kube_reads.getNodesAddresses_Ok [OF assms(1) NodePort(2) assms(4)] NodePort(3) show ?thesis
    unfolding endpointNodes_def'
    by (auto simp: list_all2_map2 ingressOf_def elim!: list_all2_mono)
qed (use assms(2) in simp_all)

definition nodeCluster :: cluster where
  "nodeCluster = exampleCluster\<lparr>
     cNodes := [(('''', ''n1''), \<lparr>nMeta = newMeta ''n1'' '''',
       nAddresses = [\<lparr>naType = OtherNodeAddressType ''InternalDNS'', naAddress = ''n1.local''\<rparr>,
         \<lparr>naType = NodeInternalIP, naAddress = ''10.1.0.1''\<rparr>, \<lparr>naType = NodeHostName, naAddress = ''n1''\<rparr>]\<rparr>)],
     cSlices := [\<lparr>esMeta = (newMeta ''web-x'' ''shop'')\<lparr>Labels := [(serviceNameLabel, ''web'')]\<rparr>,
       Endpoints = [\<lparr>epNodeName = Some ''n1''\<rparr>, \<lparr>epNodeName = None\<rparr>]\<rparr>]\<rparr>"

theorem nodeport_status_addresses_witness:
  "\<exists>st. computeStatus fakeClient exampleListener
       (desiredService fakeClient exampleListener ServiceTypeNodePort None) AddressTypeIP nodeCluster
       = (Ok st, nodeCluster)
     \<and> map iaAddress (IngressAddresses st) = [''10.1.0.1'']"
proof -
  let ?s = "desiredService fakeClient exampleListener ServiceTypeNodePort None"
  have nodes: "getNodesAddresses fakeClient ?s nodeCluster
      = (Ok [mkAddressInfo ''10.1.0.1'' AddressTypeIP], nodeCluster)"
    by (simp add: getNodesAddresses_def getNodeNames_def nodeAddressOf_def fake_defs nodeCluster_def
        matchingLabels_def newMeta_def GetPriorNodeAddress_def)
  obtain st where st: "computeStatus fakeClient exampleListener ?s AddressTypeIP nodeCluster = (Ok st, nodeCluster)"
    using computeStatus_NodePort [OF _ nodes] by simp
  have "fst (ListEndpointSlices fakeClient (Namespace (svMeta ?s)) [(serviceNameLabel, Name (svMeta ?s))]
      nodeCluster) = Inr (cSlices nodeCluster)"
    by (simp add: fake_defs nodeCluster_def matchingLabels_def newMeta_def)
  note all = conjunct2 [OF nodeport_status_addresses [OF fake.kube_reads_axioms _ st this]]
  have names: "[n. sl \<leftarrow> cSlices nodeCluster, e \<leftarrow> Endpoints sl, Some n \<leftarrow> [epNodeName e]] = [''n1'']"
    by (simp add: nodeCluster_def)
  obtain i nd pre a post where i: "IngressAddresses st = [i]" and nd: "fst (GetNode fakeClient ('''', ''n1'') nodeCluster) = Inr nd"
    and split: "nAddresses nd = pre @ a # post" and a: "naType a \<in> {NodeExternalIP, NodeInternalIP, NodeHostName}"
    and pre: "\<forall>b\<in>set pre. naType b \<notin> {NodeExternalIP, NodeInternalIP, NodeHostName}" and addr: "iaAddress i = naAddress a"
    using all unfolding names by (auto simp: list_all2_Cons1)
  from nd split have "[\<lparr>naType = OtherNodeAddressType ''InternalDNS'', naAddress = ''n1.local''\<rparr>,
      \<lparr>naType = NodeInternalIP, naAddress = ''10.1.0.1''\<rparr>, \<lparr>naType = NodeHostName, naAddress = ''n1''\<rparr>] = pre @ a # post"
    by (auto simp: nodeCluster_def fake_defs)
  with a pre have "naAddress a = ''10.1.0.1''" by (auto simp: Cons_eq_append_conv)
  with st i addr show ?thesis by simp
qed

text \<open>C11. A successful status update publishes exactly the status that was computed from the
  Listener's Service and class, however many write conflicts were retried on the way.\<close>

theorem status_published:
  assumes "kube_status C storedListener" "updateListenerStatus C l w = (Ok (), w')"
  shows "\<exists>s t st w1. describe C l w = (Ok s, w) \<and> preferredAddressType C l w = (Ok t, w)
     \<and> computeStatus C l s t w = (Ok st, w1)
     \<and> (\<exists>cur. storedListener w' (objectKeyOf (lMeta l)) = Some cur \<and> lStatus cur = st)"
  by (rule kube_status.updateListenerStatus_published [OF assms])

definition conflictCluster :: cluster where
  "conflictCluster = exampleCluster\<lparr>cConflicts := 2,
     cServices := [((''shop'', ''web''), exampleService)],
     cClasses := [(('''', ''external''), exampleClass\<lparr>ServiceType := Some ServiceTypeClusterIP\<rparr>)]\<rparr>"

theorem status_published_witness:
  "\<exists>w' cur. updateListenerStatus fakeClient exampleListener conflictCluster = (Ok (), w')
     \<and> map_of (cListeners w') (''shop'', ''web'') = Some cur
     \<and> map iaAddress (IngressAddresses (lStatus cur)) = [''web.shop.svc.cluster.local'']"
proof -
  have svc: "describe fakeClient exampleListener conflictCluster = (Ok exampleService, conflictCluster)"
    by (simp add: describe_def getName_def fake_defs conflictCluster_def)
  have pref: "preferredAddressType fakeClient exampleListener conflictCluster
      = (Ok AddressTypeHostname, conflictCluster)"
    by (simp add: preferredAddressType_def fake_defs conflictCluster_def exampleClass_def)
  obtain st where st: "computeStatus fakeClient exampleListener exampleService AddressTypeHostname w
      = (Ok st, w)" "map iaAddress (IngressAddresses st) = [''web.shop.svc.cluster.local'']" for w
    by (simp add: exampleService_def computeStatus_ClusterIP getServiceFQDN_def getClusterDomain_def newMeta_def)
  have "\<exists>w'. retryN 4 (writeStatus fakeClient (''shop'', ''web'') st) conflictCluster = (Inr (), w')"
    by (simp add: numeral_nat writeStatus_def fake_defs fakeStatusUpdate_def conflictCluster_def Let_def)
  then obtain w' where w': "updateListenerStatus fakeClient exampleListener conflictCluster = (Ok (), w')"
    using svc pref st by (auto simp: updateListenerStatus_def)
  from status_published [OF fake.kube_status_axioms w'] svc pref st w' show ?thesis by auto
qed

text \<open>C10. A Listener is reconciled in at most two rounds. When a round asks for a requeue, because
  the Service was created or changed, the next round finds the Service in order and goes on to the
  status: its outcome is that of the status update.\<close>

theorem reconcile_second_round:
  assumes "kube_services C stored" "Reconcile C req w = (Ok r, w')" "Requeue r"
    and "fst (GetListener C req w) = Inr l"
    and "distinct (map portId (servicePorts (lsPorts (lSpec l))))"
    and "\<forall>lc. fst (GetListenerClass C ('''', ClassName (lSpec l)) w) = Inr lc \<longrightarrow>
           ServiceExternalTrafficPolicy lc \<noteq> ''''"
  shows "Reconcile C req w' = bindG (updateListenerStatus C l) (\<lambda>_. retG zeroResult) w'"
proof -
  from assms(1) have reads: "kube_reads C" by (rule kube_services.axioms(1))
  have l: "GetListener C req w = (Inr l, w)"
    using kube_reads.reads(1) [OF reads, of req w] assms(4) by (metis prod.collapse)
  have svc: "createService C l w = (Ok r, w')"
    using assms(2,3) l
    by (auto simp: Reconcile_def go_inv zeroResult_def split: if_splits)
  have "fst (GetListener C req w') = Inr l"
    using kube_services.createService_listeners [OF assms(1) svc] assms(4) by simp
  then have "GetListener C req w' = (Inr l, w')"
    using kube_reads.reads(1) [OF reads, of req w'] by (metis prod.collapse)
  moreover have "createService C l w' = (Ok zeroResult, w')"
    using kube_services.createService_converges [OF assms(1) svc assms(5)] assms(6) by blast
  ultimately show ?thesis by (simp add: Reconcile_def IsZero_def)
qed

theorem reconcile_second_round_witness:
  "\<exists>w'. Reconcile fakeClient (''shop'', ''web'') exampleCluster = (Ok (zeroResult\<lparr>Requeue := True\<rparr>), w')
     \<and> Reconcile fakeClient (''shop'', ''web'') w'
         = bindG (updateListenerStatus fakeClient exampleListener) (\<lambda>_. retG zeroResult) w'"
proof -
  obtain w' where svc: "createService fakeClient exampleListener exampleCluster
      = (Ok (zeroResult\<lparr>Requeue := True\<rparr>), w')"
    using example_createService by blast
  then have w': "Reconcile fakeClient (''shop'', ''web'') exampleCluster = (Ok (zeroResult\<lparr>Requeue := True\<rparr>), w')"
    by (simp add: Reconcile_def fake_defs IsZero_def zeroResult_def)
  moreover have "Reconcile fakeClient (''shop'', ''web'') w'
      = bindG (updateListenerStatus fakeClient exampleListener) (\<lambda>_. retG zeroResult) w'"
    by (rule reconcile_second_round [OF fake.kube_services_axioms w']) (simp_all add: fake_defs)
  ultimately show ?thesis by blast
qed

text \<open>C33. A LoadBalancer Service whose ingress lists an IP address makes the reconciler panic
  unless the class prefers IP addresses: \<^verbatim>\<open>Pick\<close> has no host name to offer for the address and
  returns nil, which the status update dereferences. The status is never written.\<close>

theorem loadbalancer_ip_panics:
  assumes "GetListener C req w = (Inr l, w1)" "createService C l w1 = (Ok zeroResult, w2)"
    and "describe C l w2 = (Ok s, w3)" "GetListenerClass C ('''', ClassName (lSpec l)) w3 = (Inr lc, w4)"
    and "ServiceType lc = Some ServiceTypeLoadBalancer" "PreferredAddressType lc \<noteq> AddressTypeIP"
    and "svType s = ServiceTypeLoadBalancer" "i \<in> set (svIngress s)" "ingIP i \<noteq> ''''"
  shows "Reconcile C req w = (Panic ''nil pointer dereference'', w4)"
proof -
  obtain t where t: "preferredAddressType C l w3 = (Ok t, w4)" "t \<noteq> AddressTypeIP"
    using assms(4-6)
    by (cases "PreferredAddressType lc = AddressTypeHostnameConservative")
      (auto simp: preferredAddressType_def)
  have "computeStatus C l s t w4 = (Panic ''nil pointer dereference'', w4)"
    using assms(7-9) t(2) by (subst computeStatus_LoadBalancer) (auto simp: list_all_iff)
  with assms(1-3) t(1) show ?thesis
    by (simp add: Reconcile_def IsZero_def updateListenerStatus_def)
qed

definition lbClass :: listenerClass where
  "lbClass = exampleClass\<lparr>ServiceType := Some ServiceTypeLoadBalancer\<rparr>"

definition lbService :: service where
  "lbService = (desiredFor fakeClient exampleListener lbClass ServiceTypeLoadBalancer)\<lparr>
     svMeta := (newMeta ''web'' ''shop'')\<lparr>OwnerReferences := [\<lparr>ownerKind = ''Listener'',
       ownerName = ''web'', ownerUID = ''8f-1'', isController = True\<rparr>]\<rparr>,
     svIngress := [\<lparr>ingIP = ''203.0.113.5'', ingHostname = ''''\<rparr>]\<rparr>"

definition lbCluster :: cluster where
  "lbCluster = exampleCluster\<lparr>cClasses := [(('''', ''external''), lbClass)],
     cServices := [((''shop'', ''web''), lbService)]\<rparr>"

lemma lbService_kept:
  "mutateService fakeClient exampleListener (desiredFor fakeClient exampleListener lbClass ServiceTypeLoadBalancer)
     lbService = Inr lbService"
proof -
  have "UID (lMeta exampleListener) = ''8f-1''" by (simp add: exampleListener_def)
  then have ref: "fakeSetControllerReference (''Listener'', lMeta exampleListener) (svMeta lbService)
      = Inr (svMeta lbService)"
    by (simp add: fakeSetControllerReference_def lbService_def newMeta_def refersSame_def upsertRef_def)
  have "mutateFields (desiredFor fakeClient exampleListener lbClass ServiceTypeLoadBalancer) lbService = lbService"
    by (rule service.equality)
      (simp_all add: lbService_def mutatePorts_def keepNodePort_Cons desiredService_def)
  with ref show ?thesis by (simp add: mutateService_def Let_def)
qed

theorem loadbalancer_ip_panics_witness:
  "Reconcile fakeClient (''shop'', ''web'') lbCluster = (Panic ''nil pointer dereference'', lbCluster)"
proof (rule loadbalancer_ip_panics [where i = "\<lparr>ingIP = ''203.0.113.5'', ingHostname = ''''\<rparr>"])
  show "GetListener fakeClient (''shop'', ''web'') lbCluster = (Inr exampleListener, lbCluster)"
    by (simp add: fake_defs lbCluster_def)
  have "fakeCreateOrUpdate (desiredFor fakeClient exampleListener lbClass ServiceTypeLoadBalancer)
      (mutateService fakeClient exampleListener (desiredFor fakeClient exampleListener lbClass
        ServiceTypeLoadBalancer)) lbCluster = (Inr OperationResultNone, lbCluster)"
    by (subst fakeCreateOrUpdate_Some [where s = lbService]) (simp_all add: lbService_kept lbCluster_def objectKeyOf_def newMeta_def)
  then show "createService fakeClient exampleListener lbCluster = (Ok zeroResult, lbCluster)"
    by (simp add: createService_Ok fake_defs) (simp add: lbCluster_def lbClass_def)
  show "describe fakeClient exampleListener lbCluster = (Ok lbService, lbCluster)"
    by (simp add: describe_def getName_def fake_defs lbCluster_def)
  show "GetListenerClass fakeClient ('''', ClassName (lSpec exampleListener)) lbCluster = (Inr lbClass, lbCluster)"
    by (simp add: fake_defs lbCluster_def)
qed (simp_all add: lbClass_def exampleClass_def lbService_def)

text \<open>A change of a ListenerClass requeues exactly the Listeners that name it, those whose
  reconciliation reads it, and nothing when the Listeners cannot be listed.\<close>

lemma class_watch_exact:
  "handleListenerClassChanges C lc w =
     (case ListListeners C w of
        (Inr ls, w1) \<Rightarrow> (Ok (map (\<lambda>l. objectKeyOf (lMeta l))
           (filter (\<lambda>l. ClassName (lSpec l) = Name (lcMeta lc)) ls)), w1)
      | (Inl e, w1) \<Rightarrow> (Ok [], w1))"
  by (auto simp: handleListenerClassChanges_def requestsWhere_filter requestFor_def objectKeyOf_def
      split: prod.splits sum.splits)


text \<open>\<open>affects C w l ev\<close>: the object that changed is one that a reconciliation of the Listener \<open>l\<close> may read:
  the Listener, its class, its Service, the endpoint slices of the Service and the nodes that these name.
  It reads no PersistentVolume.\<close>

fun affects :: "('k, 'z) client_scheme \<Rightarrow> 'k \<Rightarrow> listener \<Rightarrow> objectEvent \<Rightarrow> bool" where
  "affects C w l (ListenerChanged l') = (objectKeyOf (lMeta l') = objectKeyOf (lMeta l))"
| "affects C w l (ListenerClassChanged lc) = (ClassName (lSpec l) = Name (lcMeta lc))"
| "affects C w l (EndpointSliceChanged es) = (Namespace (esMeta es) = Namespace (lMeta l)
     \<and> matchingLabels [(serviceNameLabel, getName l)] (Labels (esMeta es)))"
| "affects C w l (PersistentVolumeChanged pv) = False"
| "affects C w l (ServiceChanged s) = (objectKeyOf (svMeta s) = objectKeyOf (lMeta l))"
| "affects C w l (NodeChanged nd) =
     (case fst (ListEndpointSlices C (Namespace (lMeta l)) [(serviceNameLabel, getName l)] w) of
        Inr slices \<Rightarrow> list_ex (\<lambda>sl. list_ex (\<lambda>e. epNodeName e = Some (Name (nMeta nd))) (Endpoints sl)) slices
      | Inl e \<Rightarrow> False)"

text \<open>C29. What the watches of the controller cover of what a reconciliation reads. A change of a Listener
  or of its ListenerClass requeues the Listener. A change of an endpoint slice of its Service requeues it
  exactly when the Listener's status names the Service, so not before the first status is published. A
  change of its Service requeues nothing, although the Listener owns it, and a change of a node whose address
  it publishes requeues nothing either.\<close>

theorem watches_cover_reads:
  assumes "ListListeners C w = (Inr ls, w1)" "SetupWithManager C ev w = (Ok reqs, w')"
    and "l \<in> set ls" "distinct (map (\<lambda>l. objectKeyOf (lMeta l)) ls)" "affects C w l ev"
  shows "case ev of
      ListenerChanged _ \<Rightarrow> objectKeyOf (lMeta l) \<in> set reqs
    | ListenerClassChanged _ \<Rightarrow> objectKeyOf (lMeta l) \<in> set reqs
    | EndpointSliceChanged _ \<Rightarrow>
        objectKeyOf (lMeta l) \<in> set reqs \<longleftrightarrow> ServiceName (lStatus l) = Name (lMeta l)
    | PersistentVolumeChanged _ \<Rightarrow> False
    | ServiceChanged _ \<Rightarrow> reqs = []
    | NodeChanged _ \<Rightarrow> reqs = []"
proof (cases ev)
  case (ListenerChanged l')
  with assms show ?thesis by (auto simp: SetupWithManager_def requestFor_def objectKeyOf_def)
next
  case (EndpointSliceChanged es)
  then have "handleEndpointSliceChanges C es w = (Ok reqs, w')" using assms(2) by (simp add: SetupWithManager_def)
  note reqs = sliceWatch.requeued [OF assms(1) this]
  have same: "l' = l" if "l' \<in> set ls" "objectKeyOf (lMeta l') = objectKeyOf (lMeta l)" for l'
    using assms(4) that assms(3) by (auto simp: distinct_map inj_on_def)
  have es: "map_of (Labels (esMeta es)) serviceNameLabel = Some (Name (lMeta l))"
    "Namespace (lMeta l) = Namespace (esMeta es)"
    using assms(5) EndpointSliceChanged by (simp_all add: matchingLabels_def getName_def)
  have "objectKeyOf (lMeta l) \<in> set reqs \<longleftrightarrow> (\<exists>l'. l' \<in> set ls
      \<and> objectKeyOf (lMeta l') = objectKeyOf (lMeta l) \<and> ServiceName (lStatus l') = Name (lMeta l))"
    unfolding reqs by (simp add: es objectKeyOf_def) metis
  also have "\<dots> \<longleftrightarrow> ServiceName (lStatus l) = Name (lMeta l)" using same assms(3) by blast
  finally show ?thesis using EndpointSliceChanged by simp
next
  case (ListenerClassChanged lc)
  then have "handleListenerClassChanges C lc w = (Ok reqs, w')" using assms(2) by (simp add: SetupWithManager_def)
  from classWatch.requeued [OF assms(1) this] show ?thesis
    using assms(3,5) ListenerClassChanged by (auto simp: objectKeyOf_def)
qed (use assms in \<open>simp_all add: SetupWithManager_def\<close>)

theorem watches_cover_reads_witness:
  "\<exists>reqs w'. SetupWithManager fakeClient (EndpointSliceChanged (hd (cSlices nodeCluster)))
       (nodeCluster\<lparr>cListeners := [((''shop'', ''web''),
          exampleListener\<lparr>lStatus := zeroListenerStatus\<lparr>ServiceName := ''web''\<rparr>\<rparr>)]\<rparr>) = (Ok reqs, w')
     \<and> (''shop'', ''web'') \<in> set reqs"
proof -
  let ?l = "exampleListener\<lparr>lStatus := zeroListenerStatus\<lparr>ServiceName := ''web''\<rparr>\<rparr>"
  let ?w = "nodeCluster\<lparr>cListeners := [((''shop'', ''web''), ?l)]\<rparr>"
  let ?ev = "EndpointSliceChanged (hd (cSlices nodeCluster))"
  obtain reqs w' where h: "SetupWithManager fakeClient ?ev ?w = (Ok reqs, w')"
    using sliceWatch.total [of fakeClient "hd (cSlices nodeCluster)" ?w]
    by (simp add: SetupWithManager_def) (metis prod.collapse)
  have "objectKeyOf (lMeta ?l) \<in> set reqs \<longleftrightarrow> ServiceName (lStatus ?l) = Name (lMeta ?l)"
    using watches_cover_reads [where C = fakeClient and ls = "[?l]", OF _ h]
    by (simp add: nodeCluster_def matchingLabels_def newMeta_def getName_def)
  with h show ?thesis by auto
qed

end
