(* ===== verification/ReconcileSpec.thy ===== *)
theory ReconcileSpec
  imports ListenerSpec
begin

text \<open>
  Reconciling again. Publishing a status changes the Listener, and a change of a Listener requeues it,
  so the controller reconciles after its own write. This theory shows that it comes to rest: every round
  after one that ended without a requeue finds the Service in order, computes the status that is stored
  and leaves the Service and the Listener as they are.
\<close>

section \<open>Rounds\<close>

text \<open>\<open>laterRound C req w w'\<close>: a number of successful reconciliations of the request lead from \<open>w\<close>
  to \<open>w'\<close>.\<close>

inductive laterRound :: "('k, 'z) client_scheme \<Rightarrow> objectKey \<Rightarrow> 'k \<Rightarrow> 'k \<Rightarrow> bool" for C req w where
  none: "laterRound C req w w"
| round: "laterRound C req w w' \<Longrightarrow> Reconcile C req w' = (Ok r, w'') \<Longrightarrow> laterRound C req w w''"

section \<open>What a round reads\<close>

lemma createService_status [simp]: "createService C (l\<lparr>lStatus := st\<rparr>) = createService C l"
proof -
  have "desiredService C (l\<lparr>lStatus := st\<rparr>) = desiredService C l"
    by (simp add: fun_eq_iff desiredService_def getName_def getNamespace_def getPodSelectorLabels_def
        ListenerMountPodLabels_def)
  moreover have "mutateService C (l\<lparr>lStatus := st\<rparr>) = mutateService C l"
    by (simp add: fun_eq_iff mutateService_def Let_def)
  ultimately show ?thesis by (simp add: createService_def getListenerClass_def Let_def cong: if_cong)
qed

lemma computeStatus_status [simp]: "computeStatus C (l\<lparr>lStatus := st\<rparr>) s = computeStatus C l s"
  by (cases "svType s") (simp_all add: fun_eq_iff computeStatus_def Let_def)

lemma describe_status [simp]: "describe C (l\<lparr>lStatus := st\<rparr>) = describe C l"
  "preferredAddressType C (l\<lparr>lStatus := st\<rparr>) = preferredAddressType C l"
  by (simp_all add: describe_def getName_def preferredAddressType_def)

text \<open>Two states of the cluster that look the same to the status: Services, classes, endpoint slices and
  nodes.\<close>

definition sameInputs :: "('k, 'z) client_scheme \<Rightarrow> ('k \<Rightarrow> objectKey \<Rightarrow> service option) \<Rightarrow> 'k \<Rightarrow> 'k \<Rightarrow> bool" where
  "sameInputs C stored w w' \<longleftrightarrow> stored w' = stored w
     \<and> (\<forall>k. fst (GetListenerClass C k w') = fst (GetListenerClass C k w))
     \<and> (\<forall>ns ls. fst (ListEndpointSlices C ns ls w') = fst (ListEndpointSlices C ns ls w))
     \<and> (\<forall>k. fst (GetNode C k w') = fst (GetNode C k w))"

lemma sameInputs_refl [simp]: "sameInputs C stored w w"
  by (simp add: sameInputs_def)

lemma sameInputs_trans [trans]: "sameInputs C stored a b \<Longrightarrow> sameInputs C stored b c \<Longrightarrow> sameInputs C stored a c"
  by (simp add: sameInputs_def)

text \<open>The Service of the Listener \<open>l\<close> is in order and \<open>st\<close> is its status.\<close>

definition settled ::
  "('k, 'z) client_scheme \<Rightarrow> listener \<Rightarrow> service \<Rightarrow> addressType \<Rightarrow> listenerStatus \<Rightarrow> 'k \<Rightarrow> bool" where
  "settled C l s t st w \<longleftrightarrow> createService C l w = (Ok zeroResult, w) \<and> describe C l w = (Ok s, w)
     \<and> preferredAddressType C l w = (Ok t, w) \<and> computeStatus C l s t w = (Ok st, w)"

text \<open>The contract for writing a status: only Listeners are affected, whether the write succeeds or not;
  of the Listeners only the status; and a read returns what is stored.\<close>

locale kube_quiet = kube_services C stored + kube_status C storedListener
  for C :: "('k, 'z) client_scheme" and stored :: "'k \<Rightarrow> objectKey \<Rightarrow> service option"
    and storedListener :: "'k \<Rightarrow> objectKey \<Rightarrow> listener option" +
  assumes status_inputs: "StatusUpdateListener C l w = (r, w') \<Longrightarrow> sameInputs C stored w w'"
    and status_only: "StatusUpdateListener C l w = (r, w') \<Longrightarrow> fst (GetListener C k w) = Inr x \<Longrightarrow>
      \<exists>st. fst (GetListener C k w') = Inr (x\<lparr>lStatus := st\<rparr>)"
    and get_stored: "fst (GetListener C k w) = Inr x \<Longrightarrow> storedListener w k = Some x"
begin

lemma getListener_run: "fst (GetListener C k w) = Inr x \<Longrightarrow> GetListener C k w = (Inr x, w)"
  using reads(1) by (metis prod.collapse)

lemma getNodesAddresses_cong:
  assumes "sameInputs C stored w w'"
  shows "\<exists>r. getNodesAddresses C s w = (r, w) \<and> getNodesAddresses C s w' = (r, w')"
proof -
  have node: "\<exists>r. nodeAddressOf C n w' = (r, w') \<and> nodeAddressOf C n w = (r, w)" for n
  proof -
    obtain r where "GetNode C ('''', n) w = (r, w)" "GetNode C ('''', n) w' = (r, w')"
      using assms reads(5) by (metis prod.collapse sameInputs_def)
    then show ?thesis by (cases r) (auto simp: nodeAddressOf_def liftG_def split: sum.splits)
  qed
  have each: "\<exists>r. forG ns (nodeAddressOf C) w' = (r, w') \<and> forG ns (nodeAddressOf C) w = (r, w)" for ns
  proof (induction ns)
    case (Cons n ns)
    with node [of n] show ?case by (auto simp: bindG_def split: outcome.splits)
  qed simp
  obtain sl where sl: "ListEndpointSlices C (Namespace (svMeta s)) [(serviceNameLabel, Name (svMeta s))] w = (sl, w)"
      "ListEndpointSlices C (Namespace (svMeta s)) [(serviceNameLabel, Name (svMeta s))] w' = (sl, w')"
    using assms reads(10) by (metis prod.collapse sameInputs_def)
  then have "\<exists>r. getNodeNames C s w = (r, w) \<and> getNodeNames C s w' = (r, w')"
    by (cases sl) (simp_all add: getNodeNames_def)
  then obtain r where r: "getNodeNames C s w = (r, w)" "getNodeNames C s w' = (r, w')" by blast
  show ?thesis
  proof (cases r)
    case (Ok ns)
    with r each [of ns] show ?thesis by (auto simp: getNodesAddresses_def)
  qed (use r in \<open>simp_all add: getNodesAddresses_def\<close>)
qed

lemma computeStatus_cong:
  assumes "sameInputs C stored w w'"
  shows "\<exists>r. computeStatus C l s t w = (r, w) \<and> computeStatus C l s t w' = (r, w')"
proof (cases "svType s")
  case ServiceTypeNodePort
  obtain r where "getNodesAddresses C s w = (r, w)" "getNodesAddresses C s w' = (r, w')"
    using getNodesAddresses_cong [OF assms, of s] by blast
  with ServiceTypeNodePort show ?thesis
    by (cases r) (simp_all add: computeStatus_def getNodePorts_def Let_def bindG_def forG_pickIngress)
qed (auto simp: computeStatus_def Let_def bindG_def liftG_def forG_pickIngress split: sum.splits prod.splits outcome.splits)
lemma createService_zero:
  assumes "createService C l w = (Ok zeroResult, w')"
  shows "w' = w \<and> (\<exists>s. stored w (objectKeyOf (lMeta l)) = Some s)"
    and "sameInputs C stored w v \<Longrightarrow> createService C l v = (Ok zeroResult, v)"
proof -
  obtain lc ty where lc: "GetListenerClass C ('''', ClassName (lSpec l)) w = (Inr lc, w)"
      "servicePorts (lsPorts (lSpec l)) \<noteq> []" "ServiceType lc = Some ty"
    and run: "CreateOrUpdateService C (desiredFor C l lc ty) (mutateService C l (desiredFor C l lc ty)) w
      = (Inr OperationResultNone, w')"
    using assms by (auto simp: createService_Ok zeroResult_def dest: reads_eq(2) split: if_splits)
  let ?d = "desiredFor C l lc ty" and ?k = "objectKeyOf (lMeta l)"
  let ?f = "mutateService C l ?d"
  have "\<exists>s. stored w ?k = Some s \<and> ?f s = Inr s"
  proof (cases "stored w ?k")
    case None
    with run created [of w ?d ?f _ OperationResultNone w'] mutate_failed [where f = ?f and w = w and ?s0.0 = ?d] show ?thesis
      by (cases "?f ?d") auto
  next
    case (Some s)
    with run updated [of w ?d s ?f _ OperationResultNone w'] mutate_failed [where f = ?f and w = w and ?s0.0 = ?d] show ?thesis
      by (cases "?f s") auto
  qed
  then obtain s where s: "stored w ?k = Some s" "?f s = Inr s" by blast
  show "w' = w \<and> (\<exists>s. stored w ?k = Some s)"
    using unchanged [of w ?d s ?f] run s by simp
  show "createService C l v = (Ok zeroResult, v)" if same: "sameInputs C stored w v"
  proof -
    have "GetListenerClass C ('''', ClassName (lSpec l)) v = (Inr lc, v)"
      using same lc(1) reads(2) by (metis fst_conv prod.collapse sameInputs_def)
    moreover have "CreateOrUpdateService C ?d ?f v = (Inr OperationResultNone, v)"
      using unchanged [of v ?d s ?f] same s by (simp add: sameInputs_def)
    ultimately show ?thesis using lc by (auto simp: createService_Ok)
  qed
qed

lemma settled_same:
  assumes "settled C l s t st w" "sameInputs C stored w v"
  shows "settled C l s t st v"
proof -
  have svc: "createService C l v = (Ok zeroResult, v)"
    using assms createService_zero(2) by (auto simp: settled_def)
  obtain x where x: "stored w (objectKeyOf (lMeta l)) = Some x"
    using createService_zero(1) [of l w w] assms(1) by (auto simp: settled_def)
  have "GetService C (Namespace (lMeta l), getName l) v' = (Inr x, v')" if "sameInputs C stored w v'" for v'
    using getService_stored [of v' "objectKeyOf (lMeta l)" x] x that reads(4)
    by (metis getName_def objectKeyOf_def prod.collapse sameInputs_def)
  then have desc: "describe C l v = (Ok s, v)" using assms by (simp add: settled_def describe_def)
  obtain r where "GetListenerClass C ('''', ClassName (lSpec l)) w = (r, w)"
      "GetListenerClass C ('''', ClassName (lSpec l)) v = (r, v)"
    using assms(2) reads(2) by (metis prod.collapse sameInputs_def)
  then have "preferredAddressType C l v = (Ok t, v)"
    using assms(1)
    by (cases r) (auto simp: settled_def preferredAddressType_def derefG_def split: if_splits option.splits)
  with svc desc computeStatus_cong [OF assms(2), of l s t] assms(1) show ?thesis by (auto simp: settled_def)
qed

lemma writeStatus_frame:
  assumes "writeStatus C k st w = (r, w')"
  shows "sameInputs C stored w w'"
    and "fst (GetListener C k w) = Inr x \<Longrightarrow> \<exists>st'. fst (GetListener C k w') = Inr (x\<lparr>lStatus := st'\<rparr>)"
proof -
  obtain g where g: "GetListener C k w = (g, w)" using reads(1) by (metis prod.collapse)
  have "w' = w \<or> (\<exists>l r'. StatusUpdateListener C l w = (r', w'))"
    using assms g by (auto simp: writeStatus_def split: sum.splits prod.splits)
  then show "sameInputs C stored w w'"
    and "fst (GetListener C k w) = Inr x \<Longrightarrow> \<exists>st'. fst (GetListener C k w') = Inr (x\<lparr>lStatus := st'\<rparr>)"
    using status_inputs status_only [of _ w _ w' k x] by (auto intro: exI [of _ "lStatus x"])
qed

lemma retried_frame:
  assumes "retried (writeStatus C k st) w r w'" "fst (GetListener C k w) = Inr x"
  shows "sameInputs C stored w w' \<and> (\<exists>st'. fst (GetListener C k w') = Inr (x\<lparr>lStatus := st'\<rparr>))"
  using assms
proof (induction arbitrary: x rule: retried.induct)
  case (last w r w')
  then show ?case using writeStatus_frame by blast
next
  case (again w e w1 r w')
  obtain y where "fst (GetListener C k w1) = Inr (x\<lparr>lStatus := y\<rparr>)"
    using writeStatus_frame(2) again.hyps(1) again.prems by blast
  with again.IH have "sameInputs C stored w1 w' \<and> (\<exists>st'. fst (GetListener C k w') = Inr (x\<lparr>lStatus := st'\<rparr>))"
    by fastforce
  then show ?case using sameInputs_trans [OF writeStatus_frame(1) [OF again.hyps(1)]] by blast
qed

lemma settled_round:
  assumes "settled C l s t st w" "fst (GetListener C req w) = Inr (l\<lparr>lStatus := y\<rparr>)" "Reconcile C req w = (Ok r, w')"
  shows "r = zeroResult \<and> sameInputs C stored w w' \<and> fst (GetListener C req w') = Inr (l\<lparr>lStatus := st\<rparr>)"
proof -
  have l: "GetListener C req w = (Inr (l\<lparr>lStatus := y\<rparr>), w)" by (rule getListener_run [OF assms(2)])
  then have key: "objectKeyOf (lMeta l) = req" using getListener_key by fastforce
  have retry_run: "RetryOnConflict C (writeStatus C req st) w = (Inr (), w')" and r: "r = zeroResult"
    using assms(1,3) l key
    by (auto simp: Reconcile_def settled_def updateListenerStatus_def IsZero_def go_inv)
  note again = retry [OF retry_run]
  obtain y' where "sameInputs C stored w w'" "fst (GetListener C req w') = Inr (l\<lparr>lStatus := y'\<rparr>)"
    using retried_frame [OF again assms(2)] by auto
  moreover have "\<exists>cur. storedListener w' req = Some cur \<and> lStatus cur = st"
    using retried_last_run [OF again] writeStatus_stored by blast
  ultimately show ?thesis using r get_stored [of req w'] by fastforce
qed

end

interpretation fake: kube_quiet fakeClient "\<lambda>w. map_of (cServices w)" "\<lambda>w. map_of (cListeners w)"
proof (unfold_locales, goal_cases)
  case (1 l w r w')
  then show ?case
    by (auto simp: sameInputs_def fakeStatusUpdate_def Let_def fake_defs split: option.splits if_splits)
next
  case (2 l w r w' k x)
  have x: "map_of (cListeners w) k = Some x" "objectKeyOf (lMeta x) = k"
    using 2(2) by (auto simp: fake_defs split: option.splits if_splits)
  have "cListeners w' = cListeners w \<or> (\<exists>cur. map_of (cListeners w) (objectKeyOf (lMeta l)) = Some cur
      \<and> cListeners w' = AList.update (objectKeyOf (lMeta l)) (cur\<lparr>lStatus := lStatus l\<rparr>) (cListeners w))"
    using 2(1) by (auto simp: fakeStatusUpdate_def Let_def split: option.splits if_splits)
  then have "map_of (cListeners w') k = Some (x\<lparr>lStatus := lStatus x\<rparr>)
      \<or> map_of (cListeners w') k = Some (x\<lparr>lStatus := lStatus l\<rparr>)"
    using x(1) by (auto simp: update_conv')
  then obtain st where "map_of (cListeners w') k = Some (x\<lparr>lStatus := st\<rparr>)" by blast
  with x(2) show ?case by (intro exI [of _ st]) (simp add: fake_defs)
next
  case (3 k w x)
  then show ?case by (auto simp: fake_defs split: option.splits if_splits)
qed

section \<open>Properties\<close>

text \<open>C9. The controller comes to rest. After a reconciliation that ended without a requeue, however
  often the Listener is reconciled again, for instance because the status write itself changed it, no round
  asks for a requeue, the Services stay as they are, and the Listener stays as the first round left it: each
  round computes and writes the status that is already there.\<close>

theorem reconcile_rests:
  assumes "kube_quiet C stored storedListener" "fst (GetListener C req w0) = Inr l"
    and "Reconcile C req w0 = (Ok zeroResult, w1)" "laterRound C req w1 w"
  shows "stored w = stored w1 \<and> fst (GetListener C req w) = fst (GetListener C req w1)
     \<and> (\<forall>r w'. Reconcile C req w = (Ok r, w') \<longrightarrow> r = zeroResult)"
proof -
  note status = kube_quiet.axioms(2) [OF assms(1)]
  have l: "GetListener C req w0 = (Inr l, w0)" by (rule kube_quiet.getListener_run [OF assms(1,2)])
  obtain r wS where svc: "createService C l w0 = (Ok r, wS)" "IsZero r"
    and upd: "updateListenerStatus C l wS = (Ok (), w1)"
    using assms(3) l by (auto simp: Reconcile_def go_inv IsZero_def split: if_splits)
  then have w0: "wS = w0" using kube_quiet.createService_zero(1) [OF assms(1)] by (auto simp: IsZero_def)
  obtain s t st w2 where s: "describe C l w0 = (Ok s, w0)" "preferredAddressType C l w0 = (Ok t, w0)"
      "computeStatus C l s t w0 = (Ok st, w2)"
    using kube_status.updateListenerStatus_published [OF status upd] w0 by blast
  have "w2 = w0" using kube_quiet.computeStatus_cong [OF assms(1) sameInputs_refl, of l s t w0] s(3) by auto
  with svc w0 s have settled: "settled C l s t st w0" by (simp add: settled_def IsZero_def)
  have "l = l\<lparr>lStatus := lStatus l\<rparr>" by simp
  with assms(2) kube_quiet.settled_round [OF assms(1) settled, of req "lStatus l" zeroResult w1] assms(3)
  have first: "sameInputs C stored w0 w1" "fst (GetListener C req w1) = Inr (l\<lparr>lStatus := st\<rparr>)" by auto
  note same = kube_quiet.settled_same [OF assms(1)] and step = kube_quiet.settled_round [OF assms(1)]
  have "settled C l s t st w \<and> stored w = stored w1 \<and> fst (GetListener C req w) = Inr (l\<lparr>lStatus := st\<rparr>)"
    using assms(4)
  proof (induction rule: laterRound.induct)
    case none
    then show ?case using same [OF settled first(1)] first(2) by simp
  next
    case (round w r w'')
    then show ?case using step [of l s t st w req st r w''] same [of l s t st w w''] by (auto simp: sameInputs_def)
  qed
  with first(2) step [of l s t st w req st] show ?thesis by auto
qed

text \<open>The cluster after the Service has been created and the load balancer has its host name.\<close>

definition hostService :: service where
  "hostService = lbService\<lparr>svIngress := [\<lparr>ingIP = '''', ingHostname = ''lb.example''\<rparr>]\<rparr>"

definition hostCluster :: cluster where
  "hostCluster = lbCluster\<lparr>cServices := [((''shop'', ''web''), hostService)]\<rparr>"

theorem reconcile_rests_witness:
  "\<exists>w1 w. Reconcile fakeClient (''shop'', ''web'') hostCluster = (Ok zeroResult, w1)
     \<and> Reconcile fakeClient (''shop'', ''web'') w1 = (Ok zeroResult, w)
     \<and> fst (GetListener fakeClient (''shop'', ''web'') w) = fst (GetListener fakeClient (''shop'', ''web'') w1)"
proof -
  let ?st = "\<lparr>ServiceName = ''web'', IngressAddresses = [\<lparr>iaAddress = ''lb.example'',
    iaAddressType = AddressTypeHostname, iaPorts = [(''http'', 80)]\<rparr>], NodePorts = []\<rparr>"
  let ?w = "hostCluster\<lparr>cListeners := [((''shop'', ''web''), exampleListener\<lparr>lStatus := ?st\<rparr>)]\<rparr>"
  have l: "fst (GetListener fakeClient (''shop'', ''web'') hostCluster) = Inr exampleListener"
    and one: "Reconcile fakeClient (''shop'', ''web'') hostCluster = (Ok zeroResult, ?w)"
    and two: "Reconcile fakeClient (''shop'', ''web'') ?w = (Ok zeroResult, ?w)"
    by code_simp+
  have "laterRound fakeClient (''shop'', ''web'') ?w ?w" using two by (intro laterRound.round [OF laterRound.none])
  from reconcile_rests [OF fake.kube_quiet_axioms l one this] one two show ?thesis by blast
qed

end
