(* ===== verification/GoPath.thy ===== *)
theory GoPath
  imports GoStd
begin

text \<open>
  \<^verbatim>\<open>path/filepath\<close>'s Clean and Join on Unix paths, and what they give on the paths the program
  builds: absolute paths of proper components.
\<close>

definition clean_step :: "bool \<Rightarrow> string list \<Rightarrow> string \<Rightarrow> string list" where
  "clean_step rooted out c =
     (if c = '''' \<or> c = ''.'' then out
      else if c = ''..'' then
        (if out \<noteq> [] \<and> last out \<noteq> ''..'' then butlast out
         else if rooted then out else out @ [''..''])
      else out @ [c])"

definition is_rooted :: "string \<Rightarrow> bool" where
  "is_rooted p = HasPrefix p ''/''"

definition filepath_Clean :: "string \<Rightarrow> string" where
  "filepath_Clean p =
     (if p = '''' then ''.''
      else let out = foldl (clean_step (is_rooted p)) [] (split_on (CHR ''/'') p)
           in if is_rooted p then ''/'' @ join_with ''/'' out
              else if out = [] then ''.'' else join_with ''/'' out)"

definition filepath_Join :: "string list \<Rightarrow> string" where
  "filepath_Join es =
     (case dropWhile (\<lambda>e. e = '''') es of [] \<Rightarrow> '''' | ne \<Rightarrow> filepath_Clean (join_with ''/'' ne))"

text \<open>A proper component names one directory entry.\<close>

definition good_comp :: "string \<Rightarrow> bool" where
  "good_comp c = (c \<noteq> '''' \<and> c \<noteq> ''.'' \<and> c \<noteq> ''..'' \<and> CHR ''/'' \<notin> set c)"

definition abs_path :: "string list \<Rightarrow> string" where
  "abs_path cs = concat (map (\<lambda>c. CHR ''/'' # c) cs)"

lemma abs_path_simps [simp]:
  "abs_path [] = []" "abs_path (c # cs) = CHR ''/'' # c @ abs_path cs"
  "abs_path (cs @ ds) = abs_path cs @ abs_path ds"
  by (simp_all add: abs_path_def)

lemma abs_path_eq_Nil [simp]: "abs_path cs = [] \<longleftrightarrow> cs = []"
  by (cases cs) auto

lemma rooted_abs_path [simp]: "is_rooted (abs_path cs @ s) \<longleftrightarrow> cs \<noteq> [] \<or> is_rooted s"
  by (cases cs) (auto simp: is_rooted_def HasPrefix_def)

lemma split_on_abs_path:
  "list_all good_comp cs \<Longrightarrow> split_on (CHR ''/'') (abs_path cs) = [] # cs"
proof (induction cs)
  case Nil
  then show ?case by simp
next
  case (Cons c cs)
  then have c: "CHR ''/'' \<notin> set c" by (simp add: good_comp_def)
  show ?case
  proof (cases cs)
    case Nil
    with c show ?thesis by (simp add: split_on_no_sep)
  next
    case (Cons d ds)
    with Cons.IH Cons.prems have "split_on (CHR ''/'') (d @ abs_path ds) = cs" by simp
    with c Cons show ?thesis by (simp add: split_on_append)
  qed
qed

lemma foldl_clean_step_good:
  "list_all good_comp cs \<Longrightarrow> foldl (clean_step r) out cs = out @ cs"
  by (induction cs arbitrary: out) (auto simp: clean_step_def good_comp_def)

lemma join_with_abs_path: "cs \<noteq> [] \<Longrightarrow> CHR ''/'' # join_with ''/'' cs = abs_path cs"
  by (induction "''/''" cs rule: join_with.induct) auto

lemma filepath_Clean_abs_path:
  assumes "list_all good_comp cs" "cs \<noteq> []"
  shows "filepath_Clean (abs_path cs) = abs_path cs"
proof -
  have r: "is_rooted (abs_path cs)"
    using rooted_abs_path [of cs "[]"] assms(2) by simp
  have "foldl (clean_step True) [] ([] # cs) = cs"
    using foldl_clean_step_good [OF assms(1), of True "[]"] by (simp add: clean_step_def)
  then show ?thesis
    using assms r join_with_abs_path [of cs]
    by (simp add: filepath_Clean_def split_on_abs_path Let_def)
qed

lemma filepath_Join_abs_path:
  assumes "list_all good_comp cs" "cs \<noteq> []" "good_comp d"
  shows "filepath_Join [abs_path cs, d] = abs_path (cs @ [d])"
proof -
  have "filepath_Join [abs_path cs, d] = filepath_Clean (abs_path (cs @ [d]))"
    using assms(2) by (simp add: filepath_Join_def)
  also have "\<dots> = abs_path (cs @ [d])"
    by (rule filepath_Clean_abs_path) (use assms in auto)
  finally show ?thesis .
qed

declare abs_path_simps [simp del]

end
