(* ===== verification/GoOs.thy ===== *)
theory GoOs
  imports GoPath
begin

text \<open>
  The file system as Go's \<^verbatim>\<open>os\<close> package shows it: a tree of directories, files, symbolic
  links and sockets, path resolution as the kernel does it (at most 40 links followed, then ELOOP), and the
  calls of the program. Directories can be mount points (\<open>mounts\<close>, the innermost mount first); the entry of
  a mount point cannot be removed. A call can also fail for a reason outside the tree (no space, no
  permission); which calls do is part of the state (\<open>fault\<close>). Permission bits are not
  modelled: nothing in the program reads them.
\<close>

datatype entry = Dir | File string | Symlink string | Socket
datatype syscall = SysMkdir | SysWrite | SysSymlink | SysRemove | SysRead | SysBind

type_synonym path = "string list"

record fsys =
  tree :: "path \<rightharpoonup> entry"
  cwd :: path
  mounts :: "path list"
  fault :: "syscall \<Rightarrow> path \<Rightarrow> errno option"

definition entry_at :: "(path \<rightharpoonup> entry) \<Rightarrow> path \<Rightarrow> entry option" where
  "entry_at t p = (if p = [] then Some Dir else t p)"

section \<open>Path resolution\<close>

definition comps :: "string \<Rightarrow> string list" where
  "comps s = filter (\<lambda>c. c \<noteq> '''' \<and> c \<noteq> ''.'') (split_on (CHR ''/'') s)"

definition start_dir :: "path \<Rightarrow> string \<Rightarrow> path" where
  "start_dir d s = (if is_rooted s then [] else d)"

text \<open>
  \<open>walk n t cur cs\<close> follows the components \<open>cs\<close> from the directory \<open>cur\<close>, with \<open>n\<close> symbolic
  links left to follow. The last component need not exist.
\<close>

function walk :: "nat \<Rightarrow> (path \<rightharpoonup> entry) \<Rightarrow> path \<Rightarrow> string list \<Rightarrow> errno + path" where
  "walk n t cur [] = Inr cur"
| "walk n t cur (c # cs) =
     (if c = ''..'' then walk n t (butlast cur) cs
      else (case entry_at t (cur @ [c]) of
        None \<Rightarrow> if cs = [] then Inr (cur @ [c]) else Inl ENOENT
      | Some Dir \<Rightarrow> walk n t (cur @ [c]) cs
      | Some (File d) \<Rightarrow> if cs = [] then Inr (cur @ [c]) else Inl ENOTDIR
      | Some Socket \<Rightarrow> if cs = [] then Inr (cur @ [c]) else Inl ENOTDIR
      | Some (Symlink l) \<Rightarrow>
          (case n of 0 \<Rightarrow> Inl ELOOP
           | Suc m \<Rightarrow> walk m t (start_dir cur l) (comps l @ cs))))"
  by pat_completeness auto
termination
  by (relation "measures [\<lambda>(n, t, cur, cs). n, \<lambda>(n, t, cur, cs). length cs]") auto

declare walk.simps(2) [simp del]

definition max_links :: nat where "max_links = 40"

text \<open>\<open>resolve\<close> follows a final symbolic link, \<open>lresolve\<close> does not.\<close>

definition resolve_at :: "fsys \<Rightarrow> path \<Rightarrow> string list \<Rightarrow> errno + path" where
  "resolve_at f st cs = walk max_links (tree f) st cs"

definition lresolve_at :: "fsys \<Rightarrow> path \<Rightarrow> string list \<Rightarrow> errno + path" where
  "lresolve_at f st cs =
     (if cs = [] \<or> last cs = ''..'' then resolve_at f st cs
      else (case resolve_at f st (butlast cs) of
        Inl e \<Rightarrow> Inl e
      | Inr p \<Rightarrow> (case entry_at (tree f) p of
          None \<Rightarrow> Inl ENOENT
        | Some Dir \<Rightarrow> Inr (p @ [last cs])
        | Some _ \<Rightarrow> Inl ENOTDIR)))"

definition stat_at :: "fsys \<Rightarrow> path \<Rightarrow> string list \<Rightarrow> errno + entry" where
  "stat_at f st cs = (case resolve_at f st cs of
     Inl e \<Rightarrow> Inl e
   | Inr p \<Rightarrow> (case entry_at (tree f) p of None \<Rightarrow> Inl ENOENT | Some e \<Rightarrow> Inr e))"

section \<open>The calls\<close>

definition set_entry :: "path \<Rightarrow> entry \<Rightarrow> fsys \<Rightarrow> fsys" where
  "set_entry p e f = f\<lparr>tree := (tree f)(p \<mapsto> e)\<rparr>"

definition create_at ::
  "syscall \<Rightarrow> entry \<Rightarrow> path \<Rightarrow> string list \<Rightarrow> fsys \<Rightarrow> errno + fsys" where
  "create_at sc e st cs f = (case lresolve_at f st cs of
     Inl err \<Rightarrow> Inl err
   | Inr p \<Rightarrow> (case fault f sc p of
       Some err \<Rightarrow> Inl err
     | None \<Rightarrow> if entry_at (tree f) p = None then Inr (set_entry p e f) else Inl EEXIST))"

fun mkdirAll_at :: "path \<Rightarrow> string list \<Rightarrow> string list \<Rightarrow> fsys \<Rightarrow> (errno + unit) \<times> fsys" where
  "mkdirAll_at st pre [] f = (Inr (), f)"
| "mkdirAll_at st pre (c # cs) f =
     (case stat_at f st (pre @ [c]) of
        Inr Dir \<Rightarrow> mkdirAll_at st (pre @ [c]) cs f
      | Inr _ \<Rightarrow> (Inl ENOTDIR, f)
      | Inl _ \<Rightarrow> (case create_at SysMkdir Dir st (pre @ [c]) f of
          Inl e \<Rightarrow> (Inl e, f)
        | Inr f' \<Rightarrow> mkdirAll_at st (pre @ [c]) cs f'))"

definition os_err :: "string \<Rightarrow> (errno + 'a) \<times> 's \<Rightarrow> (error + 'a) \<times> 's" where
  "os_err s r = (case r of (Inl e, f) \<Rightarrow> (Inl (OsErr e s), f) | (Inr a, f) \<Rightarrow> (Inr a, f))"

definition os_MkdirAll :: "string \<Rightarrow> (fsys, unit) call" where
  "os_MkdirAll s f = os_err s
     (if s = '''' then (Inl ENOENT, f)
      else mkdirAll_at (start_dir (cwd f) s) [] (comps s) f)"

definition os_WriteFile :: "string \<Rightarrow> string \<Rightarrow> (fsys, unit) call" where
  "os_WriteFile s d f = os_err s
     (if s = '''' then (Inl ENOENT, f)
      else case resolve_at f (start_dir (cwd f) s) (comps s) of
        Inl e \<Rightarrow> (Inl e, f)
      | Inr p \<Rightarrow> (case fault f SysWrite p of
          Some e \<Rightarrow> (Inl e, f)
        | None \<Rightarrow> if entry_at (tree f) p = Some Dir then (Inl EISDIR, f)
                  else if entry_at (tree f) p = Some Socket then (Inl ENXIO, f)
                  else (Inr (), set_entry p (File d) f)))"

definition os_Symlink :: "string \<Rightarrow> string \<Rightarrow> (fsys, unit) call" where
  "os_Symlink old new f = os_err new
     (if new = '''' \<or> old = '''' then (Inl ENOENT, f)
      else case create_at SysSymlink (Symlink old) (start_dir (cwd f) new) (comps new) f of
        Inl e \<Rightarrow> (Inl e, f)
      | Inr f' \<Rightarrow> (Inr (), f'))"

definition os_ReadFile :: "string \<Rightarrow> (fsys, string) call" where
  "os_ReadFile s f = os_err s
     (if s = '''' then (Inl ENOENT, f)
      else case resolve_at f (start_dir (cwd f) s) (comps s) of
        Inl e \<Rightarrow> (Inl e, f)
      | Inr p \<Rightarrow> (case fault f SysRead p of
          Some e \<Rightarrow> (Inl e, f)
        | None \<Rightarrow> (case entry_at (tree f) p of
            None \<Rightarrow> (Inl ENOENT, f)
          | Some (File d) \<Rightarrow> (Inr d, f)
          | Some Socket \<Rightarrow> (Inl ENXIO, f)
          | Some _ \<Rightarrow> (Inl EISDIR, f))))"

text \<open>
  \<^verbatim>\<open>os.RemoveAll\<close> removes the entry and everything below it and is content when there is
  nothing to remove. A mount point at the path or below it stays, with the directories that lead to it
  (EBUSY); its contents and everything else go.
\<close>

definition below :: "path \<Rightarrow> path \<Rightarrow> bool" where
  "below p q = strict_prefix p q"

definition prune :: "(path \<Rightarrow> bool) \<Rightarrow> fsys \<Rightarrow> fsys" where
  "prune P f = f\<lparr>tree := (\<lambda>q. if P q then None else tree f q)\<rparr>"

definition busy :: "fsys \<Rightarrow> path \<Rightarrow> path list" where
  "busy f p = filter (prefix p) (mounts f)"

definition os_RemoveAll :: "string \<Rightarrow> (fsys, unit) call" where
  "os_RemoveAll s f = os_err s
     (if s = '''' then (Inr (), f)
      else if last (split_on (CHR ''/'') s) = ''.'' then (Inl EINVAL, f)
      else case lresolve_at f (start_dir (cwd f) s) (comps s) of
        Inl e \<Rightarrow> ((if e = ENOENT then Inr () else Inl e), f)
      | Inr p \<Rightarrow> (case fault f SysRemove p of
          Some e \<Rightarrow> (Inl e, f)
        | None \<Rightarrow>
            if busy f p = [] then (Inr (), prune (prefix p) f)
            else (Inl EBUSY, prune (\<lambda>q. prefix p q \<and> \<not> list_ex (prefix q) (busy f p)) f)))"

text \<open>
  \<^verbatim>\<open>os.Remove\<close> removes one entry that is no mount point, a directory only when it is empty. \<^verbatim>\<open>unlink\<close> is
  the system call on an entry that is not a directory.
\<close>

definition os_Remove :: "string \<Rightarrow> (fsys, unit) call" where
  "os_Remove s f = os_err s
     (if s = '''' then (Inl ENOENT, f)
      else case lresolve_at f (start_dir (cwd f) s) (comps s) of
        Inl e \<Rightarrow> (Inl e, f)
      | Inr p \<Rightarrow> (case fault f SysRemove p of
          Some e \<Rightarrow> (Inl e, f)
        | None \<Rightarrow>
            if p = [] then (Inl EBUSY, f)
            else if tree f p = None then (Inl ENOENT, f)
            else if p \<in> set (mounts f) then (Inl EBUSY, f)
            else if tree f p = Some Dir \<and> (\<exists>q. below p q \<and> tree f q \<noteq> None) then (Inl ENOTEMPTY, f)
            else (Inr (), f\<lparr>tree := (tree f)(p := None)\<rparr>)))"

definition unlink :: "string \<Rightarrow> (fsys, unit) call" where
  "unlink s f = os_err s
     (case lresolve_at f (start_dir (cwd f) s) (comps s) of
        Inl e \<Rightarrow> (Inl e, f)
      | Inr p \<Rightarrow> (case fault f SysRemove p of
          Some e \<Rightarrow> (Inl e, f)
        | None \<Rightarrow>
            if entry_at (tree f) p = Some Dir then (Inl EISDIR, f)
            else if tree f p = None then (Inl ENOENT, f)
            else if p \<in> set (mounts f) then (Inl EBUSY, f)
            else (Inr (), f\<lparr>tree := (tree f)(p := None)\<rparr>)))"

text \<open>\<^verbatim>\<open>bind\<close> of a Unix socket makes the entry; any entry that is there already is in the way. The
  address has to fit the 108 bytes of the system call with its terminator.\<close>

definition bindUnix :: "string \<Rightarrow> (fsys, unit) call" where
  "bindUnix s f = os_err s
     (if 108 \<le> length s then (Inl EINVAL, f)
      else case create_at SysBind Socket (start_dir (cwd f) s) (comps s) f of
        Inl e \<Rightarrow> (Inl (if e = EEXIST then EADDRINUSE else e), f)
      | Inr f' \<Rightarrow> (Inr (), f'))"

definition IsNotExist :: "error \<Rightarrow> bool" where
  "IsNotExist e = (case e of OsErr ENOENT s \<Rightarrow> True | _ \<Rightarrow> False)"

section \<open>The calls on plain paths\<close>

text \<open>
  On an absolute path whose parent directories are real directories no link is followed, and
  every call acts on the entry that the path spells.
\<close>

definition dir_chain :: "(path \<rightharpoonup> entry) \<Rightarrow> path \<Rightarrow> bool" where
  "dir_chain t p = list_all (\<lambda>q. entry_at t q = Some Dir) (prefixes p)"

lemma dir_chain_iff: "dir_chain t p \<longleftrightarrow> (\<forall>q. prefix q p \<longrightarrow> entry_at t q = Some Dir)"
  by (auto simp: dir_chain_def list_all_iff)

lemma dir_chain_Nil [simp]: "dir_chain t []"
  by (simp add: dir_chain_iff entry_at_def)

lemma dir_chain_snoc [simp]: "dir_chain t (p @ [c]) \<longleftrightarrow> dir_chain t p \<and> t (p @ [c]) = Some Dir"
  by (auto simp: dir_chain_iff prefix_snoc entry_at_def)

lemma dir_chain_prefix: "dir_chain t p \<Longrightarrow> prefix q p \<Longrightarrow> dir_chain t q"
  by (auto simp: dir_chain_iff intro: prefix_order.trans)

lemma dir_chain_entry: "dir_chain t p \<Longrightarrow> entry_at t p = Some Dir"
  by (simp add: dir_chain_iff)

lemma entry_at_snoc [simp]: "entry_at t (p @ [c]) = t (p @ [c])"
  by (simp add: entry_at_def)

lemma dir_chain_upd:
  "dir_chain t p \<Longrightarrow> t q \<noteq> Some Dir \<or> e = Dir \<Longrightarrow> q \<noteq> [] \<Longrightarrow> dir_chain (t(q \<mapsto> e)) p"
  by (auto simp: dir_chain_iff entry_at_def)

lemma comps_abs_path: "list_all good_comp cs \<Longrightarrow> comps (abs_path cs) = cs"
  by (simp add: comps_def split_on_abs_path good_comp_def list_all_iff filter_id_conv)

lemma start_dir_abs [simp]: "cs \<noteq> [] \<Longrightarrow> start_dir d (abs_path cs) = []"
  using rooted_abs_path [of cs "[]"] by (simp add: start_dir_def)

lemma walk_dirs:
  assumes "list_all good_comp cs" "dir_chain t (cur @ cs)"
  shows "walk n t cur (cs @ ds) = walk n t (cur @ cs) ds"
  using assms
proof (induction cs arbitrary: cur)
  case Nil
  then show ?case by simp
next
  case (Cons c cs)
  then have "t (cur @ [c]) = Some Dir"
    using dir_chain_prefix [of t "cur @ c # cs" "cur @ [c]"] by simp
  with Cons show ?case by (simp add: walk.simps(2) good_comp_def)
qed

lemma walk_plain:
  assumes "list_all good_comp cs" "dir_chain t cs" "good_comp c" "\<nexists>l. t (cs @ [c]) = Some (Symlink l)"
  shows "walk n t [] (cs @ [c]) = Inr (cs @ [c])"
proof -
  have "walk n t [] (cs @ [c]) = walk n t cs [c]"
    using walk_dirs [of cs t "[]" n "[c]"] assms by simp
  with assms(3,4) show ?thesis
    by (auto simp: walk.simps(2) good_comp_def split: option.splits entry.splits)
qed

lemma walk_dir_chain:
  assumes "list_all good_comp cs" "dir_chain t cs"
  shows "walk n t [] cs = Inr cs"
  using walk_dirs [of cs t "[]" n "[]"] assms by simp

lemma lresolve_plain:
  assumes "list_all good_comp cs" "dir_chain (tree f) cs" "good_comp c"
  shows "lresolve_at f [] (cs @ [c]) = Inr (cs @ [c])"
  using assms
  by (simp add: lresolve_at_def resolve_at_def walk_dir_chain dir_chain_entry good_comp_def)

lemma stat_plain:
  assumes "list_all good_comp cs" "dir_chain (tree f) cs" "good_comp c"
    "\<nexists>l. tree f (cs @ [c]) = Some (Symlink l)"
  shows "stat_at f [] (cs @ [c]) =
    (case tree f (cs @ [c]) of None \<Rightarrow> Inl ENOENT | Some e \<Rightarrow> Inr e)"
  using assms by (simp add: stat_at_def resolve_at_def walk_plain)

lemma mkdirAll_chain:
  assumes "list_all good_comp (pre @ cs)" "dir_chain (tree f) (pre @ cs)"
  shows "mkdirAll_at [] pre (cs @ ds) f = mkdirAll_at [] (pre @ cs) ds f"
  using assms
proof (induction cs arbitrary: pre)
  case Nil
  then show ?case by simp
next
  case (Cons c cs)
  then have "dir_chain (tree f) (pre @ [c])"
    using dir_chain_prefix [of "tree f" "pre @ c # cs" "pre @ [c]"] by simp
  with Cons show ?case by (simp add: stat_plain)
qed

lemma os_MkdirAll_new:
  assumes "list_all good_comp cs" "dir_chain (tree f) cs" "good_comp c"
    "tree f (cs @ [c]) = None" "fault f SysMkdir (cs @ [c]) = None"
  shows "os_MkdirAll (abs_path (cs @ [c])) f = (Inr (), set_entry (cs @ [c]) Dir f)"
proof -
  have "mkdirAll_at [] [] (cs @ [c]) f = mkdirAll_at [] cs [c] f"
    using mkdirAll_chain [of "[]" cs f "[c]"] assms by simp
  moreover have "mkdirAll_at [] cs [c] f = (Inr (), set_entry (cs @ [c]) Dir f)"
    using assms by (simp add: stat_plain create_at_def lresolve_plain)
  ultimately show ?thesis
    using assms comps_abs_path [of "cs @ [c]"] start_dir_abs [of "cs @ [c]"]
    by (simp add: os_MkdirAll_def os_err_def)
qed

lemma os_MkdirAll_dir:
  assumes "list_all good_comp cs" "dir_chain (tree f) cs" "cs \<noteq> []"
  shows "os_MkdirAll (abs_path cs) f = (Inr (), f)"
  using assms mkdirAll_chain [of "[]" cs f "[]"] comps_abs_path [of cs] start_dir_abs [of cs]
  by (simp add: os_MkdirAll_def os_err_def)

lemma os_WriteFile_plain:
  assumes "list_all good_comp cs" "dir_chain (tree f) cs" "good_comp c"
    "tree f (cs @ [c]) \<notin> {Some Dir, Some Socket}" "\<nexists>l. tree f (cs @ [c]) = Some (Symlink l)"
    "fault f SysWrite (cs @ [c]) = None"
  shows "os_WriteFile (abs_path (cs @ [c])) d f = (Inr (), set_entry (cs @ [c]) (File d) f)"
  using assms comps_abs_path [of "cs @ [c]"] start_dir_abs [of "cs @ [c]"]
  by (simp add: os_WriteFile_def resolve_at_def walk_plain os_err_def)

lemma os_Symlink_plain:
  assumes "list_all good_comp cs" "dir_chain (tree f) cs" "good_comp c"
    "tree f (cs @ [c]) = None" "fault f SysSymlink (cs @ [c]) = None" "old \<noteq> []"
  shows "os_Symlink old (abs_path (cs @ [c])) f = (Inr (), set_entry (cs @ [c]) (Symlink old) f)"
  using assms comps_abs_path [of "cs @ [c]"] start_dir_abs [of "cs @ [c]"]
  by (simp add: os_Symlink_def create_at_def lresolve_plain os_err_def)

lemma os_ReadFile_plain:
  assumes "list_all good_comp cs" "dir_chain (tree f) cs" "good_comp c"
    "tree f (cs @ [c]) = Some (File d)" "fault f SysRead (cs @ [c]) = None"
  shows "os_ReadFile (abs_path (cs @ [c])) f = (Inr d, f)"
  using assms comps_abs_path [of "cs @ [c]"] start_dir_abs [of "cs @ [c]"]
  by (simp add: os_ReadFile_def resolve_at_def walk_plain os_err_def)

lemma os_RemoveAll_plain:
  assumes "list_all good_comp cs" "dir_chain (tree f) cs" "good_comp c"
    "fault f SysRemove (cs @ [c]) = None"
  shows "os_RemoveAll (abs_path (cs @ [c])) f =
    (if busy f (cs @ [c]) = [] then (Inr (), prune (prefix (cs @ [c])) f)
     else (Inl (OsErr EBUSY (abs_path (cs @ [c]))),
       prune (\<lambda>q. prefix (cs @ [c]) q \<and> \<not> list_ex (prefix q) (busy f (cs @ [c]))) f))"
proof -
  have "last (split_on (CHR ''/'') (abs_path (cs @ [c]))) = c"
    using assms split_on_abs_path [of "cs @ [c]"] by simp
  then show ?thesis
    using assms comps_abs_path [of "cs @ [c]"] start_dir_abs [of "cs @ [c]"]
    by (simp add: os_RemoveAll_def lresolve_plain os_err_def good_comp_def)
qed

lemma set_entry_sel [simp]:
  "tree (set_entry p e f) = (tree f)(p \<mapsto> e)" "fault (set_entry p e f) = fault f"
  "cwd (set_entry p e f) = cwd f" "mounts (set_entry p e f) = mounts f"
  by (simp_all add: set_entry_def)

lemma set_entry_same: "tree f p = Some e \<Longrightarrow> set_entry p e f = f"
  by (simp add: set_entry_def fun_upd_idem)

text \<open>Making one directory in an existing one, whether or not it is there already.\<close>

lemma os_MkdirAll_plain:
  assumes "list_all good_comp cs" "dir_chain (tree f) cs" "good_comp c"
    "tree f (cs @ [c]) = None \<or> tree f (cs @ [c]) = Some Dir" "fault f SysMkdir (cs @ [c]) = None"
  shows "os_MkdirAll (abs_path (cs @ [c])) f = (Inr (), set_entry (cs @ [c]) Dir f)"
proof (cases "tree f (cs @ [c]) = None")
  case True
  with assms show ?thesis by (intro os_MkdirAll_new)
next
  case False
  with assms have "tree f (cs @ [c]) = Some Dir" by simp
  then show ?thesis
    using os_MkdirAll_dir [of "cs @ [c]" f] assms by (simp add: set_entry_same)
qed

text \<open>A path through a relative symbolic link is the path through its target.\<close>

lemma walk_link:
  assumes "list_all good_comp cs" "dir_chain t cs" "good_comp c"
    "t (cs @ [c]) = Some (Symlink l)" "\<not> is_rooted l"
  shows "walk (Suc n) t [] (cs @ c # rest) = walk n t [] (cs @ comps l @ rest)"
proof -
  have "walk (Suc n) t [] (cs @ c # rest) = walk (Suc n) t cs (c # rest)"
    using walk_dirs [of cs t "[]" "Suc n" "c # rest"] assms by simp
  also have "\<dots> = walk n t cs (comps l @ rest)"
    using assms by (simp add: walk.simps(2) good_comp_def start_dir_def)
  also have "\<dots> = walk n t [] (cs @ comps l @ rest)"
    using walk_dirs [of cs t "[]" n "comps l @ rest"] assms by simp
  finally show ?thesis .
qed

lemma os_ReadFile_link:
  assumes "list_all good_comp cs" "dir_chain (tree f) cs" "good_comp c"
    "tree f (cs @ [c]) = Some (Symlink l)" "\<not> is_rooted l"
    "list_all good_comp (comps l @ rest)" "good_comp x"
    "dir_chain (tree f) (cs @ comps l @ rest)"
    "tree f (cs @ comps l @ rest @ [x]) = Some (File d)" "\<forall>sc q. fault f sc q = None"
  shows "os_ReadFile (abs_path (cs @ c # rest @ [x])) f = (Inr d, f)"
proof -
  have "walk max_links (tree f) [] (cs @ c # rest @ [x])
      = walk 39 (tree f) [] ((cs @ comps l @ rest) @ [x])"
    using walk_link [OF assms(1-5), of 39 "rest @ [x]"] by (simp add: max_links_def)
  also have "\<dots> = Inr ((cs @ comps l @ rest) @ [x])"
    by (rule walk_plain) (use assms in auto)
  finally show ?thesis
    using assms comps_abs_path [of "cs @ c # rest @ [x]"] start_dir_abs [of "cs @ c # rest @ [x]"]
    by (auto simp: os_ReadFile_def resolve_at_def os_err_def entry_at_def)
qed

lemma os_Remove_plain:
  assumes "list_all good_comp cs" "dir_chain (tree f) cs" "good_comp c"
    "fault f SysRemove (cs @ [c]) = None"
  shows "os_Remove (abs_path (cs @ [c])) f =
    (if tree f (cs @ [c]) = None then (Inl (OsErr ENOENT (abs_path (cs @ [c]))), f)
     else if cs @ [c] \<in> set (mounts f) then (Inl (OsErr EBUSY (abs_path (cs @ [c]))), f)
     else if tree f (cs @ [c]) = Some Dir \<and> (\<exists>q. below (cs @ [c]) q \<and> tree f q \<noteq> None)
     then (Inl (OsErr ENOTEMPTY (abs_path (cs @ [c]))), f)
     else (Inr (), f\<lparr>tree := (tree f)(cs @ [c] := None)\<rparr>))"
  using assms comps_abs_path [of "cs @ [c]"] start_dir_abs [of "cs @ [c]"]
  by (auto simp: os_Remove_def lresolve_plain os_err_def)

lemma bindUnix_plain:
  assumes "list_all good_comp cs" "dir_chain (tree f) cs" "good_comp c"
    "length (abs_path (cs @ [c])) < 108" "tree f (cs @ [c]) = None" "fault f SysBind (cs @ [c]) = None"
  shows "bindUnix (abs_path (cs @ [c])) f = (Inr (), set_entry (cs @ [c]) Socket f)"
  using assms comps_abs_path [of "cs @ [c]"] start_dir_abs [of "cs @ [c]"]
  by (simp add: bindUnix_def create_at_def lresolve_plain os_err_def)

lemma unlink_plain:
  assumes "list_all good_comp cs" "dir_chain (tree f) cs" "good_comp c"
    "tree f (cs @ [c]) = Some Socket" "fault f SysRemove (cs @ [c]) = None" "cs @ [c] \<notin> set (mounts f)"
  shows "unlink (abs_path (cs @ [c])) f = (Inr (), f\<lparr>tree := (tree f)(cs @ [c] := None)\<rparr>)"
  using assms comps_abs_path [of "cs @ [c]"] start_dir_abs [of "cs @ [c]"]
  by (simp add: unlink_def lresolve_plain os_err_def)

end
