(* ===== verification/NodeData.thy ===== *)
theory NodeData
  imports GoOs Util
begin

text \<open>
  The part of \<^verbatim>\<open>internal/csi/node.go\<close> that writes a published volume: one directory per address
  with the address and its ports as files, and the symbolic link \<^verbatim>\<open>default-address\<close>.
\<close>

definition writeAddress :: "string \<Rightarrow> ingressAddress \<Rightarrow> (fsys, unit) go" where
  "writeAddress targetPath data =
     bindG (callG (os_WriteFile (filepath_Join [targetPath, ''address'']) (Address data))) (\<lambda>_.
     let listenerAddressPortPath = filepath_Join [targetPath, ''ports''] in
     bindG (callG (os_MkdirAll listenerAddressPortPath)) (\<lambda>_.
     bindG (forG (Ports data) (\<lambda>(name, port).
        callG (os_WriteFile (filepath_Join [listenerAddressPortPath, name]) (Itoa (sint port)))))
     (\<lambda>_. retG ())))"

definition symlinkToDefaultAddress :: "string \<Rightarrow> string \<Rightarrow> (fsys, unit) go" where
  "symlinkToDefaultAddress defaultAddressPath targetPath =
     (let sourcePath = TrimPrefix (TrimPrefix defaultAddressPath targetPath) ''/'';
          destPath = filepath_Join [targetPath, ''default-address'']
      in callG (os_Symlink sourcePath destPath))"

text \<open>One round of the loop in \<^verbatim>\<open>writeData\<close>; it returns the path it made, which the loop keeps as
  the default.\<close>

definition writeEntry :: "string \<Rightarrow> ingressAddress \<Rightarrow> (fsys, string) go" where
  "writeEntry addressesPath listenerData =
     (let listenerAddressPath = filepath_Join [addressesPath, Address listenerData]
      in bindG (callG (os_MkdirAll listenerAddressPath)) (\<lambda>_.
         bindG (writeAddress listenerAddressPath listenerData) (\<lambda>_.
         retG listenerAddressPath)))"

definition writeData :: "string \<Rightarrow> ingressAddress list option \<Rightarrow> (fsys, unit) go" where
  "writeData targetPath data =
     (case data of
        None \<Rightarrow> failG (NewErr ''no data to write to target path, data is nil'')
      | Some ds \<Rightarrow>
          let addressesPath = filepath_Join [targetPath, ''addresses''] in
          bindG (callG (os_MkdirAll addressesPath)) (\<lambda>_.
          bindG (forG ds (writeEntry addressesPath)) (\<lambda>paths.
          symlinkToDefaultAddress (if paths = [] then '''' else last paths) targetPath)))"

section \<open>The directory tree that is written\<close>

text \<open>
  The intended result of each function, as a pure change of the tree. \<open>A\<close> is the path of the
  \<^verbatim>\<open>addresses\<close> directory.
\<close>

definition putPort :: "path \<Rightarrow> string \<times> int32 \<Rightarrow> fsys \<Rightarrow> fsys" where
  "putPort base = (\<lambda>(n, p). set_entry (base @ [''ports'', n]) (File (Itoa (sint p))))"

definition putAddress :: "path \<Rightarrow> ingressAddress \<Rightarrow> fsys \<Rightarrow> fsys" where
  "putAddress base d f = fold (putPort base) (Ports d)
     (set_entry (base @ [''ports'']) Dir (set_entry (base @ [''address'']) (File (Address d)) f))"

definition putEntry :: "path \<Rightarrow> ingressAddress \<Rightarrow> fsys \<Rightarrow> fsys" where
  "putEntry A d f = putAddress (A @ [Address d]) d (set_entry (A @ [Address d]) Dir f)"

text \<open>Every name that is written is a proper path component.\<close>

definition good_data :: "ingressAddress \<Rightarrow> bool" where
  "good_data d = (good_comp (Address d) \<and> list_all (\<lambda>(n, p). good_comp n) (Ports d))"

text \<open>\<open>vol_ok A f\<close>: below \<open>A\<close> there is nothing but what such writes leave there, and no call on
  the volume fails.\<close>

definition vol_ok :: "path \<Rightarrow> fsys \<Rightarrow> bool" where
  "vol_ok A f \<longleftrightarrow> list_all good_comp A \<and> dir_chain (tree f) A
     \<and> (\<forall>sc q. fault f sc q = None)
     \<and> (\<forall>a. tree f (A @ [a]) \<in> {None, Some Dir})
     \<and> (\<forall>a. \<exists>x. tree f (A @ [a, ''address'']) \<in> {None, Some (File x)})
     \<and> (\<forall>a. tree f (A @ [a, ''ports'']) \<in> {None, Some Dir})
     \<and> (\<forall>a n. \<exists>x. tree f (A @ [a, ''ports'', n]) \<in> {None, Some (File x)})"

lemma good_names [simp]:
  "good_comp ''address''" "good_comp ''ports''" "good_comp ''addresses''"
  "good_comp ''default-address''"
  by (simp_all add: good_comp_def)

lemma putPort_sel [simp]:
  "tree (putPort base (n, p) f) = (tree f)(base @ [''ports'', n] \<mapsto> File (Itoa (sint p)))"
  "fault (putPort base np f) = fault f" "mounts (putPort base np f) = mounts f" "cwd (putPort base np f) = cwd f"
  by (simp_all add: putPort_def split_beta)

text \<open>The loop over the ports.\<close>

lemma forG_ports:
  assumes "list_all good_comp base" "list_all (\<lambda>(n, p). good_comp n) ports"
    "dir_chain (tree f) (base @ [''ports''])" "\<forall>sc q. fault f sc q = None"
    "\<forall>n. \<exists>x. tree f (base @ [''ports'', n]) \<in> {None, Some (File x)}"
  shows "forG ports (\<lambda>(name, port). callG (os_WriteFile
       (filepath_Join [abs_path (base @ [''ports'']), name]) (Itoa (sint port)))) f
     = (Ok (map (\<lambda>_. ()) ports), fold (putPort base) ports f)"
  using assms(2-)
proof (induction ports arbitrary: f)
  case Nil
  then show ?case by simp
next
  case (Cons np ports)
  obtain n p where np: "np = (n, p)" by force
  let ?B = "base @ [''ports'']"
  have n: "good_comp n" using Cons.prems(1) np by simp
  have join: "filepath_Join [abs_path ?B, n] = abs_path (?B @ [n])"
    by (rule filepath_Join_abs_path) (use assms(1) n in simp_all)
  obtain x where x: "tree f (?B @ [n]) \<in> {None, Some (File x)}" using Cons.prems(4) by auto
  then have "os_WriteFile (abs_path (?B @ [n])) (Itoa (sint p)) f = (Inr (), putPort base np f)"
    using os_WriteFile_plain [of ?B f n "Itoa (sint p)"] assms(1) n Cons.prems(2,3) np
    by (auto simp: putPort_def)
  moreover have "forG ports (\<lambda>(name, port). callG (os_WriteFile
       (filepath_Join [abs_path ?B, name]) (Itoa (sint port)))) (putPort base np f)
     = (Ok (map (\<lambda>_. ()) ports), fold (putPort base) ports (putPort base np f))"
  proof (rule Cons.IH)
    show "dir_chain (tree (putPort base np f)) ?B"
      using Cons.prems(2) x np by (auto simp del: dir_chain_snoc intro!: dir_chain_upd)
  qed (use Cons.prems np in auto)
  ultimately show ?case using join np by simp
qed

lemma tree_fold_putPort:
  "tree (fold (putPort base) ports f) q =
     (case if \<exists>n. q = base @ [''ports'', n] then map_of (rev ports) (last q) else None of
        Some p \<Rightarrow> Some (File (Itoa (sint p))) | None \<Rightarrow> tree f q)"
proof (induction ports arbitrary: f)
  case Nil
  then show ?case by simp
next
  case (Cons np ports)
  obtain n p where np: "np = (n, p)" by force
  show ?case
  proof (cases "\<exists>n. q = base @ [''ports'', n]")
    case True
    then show ?thesis
      using np by (auto simp: Cons map_add_def split: option.splits)
  next
    case False
    then show ?thesis using np by (auto simp: Cons)
  qed
qed

lemma fault_fold_putPort [simp]: "fault (fold (putPort base) ports f) = fault f"
  "mounts (fold (putPort base) ports f) = mounts f" "cwd (fold (putPort base) ports f) = cwd f"
  by (induction ports arbitrary: f) auto

text \<open>What one entry leaves in the tree, path by path.\<close>

lemma tree_putEntry:
  "tree (putEntry A d f) (A @ [a]) = (if a = Address d then Some Dir else tree f (A @ [a]))"
  "tree (putEntry A d f) (A @ [a, ''address'']) =
     (if a = Address d then Some (File a) else tree f (A @ [a, ''address'']))"
  "tree (putEntry A d f) (A @ [a, ''ports'']) =
     (if a = Address d then Some Dir else tree f (A @ [a, ''ports'']))"
  "tree (putEntry A d f) (A @ [a, ''ports'', n]) =
     (case if a = Address d then map_of (rev (Ports d)) n else None of
        Some p \<Rightarrow> Some (File (Itoa (sint p))) | None \<Rightarrow> tree f (A @ [a, ''ports'', n]))"
  by (auto simp: putEntry_def putAddress_def tree_fold_putPort split: option.splits)

lemma tree_putEntry_frame:
  "\<not> strict_prefix A q \<Longrightarrow> tree (putEntry A d f) q = tree f q"
  by (auto simp: putEntry_def putAddress_def tree_fold_putPort strict_prefix_def split: option.splits)

lemma fault_putEntry [simp]: "fault (putEntry A d f) = fault f" "mounts (putEntry A d f) = mounts f"
  by (simp_all add: putEntry_def putAddress_def)

lemma dir_chain_cong:
  "(\<And>q. prefix q p \<Longrightarrow> t q = t' q) \<Longrightarrow> dir_chain t p = dir_chain t' p"
  by (auto simp: dir_chain_iff entry_at_def)

lemma vol_ok_putEntry: "vol_ok A f \<Longrightarrow> vol_ok A (putEntry A d f)"
proof -
  assume ok: "vol_ok A f"
  have "dir_chain (tree (putEntry A d f)) A = dir_chain (tree f) A"
    by (rule dir_chain_cong) (auto intro: tree_putEntry_frame dest: prefix_order.leD)
  with ok show ?thesis
    by (auto simp: vol_ok_def tree_putEntry split: option.splits)
qed

section \<open>The functions write that tree\<close>

text \<open>\<open>base_ok base f\<close>: the directory \<open>base\<close> of one address is ready to be written.\<close>

definition base_ok :: "path \<Rightarrow> fsys \<Rightarrow> bool" where
  "base_ok base f \<longleftrightarrow> list_all good_comp base \<and> dir_chain (tree f) base \<and> base \<noteq> []
     \<and> (\<forall>sc q. fault f sc q = None)
     \<and> (\<exists>x. tree f (base @ [''address'']) \<in> {None, Some (File x)})
     \<and> tree f (base @ [''ports'']) \<in> {None, Some Dir}
     \<and> (\<forall>n. \<exists>x. tree f (base @ [''ports'', n]) \<in> {None, Some (File x)})"

lemma writeAddress_run:
  assumes "base_ok base f" "good_data d"
  shows "writeAddress (abs_path base) d f = (Ok (), putAddress base d f)"
proof -
  let ?f1 = "set_entry (base @ [''address'']) (File (Address d)) f"
  let ?f2 = "set_entry (base @ [''ports'']) Dir ?f1"
  have base: "list_all good_comp base" "base \<noteq> []" "dir_chain (tree f) base"
    "\<forall>sc q. fault f sc q = None"
    using assms(1) by (auto simp: base_ok_def)
  have join: "filepath_Join [abs_path base, ''address''] = abs_path (base @ [''address''])"
    "filepath_Join [abs_path base, ''ports''] = abs_path (base @ [''ports''])"
    by (simp_all add: filepath_Join_abs_path base)
  have f1: "os_WriteFile (abs_path (base @ [''address''])) (Address d) f = (Inr (), ?f1)"
    using assms(1) by (intro os_WriteFile_plain) (auto simp: base_ok_def)
  have chain1: "dir_chain (tree ?f1) base"
    using base(3) assms(1) by (auto simp: base_ok_def intro!: dir_chain_upd)
  have f2: "os_MkdirAll (abs_path (base @ [''ports''])) ?f1 = (Inr (), ?f2)"
    using assms(1) chain1 by (intro os_MkdirAll_plain) (auto simp: base_ok_def)
  have chain2: "dir_chain (tree ?f2) (base @ [''ports''])"
    using chain1 by (auto intro!: dir_chain_upd)
  have "forG (Ports d) (\<lambda>(name, port). callG (os_WriteFile
       (filepath_Join [abs_path (base @ [''ports'']), name]) (Itoa (sint port)))) ?f2
     = (Ok (map (\<lambda>_. ()) (Ports d)), fold (putPort base) (Ports d) ?f2)"
    by (rule forG_ports)
      (use assms base chain2 in \<open>auto simp: good_data_def base_ok_def simp del: dir_chain_snoc\<close>)
  with f1 f2 show ?thesis
    by (simp add: writeAddress_def join putAddress_def Let_def)
qed

lemma base_ok_entry:
  assumes "vol_ok A f" "good_comp a"
  shows "base_ok (A @ [a]) (set_entry (A @ [a]) Dir f)"
proof -
  have "dir_chain ((tree f)(A @ [a] \<mapsto> Dir)) A"
    using assms(1) by (auto simp: vol_ok_def intro!: dir_chain_upd)
  with assms show ?thesis by (auto simp: base_ok_def vol_ok_def)
qed

lemma writeEntry_run:
  assumes "vol_ok A f" "A \<noteq> []" "good_data d"
  shows "writeEntry (abs_path A) d f = (Ok (abs_path (A @ [Address d])), putEntry A d f)"
proof -
  have a: "good_comp (Address d)" using assms(3) by (simp add: good_data_def)
  have A: "list_all good_comp A" using assms(1) by (simp add: vol_ok_def)
  have "os_MkdirAll (abs_path (A @ [Address d])) f = (Inr (), set_entry (A @ [Address d]) Dir f)"
    using assms(1) a by (intro os_MkdirAll_plain) (auto simp: vol_ok_def)
  moreover have "writeAddress (abs_path (A @ [Address d])) d (set_entry (A @ [Address d]) Dir f)
      = (Ok (), putEntry A d f)"
    unfolding putEntry_def by (rule writeAddress_run [OF base_ok_entry [OF assms(1) a] assms(3)])
  ultimately show ?thesis
    by (simp add: writeEntry_def filepath_Join_abs_path [OF A assms(2) a] Let_def)
qed

lemma forG_writeEntry:
  "vol_ok A f \<Longrightarrow> A \<noteq> [] \<Longrightarrow> list_all good_data ds \<Longrightarrow>
     forG ds (writeEntry (abs_path A)) f
       = (Ok (map (\<lambda>d. abs_path (A @ [Address d])) ds), fold (putEntry A) ds f)"
proof (induction ds arbitrary: f)
  case Nil
  then show ?case by simp
next
  case (Cons d ds)
  then have "writeEntry (abs_path A) d f = (Ok (abs_path (A @ [Address d])), putEntry A d f)"
    by (intro writeEntry_run) auto
  with Cons show ?case by (simp add: vol_ok_putEntry)
qed

text \<open>A fresh volume: the target directory exists and is empty, as after mounting a tmpfs.\<close>

definition fresh_volume :: "path \<Rightarrow> fsys \<Rightarrow> bool" where
  "fresh_volume cs f \<longleftrightarrow> cs \<noteq> [] \<and> list_all good_comp cs \<and> dir_chain (tree f) cs
     \<and> (\<forall>q. strict_prefix cs q \<longrightarrow> tree f q = None) \<and> (\<forall>sc q. fault f sc q = None)"

definition writtenTree :: "path \<Rightarrow> ingressAddress list \<Rightarrow> fsys \<Rightarrow> fsys" where
  "writtenTree cs ds f =
     set_entry (cs @ [''default-address'']) (Symlink (''addresses/'' @ Address (last ds)))
       (fold (putEntry (cs @ [''addresses''])) ds (set_entry (cs @ [''addresses'']) Dir f))"

lemma vol_ok_fresh:
  assumes "fresh_volume cs f"
  shows "vol_ok (cs @ [''addresses'']) (set_entry (cs @ [''addresses'']) Dir f)"
proof -
  have none: "tree f (cs @ x # q) = None" for x q
    using assms by (simp add: fresh_volume_def strict_prefix_def)
  have "dir_chain ((tree f)(cs @ [''addresses''] \<mapsto> Dir)) cs"
    using assms by (auto simp: fresh_volume_def intro!: dir_chain_upd)
  with assms none show ?thesis by (simp add: vol_ok_def fresh_volume_def)
qed

lemma tree_fold_putEntry_frame:
  "\<not> strict_prefix A q \<Longrightarrow> tree (fold (putEntry A) ds f) q = tree f q"
  by (induction ds arbitrary: f) (auto simp: tree_putEntry_frame)

lemma fault_fold_putEntry [simp]: "fault (fold (putEntry A) ds f) = fault f"
  "mounts (fold (putEntry A) ds f) = mounts f"
  by (induction ds arbitrary: f) auto

lemma symlink_source:
  "TrimPrefix (TrimPrefix (abs_path (cs @ [''addresses'', a])) (abs_path cs)) ''/'' = ''addresses/'' @ a"
  by (simp add: abs_path_simps) (simp add: TrimPrefix_def HasPrefix_def)

lemma writeData_run:
  assumes "fresh_volume cs f" "ds \<noteq> []" "list_all good_data ds"
  shows "writeData (abs_path cs) (Some ds) f = (Ok (), writtenTree cs ds f)"
proof -
  let ?A = "cs @ [''addresses'']" and ?D = "cs @ [''default-address'']"
  let ?f1 = "set_entry ?A Dir f"
  let ?f2 = "fold (putEntry ?A) ds ?f1"
  have cs: "cs \<noteq> []" "list_all good_comp cs" "dir_chain (tree f) cs" "\<forall>sc q. fault f sc q = None"
    and none: "tree f (cs @ x # q) = None" for x q
    using assms(1) by (auto simp: fresh_volume_def strict_prefix_def)
  have join: "filepath_Join [abs_path cs, ''addresses''] = abs_path ?A"
    "filepath_Join [abs_path cs, ''default-address''] = abs_path ?D"
    by (simp_all add: filepath_Join_abs_path cs)
  have f1: "os_MkdirAll (abs_path ?A) f = (Inr (), ?f1)"
    using cs none by (intro os_MkdirAll_plain) auto
  have f2: "forG ds (writeEntry (abs_path ?A)) ?f1
      = (Ok (map (\<lambda>d. abs_path (?A @ [Address d])) ds), ?f2)"
    by (rule forG_writeEntry [OF vol_ok_fresh [OF assms(1)]]) (use assms in simp_all)
  have chain: "dir_chain (tree ?f2) cs = dir_chain (tree f) cs"
    by (rule dir_chain_cong)
      (auto simp: tree_fold_putEntry_frame strict_prefix_def prefix_def)
  have "tree ?f2 ?D = None"
    by (subst tree_fold_putEntry_frame) (auto simp: none strict_prefix_def prefix_def)
  then have f3: "os_Symlink (''addresses/'' @ Address (last ds)) (abs_path ?D) ?f2
      = (Inr (), writtenTree cs ds f)"
    unfolding writtenTree_def using cs chain by (intro os_Symlink_plain) auto
  have default: "last (map (\<lambda>d. abs_path (?A @ [Address d])) ds)
      = abs_path (cs @ [''addresses'', Address (last ds)])"
    using assms(2) by (simp add: last_map)
  show ?thesis
    using f1 f2 f3 assms(2)
    by (simp add: writeData_def symlinkToDefaultAddress_def join default symlink_source Let_def last_map)
qed

section \<open>Reading the volume\<close>

lemma putEntry_other:
  assumes "Address e \<noteq> a"
  shows "tree (putEntry A e f) (A @ a # q) = tree f (A @ a # q)"
  using assms
  by (auto simp: putEntry_def putAddress_def tree_fold_putPort split: option.splits)

lemma fold_putEntry_other:
  "\<forall>e\<in>set ds. Address e \<noteq> a \<Longrightarrow> tree (fold (putEntry A) ds f) (A @ a # q) = tree f (A @ a # q)"
  by (induction ds arbitrary: f) (auto simp: putEntry_other)

text \<open>The files of the last entry with a given address.\<close>

lemma fold_putEntry_last:
  assumes "ds = pre @ d # post" "\<forall>e\<in>set post. Address e \<noteq> Address d" "wf_map (Ports d)"
  shows "tree (fold (putEntry A) ds f) (A @ [Address d]) = Some Dir"
    and "tree (fold (putEntry A) ds f) (A @ [Address d, ''address'']) = Some (File (Address d))"
    and "tree (fold (putEntry A) ds f) (A @ [Address d, ''ports'']) = Some Dir"
    and "map_of (Ports d) n = Some p \<Longrightarrow>
      tree (fold (putEntry A) ds f) (A @ [Address d, ''ports'', n]) = Some (File (Itoa (sint p)))"
proof -
  have "map_of (rev (Ports d)) = map_of (Ports d)"
    using assms(3) by (simp add: map_of_rev_wf)
  then show "tree (fold (putEntry A) ds f) (A @ [Address d]) = Some Dir"
    and "tree (fold (putEntry A) ds f) (A @ [Address d, ''address'']) = Some (File (Address d))"
    and "tree (fold (putEntry A) ds f) (A @ [Address d, ''ports'']) = Some Dir"
    and "map_of (Ports d) n = Some p \<Longrightarrow>
      tree (fold (putEntry A) ds f) (A @ [Address d, ''ports'', n]) = Some (File (Itoa (sint p)))"
    using assms(1,2) by (simp_all add: fold_putEntry_other tree_putEntry)
qed

lemma writtenTree_inside:
  "tree (writtenTree cs ds f) (cs @ ''addresses'' # q) =
     tree (fold (putEntry (cs @ [''addresses''])) ds (set_entry (cs @ [''addresses'']) Dir f))
       (cs @ ''addresses'' # q)"
  by (simp add: writtenTree_def)

lemma writtenTree_frame:
  assumes "\<not> strict_prefix cs q"
  shows "tree (writtenTree cs ds f) q = tree f q"
proof -
  have "\<not> strict_prefix (cs @ [''addresses'']) q" "q \<noteq> cs @ [''addresses'']"
    "q \<noteq> cs @ [''default-address'']"
    using assms by (auto simp: strict_prefix_def prefix_def)
  then show ?thesis by (simp add: writtenTree_def tree_fold_putEntry_frame)
qed

lemma fault_writtenTree [simp]: "fault (writtenTree cs ds f) = fault f"
  "mounts (writtenTree cs ds f) = mounts f"
  by (simp_all add: writtenTree_def)

lemma writtenTree_chain:
  assumes "fresh_volume cs f"
  shows "dir_chain (tree (writtenTree cs ds f)) (cs @ [''addresses''])"
proof -
  have "dir_chain (tree (writtenTree cs ds f)) cs = dir_chain (tree f) cs"
    by (rule dir_chain_cong) (auto intro!: writtenTree_frame dest: prefix_order.leD)
  moreover have "tree (writtenTree cs ds f) (cs @ [''addresses'']) = Some Dir"
    by (subst writtenTree_inside [of cs ds f "[]"]) (simp add: tree_fold_putEntry_frame)
  ultimately show ?thesis using assms by (simp add: fresh_volume_def)
qed

lemma writtenTree_entry:
  assumes "fresh_volume cs f" "ds = pre @ d # post" "\<forall>e\<in>set post. Address e \<noteq> Address d"
    "wf_map (Ports d)"
  shows "dir_chain (tree (writtenTree cs ds f)) (cs @ [''addresses'', Address d])"
    and "tree (writtenTree cs ds f) (cs @ [''addresses'', Address d, ''address''])
      = Some (File (Address d))"
    and "dir_chain (tree (writtenTree cs ds f)) (cs @ [''addresses'', Address d, ''ports''])"
    and "map_of (Ports d) n = Some p \<Longrightarrow>
      tree (writtenTree cs ds f) (cs @ [''addresses'', Address d, ''ports'', n])
        = Some (File (Itoa (sint p)))"
proof -
  note entry = fold_putEntry_last [OF assms(2-4), where A = "cs @ [''addresses'']"
      and f = "set_entry (cs @ [''addresses'']) Dir f", simplified]
  note chain = writtenTree_chain [OF assms(1), of ds]
  show c: "dir_chain (tree (writtenTree cs ds f)) (cs @ [''addresses'', Address d])"
    using chain entry(1) dir_chain_snoc [of _ "cs @ [''addresses'']" "Address d"]
    by (simp add: writtenTree_inside)
  show "tree (writtenTree cs ds f) (cs @ [''addresses'', Address d, ''address''])
      = Some (File (Address d))"
    using entry(2) by (simp add: writtenTree_inside)
  show "dir_chain (tree (writtenTree cs ds f)) (cs @ [''addresses'', Address d, ''ports''])"
    using c entry(3) dir_chain_snoc [of _ "cs @ [''addresses'', Address d]" "''ports''"]
    by (simp add: writtenTree_inside)
  show "map_of (Ports d) n = Some p \<Longrightarrow>
      tree (writtenTree cs ds f) (cs @ [''addresses'', Address d, ''ports'', n])
        = Some (File (Itoa (sint p)))"
    using entry(4) by (simp add: writtenTree_inside)
qed

lemma comps_default: "good_comp a \<Longrightarrow> comps (''addresses/'' @ a) = [''addresses'', a]"
proof -
  assume a: "good_comp a"
  have "split_on (CHR ''/'') (''addresses'' @ CHR ''/'' # a) = [''addresses'', a]"
    using a by (subst split_on_append) (simp_all add: split_on_no_sep good_comp_def)
  with a show ?thesis by (simp add: comps_def good_comp_def)
qed

lemma read_default:
  assumes "fresh_volume cs f" "ds \<noteq> []" "good_comp (Address (last ds))" "list_all good_comp rest"
    "good_comp x"
    and chain: "dir_chain (tree (writtenTree cs ds f)) (cs @ [''addresses'', Address (last ds)] @ rest)"
    and content: "tree (writtenTree cs ds f) (cs @ [''addresses'', Address (last ds)] @ rest @ [x])
      = Some (File c)"
  shows "os_ReadFile (abs_path (cs @ ''default-address'' # rest @ [x])) (writtenTree cs ds f)
    = (Inr c, writtenTree cs ds f)"
proof (rule os_ReadFile_link [where l = "''addresses/'' @ Address (last ds)"])
  show "dir_chain (tree (writtenTree cs ds f)) cs"
    using writtenTree_chain [OF assms(1)] by simp
  show "tree (writtenTree cs ds f) (cs @ [''default-address''])
      = Some (Symlink (''addresses/'' @ Address (last ds)))"
    by (simp add: writtenTree_def)
  show "\<not> is_rooted (''addresses/'' @ Address (last ds))"
    by (simp add: is_rooted_def HasPrefix_def)
qed (use assms comps_default [OF assms(3)] in \<open>auto simp: fresh_volume_def\<close>)

section \<open>Properties\<close>

text \<open>A small volume on which the witnesses run: the target directory \<^verbatim>\<open>/v\<close> and two addresses.\<close>

definition exampleFs :: fsys where
  "exampleFs = \<lparr>tree = [[''v''] \<mapsto> Dir], cwd = [], mounts = [], fault = (\<lambda>_ _. None)\<rparr>"

definition exampleData :: "ingressAddress list" where
  "exampleData =
     [mkIngressAddress (mkAddressInfo ''10.0.0.1'' AddressTypeIP) [(''http'', 80)],
      mkIngressAddress (mkAddressInfo ''lb.example'' AddressTypeHostname) [(''http'', 80), (''web'', 443)]]"

lemma example_fresh: "fresh_volume [''v''] exampleFs"
proof -
  have "dir_chain (tree exampleFs) ([] @ [''v''])"
    by (subst dir_chain_snoc) (simp add: exampleFs_def)
  then show ?thesis
    by (auto simp: fresh_volume_def exampleFs_def good_comp_def strict_prefix_def)
qed

lemma example_good: "list_all good_data exampleData" "exampleData \<noteq> []"
  by (simp_all add: exampleData_def good_data_def good_comp_def)

text \<open>Reading every address, and the default one, back from the written tree.\<close>

lemma written_default:
  assumes "fresh_volume cs f" "list_all good_data ds" "ds \<noteq> []" "wf_map (Ports (last ds))"
  shows "os_ReadFile (abs_path (cs @ [''default-address'', ''address''])) (writtenTree cs ds f)
      = (Inr (Address (last ds)), writtenTree cs ds f)
    \<and> (\<forall>n p. map_of (Ports (last ds)) n = Some p \<longrightarrow>
          os_ReadFile (abs_path (cs @ [''default-address'', ''ports'', n])) (writtenTree cs ds f)
            = (Inr (Itoa (sint p)), writtenTree cs ds f))"
proof (intro conjI allI impI)
  let ?f = "writtenTree cs ds f"
  have ds: "ds = butlast ds @ last ds # []" using assms(3) by simp
  have good: "good_comp (Address (last ds))"
    and names: "map_of (Ports (last ds)) n = Some p \<Longrightarrow> good_comp n" for n p
    using assms(2,3) by (auto simp: good_data_def list_all_iff dest!: map_of_SomeD)
  note entry = writtenTree_entry [OF assms(1) ds _ assms(4), simplified]
  show "os_ReadFile (abs_path (cs @ [''default-address'', ''address''])) ?f
      = (Inr (Address (last ds)), ?f)"
    using read_default [OF assms(1,3) good, of "[]" "''address''" "Address (last ds)"] entry(1,2)
    by simp
  fix n p assume np: "map_of (Ports (last ds)) n = Some p"
  show "os_ReadFile (abs_path (cs @ [''default-address'', ''ports'', n])) ?f
      = (Inr (Itoa (sint p)), ?f)"
    using read_default [OF assms(1,3) good, of "[''ports'']" n "Itoa (sint p)"] names [OF np]
      entry(3) entry(4) [OF np] by simp
qed

lemma split_last_address:
  "d \<in> set ds \<Longrightarrow> \<exists>pre e post. ds = pre @ e # post \<and> Address e = Address d
     \<and> (\<forall>x\<in>set post. Address x \<noteq> Address d)"
  using split_list_last_prop [of ds "\<lambda>e. Address e = Address d"] by auto

lemma written_entry:
  assumes "fresh_volume cs f" "list_all good_data ds" "ds = pre @ d # post"
    "\<forall>e\<in>set post. Address e \<noteq> Address d" "wf_map (Ports d)"
  shows "os_ReadFile (abs_path (cs @ [''addresses'', Address d, ''address''])) (writtenTree cs ds f)
      = (Inr (Address d), writtenTree cs ds f)"
    and "map_of (Ports d) n = Some p \<Longrightarrow>
      os_ReadFile (abs_path (cs @ [''addresses'', Address d, ''ports'', n])) (writtenTree cs ds f)
        = (Inr (Itoa (sint p)), writtenTree cs ds f)"
proof -
  let ?f = "writtenTree cs ds f"
  have good: "list_all good_comp cs" "good_comp (Address d)" "\<forall>sc q. fault ?f sc q = None"
    and names: "map_of (Ports d) n = Some p \<Longrightarrow> good_comp n" for n p
    using assms(1-3) by (auto simp: fresh_volume_def good_data_def list_all_iff dest!: map_of_SomeD)
  note entry = writtenTree_entry [OF assms(1,3-5)]
  show "os_ReadFile (abs_path (cs @ [''addresses'', Address d, ''address''])) ?f = (Inr (Address d), ?f)"
    using os_ReadFile_plain [of "cs @ [''addresses'', Address d]" ?f "''address''" "Address d"]
      good entry(1,2) by simp
  assume np: "map_of (Ports d) n = Some p"
  show "os_ReadFile (abs_path (cs @ [''addresses'', Address d, ''ports'', n])) ?f
      = (Inr (Itoa (sint p)), ?f)"
    using os_ReadFile_plain [of "cs @ [''addresses'', Address d, ''ports'']" ?f n "Itoa (sint p)"]
      good names [OF np] entry(3) entry(4) [OF np] by simp
qed

lemma written_address:
  assumes "fresh_volume cs f" "list_all good_data ds" "d \<in> set ds" "\<forall>d\<in>set ds. wf_map (Ports d)"
  shows "os_ReadFile (abs_path (cs @ [''addresses'', Address d, ''address''])) (writtenTree cs ds f)
      = (Inr (Address d), writtenTree cs ds f)"
proof -
  obtain pre e post where e: "ds = pre @ e # post" "Address e = Address d"
      "\<forall>x\<in>set post. Address x \<noteq> Address e"
    using split_last_address [OF assms(3)] by auto
  with written_entry(1) [OF assms(1,2) e(1,3)] assms(4) show ?thesis by simp
qed

text \<open>C21. Writing the volume succeeds on a fresh target directory when every address and port name
  is a proper path component, and the files can be read back: for the last entry of each address,
  \<^verbatim>\<open>addresses/<address>/address\<close> holds the address and \<^verbatim>\<open>addresses/<address>/ports/<name>\<close> holds the
  decimal text of the port, which parses to the port again.\<close>

theorem writeData_readable:
  assumes "fresh_volume cs f" "list_all good_data ds" "ds = pre @ d # post"
    "\<forall>e\<in>set post. Address e \<noteq> Address d" "wf_map (Ports d)"
  shows "\<exists>f'. writeData (abs_path cs) (Some ds) f = (Ok (), f')
     \<and> os_ReadFile (abs_path (cs @ [''addresses'', Address d, ''address''])) f' = (Inr (Address d), f')
     \<and> (\<forall>n p. map_of (Ports d) n = Some p \<longrightarrow>
          os_ReadFile (abs_path (cs @ [''addresses'', Address d, ''ports'', n])) f'
            = (Inr (Itoa (sint p)), f') \<and> Atoi (Itoa (sint p)) = sint p)"
proof -
  have "ds \<noteq> []" using assms(3) by simp
  with writeData_run [OF assms(1) _ assms(2)] written_entry [OF assms] show ?thesis by auto
qed

theorem writeData_readable_witness:
  "\<exists>f'. writeData (abs_path [''v'']) (Some exampleData) exampleFs = (Ok (), f')
     \<and> os_ReadFile (abs_path [''v'', ''addresses'', ''10.0.0.1'', ''address'']) f' = (Inr ''10.0.0.1'', f')
     \<and> os_ReadFile (abs_path [''v'', ''addresses'', ''10.0.0.1'', ''ports'', ''http'']) f'
         = (Inr (Itoa (sint (80 :: int32))), f')"
  using writeData_readable [OF example_fresh example_good(1), of "[]" "exampleData ! 0" "[exampleData ! 1]"]
  by (auto simp: exampleData_def wf_map_def)

text \<open>The link \<^verbatim>\<open>default-address\<close> of a written volume resolves to the directory of the last
  address: reading the address and the ports through it gives the last entry.\<close>

theorem default_address_resolves:
  assumes "fresh_volume cs f" "list_all good_data ds" "ds \<noteq> []" "wf_map (Ports (last ds))"
  shows "\<exists>f'. writeData (abs_path cs) (Some ds) f = (Ok (), f')
     \<and> os_ReadFile (abs_path (cs @ [''default-address'', ''address''])) f'
         = (Inr (Address (last ds)), f')
     \<and> (\<forall>n p. map_of (Ports (last ds)) n = Some p \<longrightarrow>
          os_ReadFile (abs_path (cs @ [''default-address'', ''ports'', n])) f'
            = (Inr (Itoa (sint p)), f'))"
  using writeData_run [OF assms(1,3,2)] written_default [OF assms] by blast

theorem default_address_resolves_witness:
  "\<exists>f'. writeData (abs_path [''v'']) (Some exampleData) exampleFs = (Ok (), f')
     \<and> os_ReadFile (abs_path [''v'', ''default-address'', ''address'']) f' = (Inr ''lb.example'', f')"
  using default_address_resolves [OF example_fresh example_good]
  by (auto simp: exampleData_def wf_map_def)



end
