(* ===== verification/GoRegexp.thy ===== *)
theory GoRegexp
  imports GoStd
begin

text \<open>
  The fragment of \<^verbatim>\<open>regexp\<close> that the program's one pattern needs: literals, the class \<^verbatim>\<open>\w\<close>,
  sequences and counted repetitions. A pattern of this fragment matches at a position in at most
  one way, so a match is a function to the rest of the text.
\<close>

datatype regex = Lit string | WordClass | Cat regex regex | Rep nat regex

definition word_char :: "char \<Rightarrow> bool" where
  "word_char c = (let n = of_char c :: nat
     in (48 \<le> n \<and> n \<le> 57) \<or> (65 \<le> n \<and> n \<le> 90) \<or> n = 95 \<or> (97 \<le> n \<and> n \<le> 122))"

fun rep :: "nat \<Rightarrow> (string \<Rightarrow> string option) \<Rightarrow> string \<Rightarrow> string option" where
  "rep 0 f s = Some s"
| "rep (Suc n) f s = Option.bind (f s) (rep n f)"

primrec match_at :: "regex \<Rightarrow> string \<Rightarrow> string option" where
  "match_at (Lit p) = (\<lambda>s. if prefix p s then Some (drop (length p) s) else None)"
| "match_at WordClass = (\<lambda>s. case s of c # t \<Rightarrow> if word_char c then Some t else None | [] \<Rightarrow> None)"
| "match_at (Cat a b) = (\<lambda>s. Option.bind (match_at a s) (match_at b))"
| "match_at (Rep n r) = rep n (match_at r)"

text \<open>\<^verbatim>\<open>regexp.Match\<close>: the text contains a match.\<close>

fun regexp_Match :: "regex \<Rightarrow> string \<Rightarrow> bool" where
  "regexp_Match r [] = (match_at r [] \<noteq> None)"
| "regexp_Match r (c # s) = (match_at r (c # s) \<noteq> None \<or> regexp_Match r s)"

text \<open>The language of a pattern, the reference for the matcher.\<close>

fun reps :: "nat \<Rightarrow> (string \<Rightarrow> bool) \<Rightarrow> string \<Rightarrow> bool" where
  "reps 0 P s = (s = [])"
| "reps (Suc n) P s = (\<exists>a b. s = a @ b \<and> P a \<and> reps n P b)"

primrec lang :: "regex \<Rightarrow> string \<Rightarrow> bool" where
  "lang (Lit p) = (\<lambda>s. s = p)"
| "lang WordClass = (\<lambda>s. \<exists>c. s = [c] \<and> word_char c)"
| "lang (Cat a b) = (\<lambda>s. \<exists>u v. s = u @ v \<and> lang a u \<and> lang b v)"
| "lang (Rep n r) = reps n (lang r)"

lemma rep_correct:
  assumes "\<And>s t. f s = Some t \<longleftrightarrow> (\<exists>u. s = u @ t \<and> P u)"
  shows "rep n f s = Some t \<longleftrightarrow> (\<exists>u. s = u @ t \<and> reps n P u)"
proof (induction n arbitrary: s)
  case 0
  then show ?case by auto
next
  case (Suc n)
  then show ?case by (auto simp: bind_eq_Some_conv assms) (metis append_assoc)+
qed

lemma match_at_correct: "match_at r s = Some t \<longleftrightarrow> (\<exists>u. s = u @ t \<and> lang r u)"
proof (induction r arbitrary: s t)
  case (Lit p)
  then show ?case by (auto simp: prefix_def)
next
  case WordClass
  then show ?case by (auto split: list.splits)
next
  case (Cat a b)
  then show ?case by (auto simp: bind_eq_Some_conv) (metis append_assoc)+
next
  case (Rep n r)
  then show ?case by (simp add: rep_correct)
qed

lemma regexp_Match_correct: "regexp_Match r s \<longleftrightarrow> (\<exists>a u b. s = a @ u @ b \<and> lang r u)"
proof (induction s)
  case Nil
  then show ?case using match_at_correct [of r "[]"] by auto
next
  case (Cons c s)
  have "regexp_Match r (c # s) \<longleftrightarrow> (\<exists>u b. c # s = u @ b \<and> lang r u) \<or> (\<exists>a u b. s = a @ u @ b \<and> lang r u)"
    using Cons match_at_correct [of r "c # s"] by auto
  also have "\<dots> \<longleftrightarrow> (\<exists>a u b. c # s = a @ u @ b \<and> lang r u)"
    by (metis append_Cons append_Nil append_eq_Cons_conv)
  finally show ?case .
qed

lemma reps_word_class:
  "reps n (\<lambda>s. \<exists>c. s = [c] \<and> word_char c) s \<longleftrightarrow> length s = n \<and> list_all word_char s"
proof (induction n arbitrary: s)
  case 0
  then show ?case by auto
next
  case (Suc n)
  have "reps (Suc n) (\<lambda>s. \<exists>c. s = [c] \<and> word_char c) s \<longleftrightarrow>
      (\<exists>a b. s = a @ b \<and> (\<exists>c. a = [c] \<and> word_char c) \<and> length b = n \<and> list_all word_char b)"
    by (simp only: reps.simps Suc.IH)
  also have "\<dots> \<longleftrightarrow> (\<exists>c b. s = c # b \<and> word_char c \<and> length b = n \<and> list_all word_char b)"
    by (intro iffI; elim exE conjE) (simp, metis append_Cons append_Nil)
  also have "\<dots> \<longleftrightarrow> length s = Suc n \<and> list_all word_char s"
    by (cases s) auto
  finally show ?case .
qed

end
