(* ===== verification/Csi.thy ===== *)
theory Csi
  imports GoRegexp FakeClient
begin

text \<open>
  The messages of the CSI protocol that the driver handles, the identity service
  (\<^verbatim>\<open>internal/csi/identity.go\<close>) and the keys of \<^verbatim>\<open>internal/csi/constant.go\<close>. A pointer field of a
  message is an option; a getter on a nil message returns the zero value.
\<close>

section \<open>constant.go\<close>

definition CSI_STORAGE_PVC_NAME :: string where
  "CSI_STORAGE_PVC_NAME = ''csi.storage.k8s.io/pvc/name''"
definition CSI_STORAGE_PVC_NAMESPACE :: string where
  "CSI_STORAGE_PVC_NAMESPACE = ''csi.storage.k8s.io/pvc/namespace''"
definition CSI_STORAGE_POD_NAME :: string where
  "CSI_STORAGE_POD_NAME = ''csi.storage.k8s.io/pod.name''"
definition CSI_STORAGE_POD_NAMESPACE :: string where
  "CSI_STORAGE_POD_NAMESPACE = ''csi.storage.k8s.io/pod.namespace''"
definition CSI_STORAGE_POD_UID :: string where
  "CSI_STORAGE_POD_UID = ''csi.storage.k8s.io/pod.uid''"
definition CSI_STORAGE_SERVICE_ACCOUNT_NAME :: string where
  "CSI_STORAGE_SERVICE_ACCOUNT_NAME = ''csi.storage.k8s.io/serviceAccount.name''"
definition CSI_STORAGE_EPHEMERAL :: string where
  "CSI_STORAGE_EPHEMERAL = ''csi.storage.k8s.io/ephemeral''"
definition STORAGE_KUBERNETES_CSI_PROVISIONER_IDENTITY :: string where
  "STORAGE_KUBERNETES_CSI_PROVISIONER_IDENTITY = ''storage.kubernetes.io/csiProvisionerIdentity''"

section \<open>Messages\<close>

datatype accessMode = UNKNOWN_MODE | SINGLE_NODE_WRITER | SINGLE_NODE_READER_ONLY
  | MULTI_NODE_READER_ONLY | MULTI_NODE_SINGLE_WRITER | MULTI_NODE_MULTI_WRITER
  | SINGLE_NODE_SINGLE_WRITER | SINGLE_NODE_MULTI_WRITER

datatype accessKind = BlockVolume | MountVolume

record volumeCapability =
  capAccessType :: "accessKind option"
  capAccessMode :: "accessMode option"

type_synonym topology = labels

record createVolumeRequest =
  cvName :: string
  cvCapacityRange :: "int64 option"
  cvVolumeCapabilities :: "volumeCapability list option"
  cvParameters :: labels
  cvAccessibilityRequirements :: "topology list option"

record csiVolume =
  VolumeId :: string
  CapacityBytes :: int64
  VolumeContext :: labels
  AccessibleTopology :: "topology list"

datatype controllerCapability = CREATE_DELETE_VOLUME
datatype pluginCapability = CONTROLLER_SERVICE
datatype nodeCapability = STAGE_UNSTAGE_VOLUME

text \<open>\<^verbatim>\<open>status.Error(code, text)\<close>\<close>

definition statusError :: "code \<Rightarrow> string \<Rightarrow> error" where
  "statusError c msg = GrpcErr c (NewErr msg)"

lemma status_code_statusError [simp]: "status_code (statusError c msg) = c"
  by (simp add: statusError_def)

section \<open>identity.go\<close>

record identityServer =
  isName :: string
  isVersion :: string

definition NewIdentityServer :: "string \<Rightarrow> string \<Rightarrow> identityServer" where
  "NewIdentityServer n v = \<lparr>isName = n, isVersion = v\<rparr>"

record pluginInfo =
  piName :: string
  piVendorVersion :: string

definition GetPluginInfo :: "identityServer \<Rightarrow> pluginInfo outcome" where
  "GetPluginInfo i =
     (if isName i = '''' then Err (statusError Unavailable ''driver name not configured'')
      else if isVersion i = '''' then Err (statusError Unavailable ''driver version not configured'')
      else Ok \<lparr>piName = isName i, piVendorVersion = isVersion i\<rparr>)"

definition GetPluginCapabilities :: "identityServer \<Rightarrow> pluginCapability list outcome" where
  "GetPluginCapabilities i = Ok [CONTROLLER_SERVICE]"

definition Probe :: "identityServer \<Rightarrow> bool outcome" where
  "Probe i = Ok True"

end
