(* ===== verification/CsiNode.thy ===== *)
theory CsiNode
  imports NodeData Csi
begin

text \<open>
  \<^verbatim>\<open>internal/csi/node.go\<close>: the node service of the CSI driver. Publishing a volume finds or creates
  the Listener of the claim, labels the volume and the pod, records the addresses in a
  PodListeners object and writes them into a tmpfs at the target path.
\<close>

section \<open>State and third-party code\<close>

text \<open>The node server acts on the cluster and on the file system of its node.\<close>

record 'k host =
  kube :: 'k
  files :: fsys

definition onKube :: "('k, 'a) go \<Rightarrow> ('k host, 'a) go" where
  "onKube m h = (case m (kube h) of (r, k) \<Rightarrow> (r, h\<lparr>kube := k\<rparr>))"

definition onFiles :: "(fsys, 'a) go \<Rightarrow> ('k host, 'a) go" where
  "onFiles m h = (case m (files h) of (r, f) \<Rightarrow> (r, h\<lparr>files := f\<rparr>))"

text \<open>\<^verbatim>\<open>k8s.io/utils/mount\<close> is a parameter, next to the client.\<close>

record 'k nodeDeps = "'k client" +
  Mount :: "string \<Rightarrow> string \<Rightarrow> string \<Rightarrow> string list \<Rightarrow> (fsys, unit) call"
  Unmount :: "string \<Rightarrow> (fsys, unit) call"
  PathExists :: "string \<Rightarrow> (fsys, bool) call"

section \<open>The volume context\<close>

record volumeContext =
  vcPod :: "string option"
  vcPodNamespace :: "string option"
  vcPodUID :: "string option"
  vcServiceAccountName :: "string option"
  vcEphemeral :: "string option"
  vcProvisioner :: "string option"
  vcListenerClassName :: "string option"
  vcListenerName :: "string option"

definition newVolumeContextFromMap :: "('k, 'z) client_scheme \<Rightarrow> labels \<Rightarrow> volumeContext" where
  "newVolumeContextFromMap C parameters =
     \<lparr>vcPod = map_of parameters CSI_STORAGE_POD_NAME,
      vcPodNamespace = map_of parameters CSI_STORAGE_POD_NAMESPACE,
      vcPodUID = map_of parameters CSI_STORAGE_POD_UID,
      vcServiceAccountName = map_of parameters CSI_STORAGE_SERVICE_ACCOUNT_NAME,
      vcEphemeral = map_of parameters CSI_STORAGE_EPHEMERAL,
      vcProvisioner = map_of parameters STORAGE_KUBERNETES_CSI_PROVISIONER_IDENTITY,
      vcListenerClassName = map_of parameters (ListenerClassAnnotation C),
      vcListenerName = map_of parameters (AnnotationListenerName C)\<rparr>"

section \<open>Reading the cluster\<close>

definition getPod :: "('k, 'z) client_scheme \<Rightarrow> string \<Rightarrow> string \<Rightarrow> ('k, pod) go" where
  "getPod C podName podNamespace = callG (GetPod C (podNamespace, podName))"

definition getPVC :: "('k, 'z) client_scheme \<Rightarrow> string \<Rightarrow> string \<Rightarrow> ('k, persistentVolumeClaim) go" where
  "getPVC C pvcName pvcNamespace = callG (GetPVC C (pvcNamespace, pvcName))"

definition getPV :: "('k, 'z) client_scheme \<Rightarrow> string \<Rightarrow> ('k, persistentVolume) go" where
  "getPV C pvName = callG (GetPV C ('''', pvName))"

definition getNodeAddressByPod :: "('k, 'z) client_scheme \<Rightarrow> pod \<Rightarrow> ('k, addressInfo) go" where
  "getNodeAddressByPod C p =
     bindG (callG (GetNode C ('''', NodeName p))) (\<lambda>n. liftG (GetPriorNodeAddress n))"

text \<open>The fresh listener replaces the one the caller holds, so it is returned too.\<close>

definition getAddresses ::
  "('k, 'z) client_scheme \<Rightarrow> listener \<Rightarrow> pod \<Rightarrow> ('k, listener \<times> ingressAddress list) go" where
  "getAddresses C l0 p =
     bindG (callG (GetListener C (objectKeyOf (lMeta l0)))) (\<lambda>l.
     if NodePorts (lStatus l) \<noteq> [] then
       bindG (getNodeAddressByPod C p) (\<lambda>address.
       retG (l, [mkIngressAddress address (NodePorts (lStatus l))]))
     else if IngressAddresses (lStatus l) \<noteq> [] then
       retG (l, map (\<lambda>i. mkIngressAddress (mkAddressInfo (iaAddress i) (iaAddressType i)) (iaPorts i))
         (IngressAddresses (lStatus l)))
     else failG (NewErr
       ''could not get listener address from listener status, listener status is not ready''))"

fun containerPorts :: "containerPort list \<Rightarrow> portSpec list" where
  "containerPorts [] = []"
| "containerPorts (p # ps) =
     (if cpName p \<noteq> '''' then
        \<lparr>psName = cpName p, psProtocol = cpProtocol p, psPort = ContainerPort p\<rparr> # containerPorts ps
      else containerPorts ps)"

definition getPodPorts :: "pod \<Rightarrow> error + portSpec list" where
  "getPodPorts p =
     (let ports = concat (map (\<lambda>c. containerPorts (cPorts c)) (Containers p))
      in if ports = [] then
           Inl (statusError Internal ''pod has no vaild ports, please ensure all port has name'')
         else Inr ports)"

section \<open>The listener\<close>

definition newListener ::
  "persistentVolumeClaim \<Rightarrow> string \<Rightarrow> listenerClass \<Rightarrow> portSpec list \<Rightarrow> listener" where
  "newListener pvc ns lc ports =
     \<lparr>lMeta = (newMeta (Name (pvcMeta pvc)) ns)\<lparr>Labels := Labels (pvcMeta pvc)\<rparr>,
      lSpec = \<lparr>ClassName = Name (lcMeta lc), lsPorts = ports, ExtraPodSelectorLabels = [],
        lsPublishNotReadyAddresses = Some True\<rparr>,
      lStatus = zeroListenerStatus\<rparr>"

definition createListener ::
  "('k, 'z) client_scheme \<Rightarrow> volumeContext \<Rightarrow> persistentVolume \<Rightarrow> pod \<Rightarrow> ('k, listener) go" where
  "createListener C vc pv p =
     bindG (derefG (vcListenerClassName vc)) (\<lambda>className.
     bindG (derefG (vcPodNamespace vc)) (\<lambda>ns.
     bindG (mapErrG (FmtErr ''get listener class from volume context error: '')
       (callG (GetListenerClass C (ns, className)))) (\<lambda>lc.
     bindG (derefG (ClaimRef pv)) (\<lambda>(refNamespace, refName).
     bindG (mapErrG (FmtErr ''get pvc error: '') (getPVC C refName refNamespace)) (\<lambda>pvc.
     bindG (mapErrG (FmtErr ''get pod ports error: '') (liftG (getPodPorts p))) (\<lambda>ports.
     let l = newListener pvc ns lc ports in
     bindG (mapErrG (FmtErr ''set controller reference error: '')
       (liftG (SetControllerReference C (''PersistentVolume'', pvMeta pv) (lMeta l)))) (\<lambda>m.
     let l' = l\<lparr>lMeta := m\<rparr> in
     tryG (callG (CreateListener C l')) (\<lambda>r. case r of
         Inr created \<Rightarrow> retG created
       | Inl err \<Rightarrow>
           if IsAlreadyExists err then
             mapErrG (FmtErr ''get existing listener error: '')
               (callG (GetListener C (objectKeyOf (lMeta l'))))
           else failG (FmtErr ''create listener error: '' err)))))))))"

definition getListener ::
  "('k, 'z) client_scheme \<Rightarrow> pod \<Rightarrow> persistentVolume \<Rightarrow> volumeContext \<Rightarrow> ('k, listener) go" where
  "getListener C p pv vc =
     (case vcListenerName vc of
        Some name \<Rightarrow>
          bindG (derefG (vcPodNamespace vc)) (\<lambda>ns. callG (GetListener C (ns, name)))
      | None \<Rightarrow> createListener C vc pv p)"

definition withPVLabels :: "listener \<Rightarrow> persistentVolume \<Rightarrow> persistentVolume" where
  "withPVLabels l pv = pv\<lparr>pvMeta :=
     (pvMeta pv)\<lparr>Labels := maps_Copy (Labels (pvMeta pv)) (ListenerMetaLabels l)\<rparr>\<rparr>"

definition withPodLabels :: "listener \<Rightarrow> pod \<Rightarrow> pod" where
  "withPodLabels l p = p\<lparr>pMeta :=
     (pMeta p)\<lparr>Labels := maps_Copy (Labels (pMeta p)) (ListenerMountPodLabels l)\<rparr>\<rparr>"

definition patchPVLabelsWithListener ::
  "('k, 'z) client_scheme \<Rightarrow> persistentVolume \<Rightarrow> listener \<Rightarrow> ('k, persistentVolume) go" where
  "patchPVLabelsWithListener C pv l = callG (PatchPV C pv (withPVLabels l pv))"

definition patchPodLabelsWithListener ::
  "('k, 'z) client_scheme \<Rightarrow> pod \<Rightarrow> listener \<Rightarrow> ('k, pod) go" where
  "patchPodLabelsWithListener C p l = callG (PatchPod C p (withPodLabels l p))"

section \<open>PodListeners\<close>

fun findVolumeFor :: "string \<Rightarrow> volume list \<Rightarrow> string \<Rightarrow> string option" where
  "findVolumeFor podName [] pvcName = None"
| "findVolumeFor podName (v # vs) pvcName =
     (if vPersistentVolumeClaim v = Some pvcName then Some (vName v)
      else if vEphemeral v \<and> pvcName = podName @ ''-'' @ vName v then Some (vName v)
      else findVolumeFor podName vs pvcName)"

definition findPodVolumeNameForPVC :: "pod \<Rightarrow> string \<Rightarrow> error + string" where
  "findPodVolumeNameForPVC p pvcName =
     (case findVolumeFor (Name (pMeta p)) (Volumes p) pvcName of
        Some n \<Rightarrow> Inr n
      | None \<Rightarrow> Inl (NewErr (''no volume found for PVC '' @ [CHR 0x27] @ pvcName @ [CHR 0x27]
          @ '' in pod '' @ [CHR 0x27] @ Namespace (pMeta p) @ ''/'' @ Name (pMeta p) @ [CHR 0x27])))"

definition determinePodListenerScope :: "listener \<Rightarrow> podListenerScope" where
  "determinePodListenerScope l =
     (if NodePorts (lStatus l) \<noteq> [] then PodlistenerNodeScope else PodlistenerClusterScope)"

definition podListenersName :: "pod \<Rightarrow> string" where
  "podListenersName p = ''pod-'' @ UID (pMeta p)"

definition buildPodListenersObject ::
  "('k, 'z) client_scheme \<Rightarrow> pod \<Rightarrow> listener \<Rightarrow> string \<Rightarrow> podListenerScope \<Rightarrow> ingressAddress list
     \<Rightarrow> podListeners" where
  "buildPodListenersObject C p l volumeName scope addresses =
     (let ingresses = map (\<lambda>a. \<lparr>iaAddress = Address a, iaAddressType = AddressType a,
            iaPorts = Ports a\<rparr>) addresses;
          m = newMeta (podListenersName p) (Namespace (pMeta p))
      in \<lparr>plMeta = (case SetControllerReference C (''Listener'', lMeta l) m of
             Inr m' \<Rightarrow> m' | Inl err \<Rightarrow> m),
          plListeners = [(volumeName, \<lparr>Scope = scope, ListenerIngresses = ingresses\<rparr>)]\<rparr>)"

text \<open>Reading a missing key of a Go map gives the zero value.\<close>

definition zeroPodListener :: podListener where
  "zeroPodListener = \<lparr>Scope = OtherScope '''', ListenerIngresses = []\<rparr>"

definition setVolume :: "string \<Rightarrow> podListeners \<Rightarrow> podListeners \<Rightarrow> podListeners" where
  "setVolume volumeName new existing = existing\<lparr>plListeners :=
     AList.update volumeName
       (case map_of (plListeners new) volumeName of Some x \<Rightarrow> x | None \<Rightarrow> zeroPodListener)
       (plListeners existing)\<rparr>"

definition createOrUpdatePodListeners ::
  "('k, 'z) client_scheme \<Rightarrow> podListeners \<Rightarrow> string \<Rightarrow> ('k, unit) go" where
  "createOrUpdatePodListeners C obj volumeName =
     tryG (callG (GetPodListeners C (objectKeyOf (plMeta obj)))) (\<lambda>r. case r of
         Inl err \<Rightarrow>
           if IsNotFound err then
             bindG (mapErrG (FmtErr ''failed to create PodListeners: '')
               (callG (CreatePodListeners C obj))) (\<lambda>_. retG ())
           else failG (FmtErr ''failed to get existing PodListeners: '' err)
       | Inr existing \<Rightarrow>
           bindG (mapErrG (FmtErr ''failed to update PodListeners: '')
             (callG (PatchPodListeners C existing (setVolume volumeName obj existing)))) (\<lambda>_. retG ()))"

definition publishPodListener ::
  "('k, 'z) client_scheme \<Rightarrow> pod \<Rightarrow> persistentVolume \<Rightarrow> listener \<Rightarrow> ingressAddress list
     \<Rightarrow> ('k, unit) go" where
  "publishPodListener C p pv l addresses =
     bindG (derefG (ClaimRef pv)) (\<lambda>(refNamespace, refName).
     bindG (liftG (findPodVolumeNameForPVC p refName)) (\<lambda>volumeName.
     let scope = determinePodListenerScope l;
         obj = buildPodListenersObject C p l volumeName scope addresses
     in createOrUpdatePodListeners C obj volumeName))"

section \<open>Mounting\<close>

definition mountOptions :: "string list" where
  "mountOptions = [''noexec'', ''nosuid'', ''nodev'']"

definition mountTarget :: "('k, 'z) nodeDeps_scheme \<Rightarrow> string \<Rightarrow> (fsys, unit) go" where
  "mountTarget D targetPath =
     bindG (mapErrG (GrpcErr Internal) (callG (PathExists D targetPath))) (\<lambda>exist.
     if exist then
       failG (statusError Internal (''target path '' @ targetPath @ '' already exists''))
     else
       bindG (mapErrG (GrpcErr Internal) (callG (os_MkdirAll targetPath))) (\<lambda>_.
       mapErrG (GrpcErr Internal) (callG (Mount D ''tmpfs'' targetPath ''tmpfs'' mountOptions))))"

section \<open>The service\<close>

record nodePublishRequest =
  npVolumeId :: string
  npTargetPath :: string
  npVolumeCapability :: "volumeCapability option"
  npVolumeContext :: labels

definition validateNodePublishVolumeRequest :: "nodePublishRequest \<Rightarrow> error + unit" where
  "validateNodePublishVolumeRequest request =
     (if npVolumeId request = '''' then Inl (statusError InvalidArgument ''volume ID missing in request'')
      else if npTargetPath request = '''' then
        Inl (statusError InvalidArgument ''Target path missing in request'')
      else if npVolumeCapability request = None then
        Inl (statusError InvalidArgument ''Volume capability missing in request'')
      else if npVolumeContext request = [] then
        Inl (statusError InvalidArgument ''Volume context missing in request'')
      else Inr ())"

definition NodePublishVolume ::
  "('k, 'z) nodeDeps_scheme \<Rightarrow> nodePublishRequest \<Rightarrow> ('k host, unit) go" where
  "NodePublishVolume D request =
     bindG (liftG (validateNodePublishVolumeRequest request)) (\<lambda>_.
     let targetPath = npTargetPath request in
     if targetPath = '''' then failG (statusError InvalidArgument ''Target path missing in request'')
     else
     let vc = newVolumeContextFromMap D (npVolumeContext request) in
     bindG (onKube (getPV D (npVolumeId request))) (\<lambda>pv.
     bindG (derefG (vcPod vc)) (\<lambda>podName.
     bindG (derefG (vcPodNamespace vc)) (\<lambda>podNamespace.
     bindG (mapErrG (GrpcErr Internal) (onKube (getPod D podName podNamespace))) (\<lambda>p.
     bindG (mapErrG (GrpcErr Internal) (onKube (getListener D p pv vc))) (\<lambda>l.
     bindG (mapErrG (GrpcErr Internal) (onKube (patchPVLabelsWithListener D pv l))) (\<lambda>pv'.
     bindG (mapErrG (GrpcErr Internal) (onKube (patchPodLabelsWithListener D p l))) (\<lambda>p'.
     bindG (mapErrG (GrpcErr Internal) (onKube (getAddresses D l p'))) (\<lambda>(l', data).
     bindG (mapErrG (GrpcErr Internal) (onKube (publishPodListener D p' pv' l' data))) (\<lambda>_.
     bindG (mapErrG (GrpcErr Internal) (onFiles (mountTarget D targetPath))) (\<lambda>_.
     mapErrG (GrpcErr Internal) (onFiles (writeData targetPath (Some data))))))))))))))"

definition NodeUnpublishVolume ::
  "('k, 'z) nodeDeps_scheme \<Rightarrow> string \<Rightarrow> string \<Rightarrow> ('k host, unit) go" where
  "NodeUnpublishVolume D volumeId targetPath =
     (if volumeId = '''' then failG (statusError InvalidArgument ''Volume ID missing in request'')
      else if targetPath = '''' then
        failG (statusError InvalidArgument ''Target path missing in request'')
      else
        tryG (onFiles (callG (Unmount D targetPath))) (\<lambda>_.
        mapErrG (GrpcErr Internal) (onFiles (callG (os_RemoveAll targetPath)))))"

definition NodeStageVolume :: "string \<Rightarrow> string \<Rightarrow> volumeCapability option \<Rightarrow> ('s, unit) go" where
  "NodeStageVolume volumeId stagingTargetPath cap =
     (if length volumeId = 0 then failG (statusError InvalidArgument ''Volume ID missing in request'')
      else if length stagingTargetPath = 0 then
        failG (statusError InvalidArgument ''Staging target path missing in request'')
      else if cap = None then
        failG (statusError InvalidArgument ''Volume capability missing in request'')
      else retG ())"

definition NodeUnstageVolume :: "string \<Rightarrow> string \<Rightarrow> ('s, unit) go" where
  "NodeUnstageVolume volumeId stagingTargetPath =
     (if length volumeId = 0 then failG (statusError InvalidArgument ''Volume ID missing in request'')
      else if length stagingTargetPath = 0 then
        failG (statusError InvalidArgument ''Staging target path missing in request'')
      else retG ())"

definition NodeGetCapabilities :: "('s, nodeCapability list) go" where
  "NodeGetCapabilities = retG [STAGE_UNSTAGE_VOLUME]"

definition NodeGetInfo :: "string \<Rightarrow> ('s, string) go" where
  "NodeGetInfo nodeID = retG nodeID"

end
