(* ===== verification/NodeSpec.thy ===== *)
theory NodeSpec
  imports CsiNode ServiceSpec
begin

text \<open>
  The properties of \<^verbatim>\<open>internal/csi/node.go\<close>: publishing a volume is a cluster phase followed by a
  file phase, what the two phases leave behind, and what happens when a call is repeated or undone.
\<close>

section \<open>Computations on one half of the host\<close>

lemma onKube_bindG: "onKube (bindG m f) = bindG (onKube m) (\<lambda>a. onKube (f a))"
  by (auto simp: fun_eq_iff onKube_def bindG_def split: prod.splits outcome.splits)

lemma onKube_mapErrG: "onKube (mapErrG g m) = mapErrG g (onKube m)"
  by (auto simp: fun_eq_iff onKube_def mapErrG_def split: prod.splits outcome.splits)

lemma onKube_pure:
  "onKube (retG a) = retG a" "onKube (failG e) = failG e" "onKube (liftG r) = liftG r"
  "onKube (derefG p) = derefG p"
  by (auto simp: fun_eq_iff onKube_def liftG_def derefG_def split: sum.splits option.splits)

lemma onFiles_bindG: "onFiles (bindG m f) = bindG (onFiles m) (\<lambda>a. onFiles (f a))"
  by (auto simp: fun_eq_iff onFiles_def bindG_def split: prod.splits outcome.splits)

lemma onFiles_mapErrG: "onFiles (mapErrG g m) = mapErrG g (onFiles m)"
  by (auto simp: fun_eq_iff onFiles_def mapErrG_def split: prod.splits outcome.splits)

lemma bindG_assoc: "bindG (bindG m f) g = bindG m (\<lambda>a. bindG (f a) g)"
  by (auto simp: fun_eq_iff bindG_def split: prod.splits outcome.splits)

lemma bindG_fail: "bindG (failG e) f = failG e"
  by (simp add: fun_eq_iff)

lemma bindG_retG: "bindG (retG a) f = f a"
  by (simp add: fun_eq_iff)

lemmas host_laws = onKube_bindG onKube_mapErrG onKube_pure onFiles_bindG onFiles_mapErrG
  bindG_assoc bindG_fail bindG_retG

section \<open>The two phases of a publish\<close>

definition publishCluster ::
  "('k, 'z) nodeDeps_scheme \<Rightarrow> nodePublishRequest \<Rightarrow> ('k, ingressAddress list) go" where
  "publishCluster D request =
     bindG (liftG (validateNodePublishVolumeRequest request)) (\<lambda>_.
     let vc = newVolumeContextFromMap D (npVolumeContext request) in
     bindG (getPV D (npVolumeId request)) (\<lambda>pv.
     bindG (derefG (vcPod vc)) (\<lambda>podName.
     bindG (derefG (vcPodNamespace vc)) (\<lambda>podNamespace.
     mapErrG (GrpcErr Internal) (
       bindG (getPod D podName podNamespace) (\<lambda>p.
       bindG (getListener D p pv vc) (\<lambda>l.
       bindG (patchPVLabelsWithListener D pv l) (\<lambda>pv'.
       bindG (patchPodLabelsWithListener D p l) (\<lambda>p'.
       bindG (getAddresses D l p') (\<lambda>(l', ds).
       bindG (publishPodListener D p' pv' l' ds) (\<lambda>_. retG ds)))))))))))"

definition publishFiles ::
  "('k, 'z) nodeDeps_scheme \<Rightarrow> string \<Rightarrow> ingressAddress list \<Rightarrow> (fsys, unit) go" where
  "publishFiles D targetPath ds =
     mapErrG (GrpcErr Internal) (bindG (mountTarget D targetPath) (\<lambda>_. writeData targetPath (Some ds)))"

lemma mapErrG_bindG: "mapErrG g (bindG m f) = bindG (mapErrG g m) (\<lambda>a. mapErrG g (f a))"
  by (auto simp: fun_eq_iff mapErrG_def bindG_def split: prod.splits outcome.splits)

lemma mapErrG_retG: "mapErrG g (retG a) = retG a"
  by (simp add: fun_eq_iff)

lemma validate_target:
  "bindG (liftG (validateNodePublishVolumeRequest rq)) (\<lambda>_. if npTargetPath rq = '''' then m else m')
     = bindG (liftG (validateNodePublishVolumeRequest rq)) (\<lambda>_. m')"
  by (auto simp: fun_eq_iff validateNodePublishVolumeRequest_def)

lemma publish_phases:
  "NodePublishVolume D rq =
     bindG (onKube (publishCluster D rq)) (\<lambda>ds. onFiles (publishFiles D (npTargetPath rq) ds))"
  unfolding NodePublishVolume_def publishCluster_def publishFiles_def Let_def validate_target
  by (simp add: host_laws mapErrG_bindG mapErrG_retG split_def)

section \<open>PodListeners\<close>

text \<open>
  The contract of the API server for PodListeners: a read returns what is stored, a create stores
  the object where there was none, and a merge patch against the object as it is stored makes the
  map of listeners the patched one.
\<close>

locale kube_podlisteners = kube_reads C for C :: "('k, 'z) client_scheme" +
  fixes storedPL :: "'k \<Rightarrow> objectKey \<Rightarrow> podListeners option"
  assumes getPL: "GetPodListeners C k w = (Inr x, w') \<Longrightarrow> storedPL w k = Some x"
    and getPL_missing: "GetPodListeners C k w = (Inl e, w') \<Longrightarrow> IsNotFound e \<Longrightarrow> storedPL w k = None"
    and createPL: "CreatePodListeners C x w = (Inr y, w') \<Longrightarrow>
      \<exists>z. storedPL w' (objectKeyOf (plMeta x)) = Some z \<and> plListeners z = plListeners x"
    and patchPL: "storedPL w k = Some old \<Longrightarrow> plMeta new = plMeta old \<Longrightarrow> wf_map (plListeners old) \<Longrightarrow>
      wf_map (plListeners new) \<Longrightarrow> PatchPodListeners C old new w = (Inr y, w') \<Longrightarrow>
      \<exists>z. storedPL w' k = Some z \<and> map_of (plListeners z) = map_of (plListeners new)"
begin

lemma createOrUpdate_merges:
  assumes "createOrUpdatePodListeners C obj v w = (Ok (), w')" "plListeners obj = [(v, x)]"
    and "\<And>old. storedPL w (objectKeyOf (plMeta obj)) = Some old \<Longrightarrow> wf_map (plListeners old)"
  shows "\<exists>z. storedPL w' (objectKeyOf (plMeta obj)) = Some z
     \<and> map_of (plListeners z) = (case storedPL w (objectKeyOf (plMeta obj)) of
          None \<Rightarrow> [v \<mapsto> x] | Some old \<Rightarrow> (map_of (plListeners old))(v \<mapsto> x))"
proof -
  let ?k = "objectKeyOf (plMeta obj)"
  obtain r w1 where r: "GetPodListeners C ?k w = (r, w1)" by force
  then have w1: "w1 = w" using reads_eq(3) by blast
  show ?thesis
  proof (cases r)
    case (Inl e)
    with assms(1) r obtain y where nf: "IsNotFound e" and y: "CreatePodListeners C obj w = (Inr y, w')"
      by (auto simp: createOrUpdatePodListeners_def go_inv w1 split: if_splits)
    have "storedPL w ?k = None" using getPL_missing r nf Inl by blast
    with createPL [OF y] assms(2) show ?thesis by auto
  next
    case (Inr old)
    with assms(1) r obtain y where y: "PatchPodListeners C old (setVolume v obj old) w = (Inr y, w')"
      by (auto simp: createOrUpdatePodListeners_def go_inv w1)
    have old: "storedPL w ?k = Some old" using getPL r Inr by blast
    with assms(3) have wf: "wf_map (plListeners old)" by blast
    obtain z where "storedPL w' ?k = Some z"
      "map_of (plListeners z) = map_of (plListeners (setVolume v obj old))"
      using patchPL [OF old _ wf _ y] wf by (auto simp: setVolume_def)
    with old assms(2) show ?thesis by (auto simp: setVolume_def update_conv')
  qed
qed

end

lemma map_of_filter_wf:
  assumes "wf_map m"
  shows "map_of (filter (\<lambda>(k, v). P k v) m) k =
      (case map_of m k of Some v \<Rightarrow> if P k v then Some v else None | None \<Rightarrow> None)"
  using assms
proof (induction m)
  case (Cons kv m)
  moreover have "map_of m (fst kv) = None" using Cons.prems by (simp add: wf_map_def map_of_eq_None_iff)
  ultimately show ?case
    by (cases kv) (auto simp: wf_map_def map_of_eq_None_iff dest: map_of_SomeD split: option.splits)
qed simp

lemma mergeMap_wf [simp]: "wf_map cur \<Longrightarrow> wf_map (mergeMap old new cur)"
  unfolding mergeMap_def by (rule wf_map_maps_Copy) (auto simp: wf_map_def intro: distinct_map_filter)

lemma mergeMap_lookup:
  assumes "wf_map new" "wf_map cur"
  shows "map_of (mergeMap old new cur) k = (case map_of new k of
      Some v \<Rightarrow> if map_of old k = Some v then map_of cur k else Some v
    | None \<Rightarrow> if map_of old k = None then map_of cur k else None)"
proof -
  have "wf_map (filter (\<lambda>(k, v). map_of old k \<noteq> Some v) new)"
    using assms(1) by (auto simp: wf_map_def intro: distinct_map_filter)
  with assms show ?thesis by (auto simp: mergeMap_def map_add_def map_of_filter_wf split: option.splits)
qed

lemma mergeMap_self: "wf_map old \<Longrightarrow> wf_map new \<Longrightarrow> map_of (mergeMap old new old) = map_of new"
  by (auto simp: fun_eq_iff mergeMap_lookup split: option.splits)

interpretation fake: kube_podlisteners fakeClient "storedAt plMeta cPodListeners"
proof (unfold_locales, goal_cases)
  case (1 k w x w')
  then show ?case by (auto simp: fake_defs split: option.splits if_splits)
next
  case (2 k w e w')
  then show ?case by (auto simp: fake_defs split: option.splits if_splits)
next
  case (3 x w y w')
  then show ?case
    by (auto simp: fakeCreatePodListeners_def storedAt_def Let_def update_conv' split: if_splits)
next
  case (4 w k old new y w')
  then have "map_of (cPodListeners w) k = Some old" "objectKeyOf (plMeta old) = k"
    by (auto simp: storedAt_def split: option.splits if_splits)
  with 4 show ?case
    by (auto simp: fakePatchPodListeners_def fakePatch_def storedAt_def update_conv' mergeMap_self)
qed

section \<open>Listeners\<close>

lemma createListener_Ok:
  assumes "createListener C vc pv p w = (Ok l, w')"
  obtains cn ns lc w1 refNs refName pvc w2 ports m where
    "vcListenerClassName vc = Some cn" "vcPodNamespace vc = Some ns" "ClaimRef pv = Some (refNs, refName)"
    "getPodPorts p = Inr ports" "GetListenerClass C (ns, cn) w = (Inr lc, w1)"
    "GetPVC C (refNs, refName) w1 = (Inr pvc, w2)"
    "SetControllerReference C (''PersistentVolume'', pvMeta pv) (lMeta (newListener pvc ns lc ports)) = Inr m"
    "CreateListener C ((newListener pvc ns lc ports)\<lparr>lMeta := m\<rparr>) w2 = (Inr l, w')
     \<or> (\<exists>e w3. CreateListener C ((newListener pvc ns lc ports)\<lparr>lMeta := m\<rparr>) w2 = (Inl e, w3)
          \<and> IsAlreadyExists e \<and> GetListener C (objectKeyOf m) w3 = (Inr l, w'))"
  using assms
  by (auto simp: createListener_def getPVC_def go_inv tryG_eq_Ok Let_def split: prod.splits if_splits)

text \<open>
  The contract for creating Listeners: a create stores the object it returns, leaves classes and
  claims alone, is refused with \<^verbatim>\<open>AlreadyExists\<close> where an object is stored, and changes nothing when it
  fails; a read returns what is stored.
\<close>

locale kube_listeners = kube_reads C for C :: "('k, 'z) client_scheme" +
  fixes storedL :: "'k \<Rightarrow> objectKey \<Rightarrow> listener option"
  assumes getL: "GetListener C k w = (Inr l, w') \<Longrightarrow> storedL w k = Some l"
    and getL_stored: "storedL w k = Some l \<Longrightarrow> fst (GetListener C k w) = Inr l"
    and createL: "CreateListener C l w = (Inr l', w') \<Longrightarrow> storedL w' (objectKeyOf (lMeta l)) = Some l'"
    and createL_exists: "storedL w (objectKeyOf (lMeta l)) \<noteq> None \<Longrightarrow>
      \<exists>msg. CreateListener C l w = (Inl (ApiErr AlreadyExists msg), w)"
    and createL_failed: "CreateListener C l w = (Inl e, w') \<Longrightarrow> w' = w"
    and createL_frame: "CreateListener C l w = (r, w') \<Longrightarrow>
      fst (GetListenerClass C k w') = fst (GetListenerClass C k w) \<and> fst (GetPVC C k w') = fst (GetPVC C k w)"
begin

text \<open>Once the Listener is stored, running the creation again reads it back.\<close>

lemma createListener_retry:
  assumes "createListener C vc pv p w = (Ok l, w')"
  shows "createListener C vc pv p w' = (Ok l, w')"
proof -
  obtain cn ns lc w1 rns rn pvc w2 ports m where
      vc: "vcListenerClassName vc = Some cn" "vcPodNamespace vc = Some ns" "ClaimRef pv = Some (rns, rn)"
        "getPodPorts p = Inr ports"
    and lc: "GetListenerClass C (ns, cn) w = (Inr lc, w1)" and pvc: "GetPVC C (rns, rn) w1 = (Inr pvc, w2)"
    and m: "SetControllerReference C (''PersistentVolume'', pvMeta pv) (lMeta (newListener pvc ns lc ports)) = Inr m"
    and run: "CreateListener C ((newListener pvc ns lc ports)\<lparr>lMeta := m\<rparr>) w2 = (Inr l, w')
      \<or> (\<exists>e w3. CreateListener C ((newListener pvc ns lc ports)\<lparr>lMeta := m\<rparr>) w2 = (Inl e, w3)
          \<and> IsAlreadyExists e \<and> GetListener C (objectKeyOf m) w3 = (Inr l, w'))"
    using assms by (rule createListener_Ok)
  let ?l = "(newListener pvc ns lc ports)\<lparr>lMeta := m\<rparr>"
  have w: "w1 = w" "w2 = w" using reads_eq(2) [OF lc] reads_eq(8) [OF pvc] by simp_all
  from run have stored: "storedL w' (objectKeyOf (lMeta ?l)) = Some l
      \<and> fst (GetListenerClass C (ns, cn) w') = Inr lc \<and> fst (GetPVC C (rns, rn) w') = Inr pvc"
  proof (elim disjE exE conjE)
    assume "CreateListener C ?l w2 = (Inr l, w')"
    with createL [of ?l w l w'] createL_frame [of ?l w] lc pvc w show ?thesis by (metis fst_conv)
  next
    fix e w3 assume e: "CreateListener C ?l w2 = (Inl e, w3)" "GetListener C (objectKeyOf m) w3 = (Inr l, w')"
    have "w3 = w" "w' = w3" using createL_failed [OF e(1)] reads_eq(1) [OF e(2)] w by simp_all
    with getL [OF e(2)] lc pvc w show ?thesis by simp
  qed
  have "GetListenerClass C (ns, cn) w' = (Inr lc, w')" "GetPVC C (rns, rn) w' = (Inr pvc, w')"
    "GetListener C (objectKeyOf (lMeta ?l)) w' = (Inr l, w')"
    using stored getL_stored reads(1,2,8) by (metis prod.collapse)+
  moreover obtain msg where "CreateListener C ?l w' = (Inl (ApiErr AlreadyExists msg), w')"
    using createL_exists stored by blast
  ultimately show ?thesis
    using vc m by (simp add: createListener_def getPVC_def Let_def)
qed

end

interpretation fake: kube_listeners fakeClient "storedAt lMeta cListeners"
proof (unfold_locales, goal_cases)
  case (3 l w l' w')
  then show ?case
    by (auto simp: fakeCreateListener_def storedAt_def Let_def update_conv' objectKeyOf_def split: if_splits)
next
  case (4 w l)
  then show ?case
    by (auto simp: fakeCreateListener_def storedAt_def Let_def split: option.splits if_splits)
qed (auto simp: fake_defs fakeCreateListener_def Let_def split: option.splits if_splits)

section \<open>The target path\<close>

text \<open>A target that can be published: its parent is there, nothing is at the target or below it (nothing
  mounted either), and no system call fails.\<close>

definition free_target :: "path \<Rightarrow> fsys \<Rightarrow> bool" where
  "free_target cs f \<longleftrightarrow> cs \<noteq> [] \<and> list_all good_comp cs \<and> dir_chain (tree f) (butlast cs)
     \<and> (\<forall>q. prefix cs q \<longrightarrow> tree f q = None) \<and> busy f cs = [] \<and> (\<forall>sc q. fault f sc q = None)"

text \<open>
  The contract of \<^verbatim>\<open>k8s.io/utils/mount\<close>. \<^verbatim>\<open>PathExists\<close> tells whether there is a directory at a plain
  path. Mounting a tmpfs on a directory makes it a mount point and hides what is below it. Unmounting a
  directory takes the topmost mount off it, if there is one, and shows below it what the mount hid. A call
  that fails changes nothing.
\<close>

definition mountedOn :: "path \<Rightarrow> fsys \<Rightarrow> fsys" where
  "mountedOn cs f = f\<lparr>mounts := cs # mounts f\<rparr>"

lemma mountedOn_sel [simp]:
  "tree (mountedOn cs f) = tree f" "fault (mountedOn cs f) = fault f" "cwd (mountedOn cs f) = cwd f"
  "mounts (mountedOn cs f) = cs # mounts f" "fresh_volume cs' (mountedOn cs f) = fresh_volume cs' f"
  by (simp_all add: mountedOn_def fresh_volume_def)

lemma prune_sel [simp]:
  "tree (prune P f) q = (if P q then None else tree f q)" "fault (prune P f) = fault f"
  "cwd (prune P f) = cwd f" "mounts (prune P f) = mounts f"
  by (simp_all add: prune_def)

locale tmpfs_mounter =
  fixes D :: "('k, 'z) nodeDeps_scheme"
  assumes exists_dir: "list_all good_comp (p @ [c]) \<Longrightarrow> dir_chain (tree f) p \<Longrightarrow>
      tree f (p @ [c]) \<in> {None, Some Dir} \<Longrightarrow> PathExists D (abs_path (p @ [c])) f = (Inr (tree f (p @ [c]) \<noteq> None), f)"
    and mount_hides: "list_all good_comp cs \<Longrightarrow> dir_chain (tree f) cs \<Longrightarrow>
      Mount D ''tmpfs'' (abs_path cs) ''tmpfs'' opts f = (Inr (), f') \<Longrightarrow> f' = mountedOn cs (prune (below cs) f)"
    and mount_failed: "Mount D ''tmpfs'' s ''tmpfs'' opts f = (Inl e, f') \<Longrightarrow> f' = f"
    and unmount_top: "list_all good_comp cs \<Longrightarrow> Unmount D (abs_path cs) f = (Inr (), f') \<Longrightarrow>
      fault f' = fault f \<and> cwd f' = cwd f \<and> mounts f' = remove1 cs (mounts f)
      \<and> (\<forall>q. \<not> below cs q \<longrightarrow> tree f' q = tree f q)"
    and unmount_failed: "Unmount D s f = (Inl e, f') \<Longrightarrow> f' = f"

lemma dir_chain_butlast: "cs \<noteq> [] \<Longrightarrow> dir_chain t cs \<longleftrightarrow> dir_chain t (butlast cs) \<and> t cs = Some Dir"
  using dir_chain_snoc [of t "butlast cs" "last cs"] by simp

lemma not_prefix_butlast:
  assumes "cs \<noteq> []" "prefix q (butlast cs)"
  shows "\<not> prefix cs q"
proof
  assume "prefix cs q"
  then have "length cs \<le> length (butlast cs)"
    using assms(2) by (metis le_trans prefix_length_le)
  then have "length cs \<le> length cs - 1" by (simp only: length_butlast)
  with assms(1) show False by (cases cs) simp_all
qed

lemma free_target_made:
  assumes "free_target cs f"
  shows "os_MkdirAll (abs_path cs) f = (Inr (), set_entry cs Dir f)"
    and "fresh_volume cs (set_entry cs Dir f)"
    and "prune (below cs) (set_entry cs Dir f) = set_entry cs Dir f"
proof -
  have cs: "cs = butlast cs @ [last cs]" "cs \<noteq> []" "list_all good_comp (butlast cs)" "good_comp (last cs)"
    "list_all good_comp cs"
    using assms by (auto simp: free_target_def list_all_iff dest: in_set_butlastD)
  show "os_MkdirAll (abs_path cs) f = (Inr (), set_entry cs Dir f)"
    using os_MkdirAll_new [of "butlast cs" f "last cs"] assms cs by (simp add: free_target_def)
  have "dir_chain ((tree f)(cs \<mapsto> Dir)) (butlast cs)"
    using assms cs(2) by (intro dir_chain_upd) (auto simp: free_target_def)
  then have chain: "dir_chain (tree (set_entry cs Dir f)) cs" using cs(2) by (simp add: dir_chain_butlast)
  have none: "tree f q = None" if "strict_prefix cs q" for q
    using assms that by (auto simp: free_target_def strict_prefix_def)
  show "fresh_volume cs (set_entry cs Dir f)"
    using assms chain none cs(2,5) by (auto simp: fresh_volume_def free_target_def)
  show "prune (below cs) (set_entry cs Dir f) = set_entry cs Dir f"
    by (rule fsys.equality) (auto simp: prune_def below_def none fun_eq_iff)
qed

context tmpfs_mounter
begin

lemma mountTarget_absent:
  assumes "free_target cs f"
  shows "mountTarget D (abs_path cs) f =
     mapErrG (GrpcErr Internal) (callG (Mount D ''tmpfs'' (abs_path cs) ''tmpfs'' mountOptions)) (set_entry cs Dir f)"
proof -
  have cs: "butlast cs @ [last cs] = cs" "list_all good_comp cs" "tree f cs = None" "dir_chain (tree f) (butlast cs)"
    using assms by (auto simp: free_target_def)
  have "PathExists D (abs_path cs) f = (Inr False, f)"
    using exists_dir [of "butlast cs" "last cs" f] cs by simp
  then have "mapErrG (GrpcErr Internal) (callG (PathExists D (abs_path cs))) f = (Ok False, f)"
    by (simp add: mapErrG_def callG_def)
  then have [simp]: "bindG (mapErrG (GrpcErr Internal) (callG (PathExists D (abs_path cs)))) k f = k False f" for k
    by (simp add: bindG_def)
  show ?thesis using free_target_made(1) [OF assms] by (simp add: mountTarget_def)
qed

lemma mountTarget_free:
  assumes "free_target cs f"
    and "Mount D ''tmpfs'' (abs_path cs) ''tmpfs'' mountOptions (set_entry cs Dir f) = (Inr (), f')"
  shows "mountTarget D (abs_path cs) f = (Ok (), mountedOn cs (set_entry cs Dir f))"
proof -
  have "list_all good_comp cs" using assms(1) by (simp add: free_target_def)
  then have "f' = mountedOn cs (set_entry cs Dir f)"
    using mount_hides [OF _ _ assms(2)] free_target_made [OF assms(1)] by (simp add: fresh_volume_def)
  with assms(2) show ?thesis by (simp add: mountTarget_absent [OF assms(1)])
qed

lemma publishFiles_free:
  assumes "free_target cs f" "ds \<noteq> []" "list_all good_data ds"
    and "Mount D ''tmpfs'' (abs_path cs) ''tmpfs'' mountOptions (set_entry cs Dir f) = (Inr (), f')"
  shows "publishFiles D (abs_path cs) ds f = (Ok (), writtenTree cs ds (mountedOn cs (set_entry cs Dir f)))"
  using mountTarget_free [OF assms(1,4)]
    writeData_run [of cs "mountedOn cs (set_entry cs Dir f)"] free_target_made(2) [OF assms(1)] assms(2,3)
  by (simp add: publishFiles_def)

lemma publishFiles_mount_failed:
  assumes "free_target cs f"
    and "Mount D ''tmpfs'' (abs_path cs) ''tmpfs'' mountOptions (set_entry cs Dir f) = (Inl e, f')"
  shows "publishFiles D (abs_path cs) ds f = (Err (GrpcErr Internal (GrpcErr Internal e)), set_entry cs Dir f)"
  using mount_failed [OF assms(2)] assms(2) mountTarget_absent [OF assms(1)]
  by (simp add: publishFiles_def mapErrG_def)

lemma publishFiles_taken:
  assumes "list_all good_comp cs" "cs \<noteq> []" "dir_chain (tree f) cs"
  shows "publishFiles D (abs_path cs) ds f = (Err (GrpcErr Internal (statusError Internal
     (''target path '' @ abs_path cs @ '' already exists''))), f)"
proof -
  have "PathExists D (abs_path cs) f = (Inr True, f)"
    using exists_dir [of "butlast cs" "last cs" f] assms by (simp add: dir_chain_butlast)
  then show ?thesis by (simp add: publishFiles_def mountTarget_def)
qed

text \<open>Unpublishing removes the target unless something is still mounted there after the unmount.\<close>

lemma unmount_cases:
  assumes "list_all good_comp cs" "Unmount D (abs_path cs) f = (u, f1)"
  shows "fault f1 = fault f" "cwd f1 = cwd f" "\<And>q. \<not> below cs q \<Longrightarrow> tree f1 q = tree f q"
    and "mounts f1 = (case u of Inr _ \<Rightarrow> remove1 cs (mounts f) | Inl _ \<Rightarrow> mounts f)"
proof -
  have "fault f1 = fault f \<and> cwd f1 = cwd f \<and> (\<forall>q. \<not> below cs q \<longrightarrow> tree f1 q = tree f q)
      \<and> mounts f1 = (case u of Inr _ \<Rightarrow> remove1 cs (mounts f) | Inl _ \<Rightarrow> mounts f)"
  proof (cases u)
    case (Inl e)
    then have "f1 = f" using unmount_failed [of "abs_path cs" f e f1] assms(2) by simp
    with Inl show ?thesis by simp
  next
    case (Inr x)
    with unmount_top [OF assms(1), of f f1] assms(2) show ?thesis by simp
  qed
  then show "fault f1 = fault f" "cwd f1 = cwd f" "\<And>q. \<not> below cs q \<Longrightarrow> tree f1 q = tree f q"
    and "mounts f1 = (case u of Inr _ \<Rightarrow> remove1 cs (mounts f) | Inl _ \<Rightarrow> mounts f)"
    by blast+
qed

lemma unpublish_run:
  assumes "list_all good_comp cs" "cs \<noteq> []" "dir_chain (tree (files h)) (butlast cs)"
    "fault (files h) SysRemove cs = None" "volumeId \<noteq> ''''"
    "Unmount D (abs_path cs) (files h) = (u, f1)"
  shows "NodeUnpublishVolume D volumeId (abs_path cs) h =
    (if busy f1 cs = [] then (Ok (), h\<lparr>files := prune (prefix cs) f1\<rparr>)
     else (Err (GrpcErr Internal (OsErr EBUSY (abs_path cs))),
       h\<lparr>files := prune (\<lambda>q. prefix cs q \<and> \<not> list_ex (prefix q) (busy f1 cs)) f1\<rparr>))"
proof -
  note f1 = unmount_cases [OF assms(1,6)]
  have good: "list_all good_comp (butlast cs)" "good_comp (last cs)"
    using assms(1,2) by (auto simp: list_all_iff dest: in_set_butlastD)
  have "dir_chain (tree f1) (butlast cs) = dir_chain (tree (files h)) (butlast cs)"
    using f1(3) by (intro dir_chain_cong) (auto simp: below_def strict_prefix_def dest: not_prefix_butlast [OF assms(2)])
  then have "os_RemoveAll (abs_path cs) f1 =
      (if busy f1 cs = [] then (Inr (), prune (prefix cs) f1)
       else (Inl (OsErr EBUSY (abs_path cs)), prune (\<lambda>q. prefix cs q \<and> \<not> list_ex (prefix q) (busy f1 cs)) f1))"
    using os_RemoveAll_plain [of "butlast cs" f1 "last cs"] assms(2-4) f1(1) good by simp
  then show ?thesis
    using assms(2,5,6) by (cases u) (simp_all add: NodeUnpublishVolume_def onFiles_def mapErrG_def callG_def)
qed

end

section \<open>A node for the witnesses\<close>

definition fakeMount :: "string \<Rightarrow> string \<Rightarrow> string \<Rightarrow> string list \<Rightarrow> (fsys, unit) call" where
  "fakeMount source target fstype opts f = (Inr (), mountedOn (comps target) (prune (below (comps target)) f))"

definition fakeUnmount :: "string \<Rightarrow> (fsys, unit) call" where
  "fakeUnmount target f = (if comps target \<in> set (mounts f)
     then (Inr (), (prune (below (comps target)) f)\<lparr>mounts := remove1 (comps target) (mounts f)\<rparr>)
     else (Inl (OsErr EINVAL target), f))"

definition fakePathExists :: "string \<Rightarrow> (fsys, bool) call" where
  "fakePathExists s f = (case stat_at f (start_dir (cwd f) s) (comps s) of
     Inr _ \<Rightarrow> Inr True | Inl ENOENT \<Rightarrow> Inr False | Inl e \<Rightarrow> Inl (OsErr e s), f)"

definition fakeNode :: "cluster nodeDeps" where
  "fakeNode = client.extend fakeClient (nodeDeps.fields fakeMount fakeUnmount fakePathExists)"

lemma fakeNode_sel [simp]:
  "GetListener fakeNode = GetListener fakeClient" "GetListenerClass fakeNode = GetListenerClass fakeClient"
  "GetPodListeners fakeNode = GetPodListeners fakeClient" "GetService fakeNode = GetService fakeClient"
  "GetNode fakeNode = GetNode fakeClient" "GetPod fakeNode = GetPod fakeClient"
  "GetPV fakeNode = GetPV fakeClient" "GetPVC fakeNode = GetPVC fakeClient"
  "ListListeners fakeNode = ListListeners fakeClient"
  "ListEndpointSlices fakeNode = ListEndpointSlices fakeClient"
  "CreateListener fakeNode = CreateListener fakeClient"
  "CreatePodListeners fakeNode = CreatePodListeners fakeClient" "PatchPV fakeNode = PatchPV fakeClient"
  "PatchPod fakeNode = PatchPod fakeClient" "PatchPodListeners fakeNode = PatchPodListeners fakeClient"
  "SetControllerReference fakeNode = SetControllerReference fakeClient"
  "ListenerClassAnnotation fakeNode = ListenerClassAnnotation fakeClient"
  "AnnotationListenerName fakeNode = AnnotationListenerName fakeClient"
  "Mount fakeNode = fakeMount" "Unmount fakeNode = fakeUnmount" "PathExists fakeNode = fakePathExists"
  by (simp_all add: fakeNode_def fakeClient_def client.extend_def nodeDeps.fields_def)

interpretation fakeNode: tmpfs_mounter fakeNode
proof (unfold_locales, goal_cases)
  case (1 p c f)
  then show ?case
    using comps_abs_path [of "p @ [c]"] start_dir_abs [of "p @ [c]"]
    by (auto simp: fakePathExists_def stat_plain)
next
  case (2 cs f opts f')
  then show ?case by (simp add: fakeMount_def comps_abs_path)
next
  case (3 s opts f e f')
  then show ?case by (simp add: fakeMount_def)
next
  case (4 cs f f')
  then show ?case by (auto simp: fakeUnmount_def comps_abs_path split: if_splits)
next
  case (5 s f e f')
  then show ?case by (auto simp: fakeUnmount_def split: if_splits)
qed

definition examplePod :: pod where
  "examplePod = \<lparr>pMeta = (newMeta ''p1'' ''shop'')\<lparr>UID := ''77''\<rparr>, NodeName = ''n1'',
     Containers = [\<lparr>cName = ''c'', cPorts = [\<lparr>cpName = ''http'', cpProtocol = ''TCP'', ContainerPort = 80\<rparr>]\<rparr>],
     Volumes = [\<lparr>vName = ''listener'', vPersistentVolumeClaim = Some ''data'', vEphemeral = False\<rparr>]\<rparr>"

definition examplePV :: persistentVolume where
  "examplePV = \<lparr>pvMeta = newMeta ''pvc-1'' '''', ClaimRef = Some (''shop'', ''data'')\<rparr>"

definition readyListener :: listener where
  "readyListener = exampleListener\<lparr>lStatus := \<lparr>ServiceName = ''web'',
     IngressAddresses = [\<lparr>iaAddress = ''lb.example'', iaAddressType = AddressTypeHostname,
       iaPorts = [(''http'', 80)]\<rparr>], NodePorts = []\<rparr>\<rparr>"

definition publishRequest :: nodePublishRequest where
  "publishRequest = \<lparr>npVolumeId = ''pvc-1'', npTargetPath = abs_path [''v''],
     npVolumeCapability = Some \<lparr>capAccessType = Some MountVolume, capAccessMode = Some SINGLE_NODE_WRITER\<rparr>,
     npVolumeContext = [(CSI_STORAGE_POD_NAME, ''p1''), (CSI_STORAGE_POD_NAMESPACE, ''shop''),
       (''listeners.kubedoop.dev/name'', ''web'')]\<rparr>"

definition exampleHost :: "cluster host" where
  "exampleHost = \<lparr>kube = emptyCluster\<lparr>cListeners := [((''shop'', ''web''), readyListener)],
       cPods := [((''shop'', ''p1''), examplePod)], cPVs := [(('''', ''pvc-1''), examplePV)]\<rparr>,
     files = \<lparr>tree = Map.empty, cwd = [], mounts = [], fault = (\<lambda>_ _. None)\<rparr>\<rparr>"

definition publishedData :: "ingressAddress list" where
  "publishedData = [mkIngressAddress (mkAddressInfo ''lb.example'' AddressTypeHostname) [(''http'', 80)]]"

lemma example_publishCluster:
  "\<exists>k. publishCluster fakeNode publishRequest (kube exampleHost) = (Ok publishedData, k)"
proof -
  have l: "objectKeyOf (lMeta readyListener) = (''shop'', ''web'')"
    "NodePorts (lStatus readyListener) = []"
    by (simp_all add: readyListener_def)
  obtain pv' w1 where pv: "fakePatchPV examplePV (withPVLabels readyListener examplePV) (kube exampleHost) = (Inr pv', w1)"
      "ClaimRef pv' = Some (''shop'', ''data'')"
      "cListeners w1 = cListeners (kube exampleHost)" "cPods w1 = cPods (kube exampleHost)"
      "cPodListeners w1 = []"
    by (simp add: fakePatchPV_def fakePatch_def exampleHost_def examplePV_def emptyCluster_def newMeta_def)
  obtain p' w2 where p: "fakePatchPod examplePod (withPodLabels readyListener examplePod) w1 = (Inr p', w2)"
      "Volumes p' = Volumes examplePod" "Name (pMeta p') = ''p1''" "Namespace (pMeta p') = ''shop''"
      "cListeners w2 = cListeners (kube exampleHost)" "cPodListeners w2 = []"
    using pv(3-5) by (simp add: fakePatchPod_def fakePatch_def exampleHost_def examplePod_def emptyCluster_def
        newMeta_def objectKeyOf_def patchMeta_def)
  have valid: "validateNodePublishVolumeRequest publishRequest = Inr ()"
    by (simp add: validateNodePublishVolumeRequest_def publishRequest_def)
  have vc: "newVolumeContextFromMap fakeNode (npVolumeContext publishRequest)
      = \<lparr>vcPod = Some ''p1'', vcPodNamespace = Some ''shop'', vcPodUID = None, vcServiceAccountName = None,
         vcEphemeral = None, vcProvisioner = None, vcListenerClassName = None, vcListenerName = Some ''web''\<rparr>"
    by (simp add: newVolumeContextFromMap_def publishRequest_def CSI_STORAGE_POD_NAME_def
        CSI_STORAGE_POD_NAMESPACE_def CSI_STORAGE_POD_UID_def CSI_STORAGE_SERVICE_ACCOUNT_NAME_def
        CSI_STORAGE_EPHEMERAL_def STORAGE_KUBERNETES_CSI_PROVISIONER_IDENTITY_def)
  have reads: "getPV fakeNode ''pvc-1'' (kube exampleHost) = (Ok examplePV, kube exampleHost)"
    "getPod fakeNode ''p1'' ''shop'' (kube exampleHost) = (Ok examplePod, kube exampleHost)"
    "fakeGetOwn lMeta cListeners (''shop'', ''web'') (kube exampleHost) = (Inr readyListener, kube exampleHost)"
    "fakeGetOwn lMeta cListeners (''shop'', ''web'') w2 = (Inr readyListener, w2)"
    using p(5) l by (simp_all add: getPV_def getPod_def fake_defs exampleHost_def)
  have addr: "getAddresses fakeNode readyListener p' w2 = (Ok (readyListener, publishedData), w2)"
    using reads(4) l by (simp add: getAddresses_def) (simp add: readyListener_def publishedData_def)
  have "\<exists>w3. publishPodListener fakeNode p' pv' readyListener publishedData w2 = (Ok (), w3)"
    using pv(2) p(2-4,6)
    by (simp add: publishPodListener_def findPodVolumeNameForPVC_def examplePod_def Let_def
        createOrUpdatePodListeners_def buildPodListenersObject_def fake_defs fakeCreatePodListeners_def)
  then show ?thesis
    using valid vc reads(1-3) pv(1) p(1) addr
    by (auto simp: publishCluster_def Let_def getListener_def patchPVLabelsWithListener_def
        patchPodLabelsWithListener_def publishRequest_def)
qed

end
