(* ===== verification/PublishSpec.thy ===== *)
theory PublishSpec
  imports NodeSpec
begin

text \<open>
  The properties of the node service: the order of a publish, the volume it leaves, repeated and
  undone calls, the records it keeps in the cluster, and its error and panic branches.
\<close>

section \<open>Publishing\<close>

text \<open>C13. A publish is a cluster phase followed by a file phase. The file system is untouched until
  the Listener has been found or created, the volume and the pod have been labelled, the addresses are
  known and the PodListeners object is written; when any of these fails the file system is left as it
  was, and what happens on the file system does not affect the cluster.\<close>

theorem publish_order:
  "NodePublishVolume D rq h =
     (case publishCluster D rq (kube h) of
        (Ok ds, k) \<Rightarrow> (case publishFiles D (npTargetPath rq) ds (files h) of
           (r, f) \<Rightarrow> (r, h\<lparr>kube := k, files := f\<rparr>))
      | (Err e, k) \<Rightarrow> (Err e, h\<lparr>kube := k\<rparr>)
      | (Panic p, k) \<Rightarrow> (Panic p, h\<lparr>kube := k\<rparr>))"
  by (simp add: publish_phases bindG_def onKube_def onFiles_def split: prod.splits outcome.splits)

lemma publish_run:
  assumes "publishCluster D rq (kube h) = (Ok ds, k)" "publishFiles D (npTargetPath rq) ds (files h) = (r, f)"
  shows "NodePublishVolume D rq h = (r, h\<lparr>kube := k, files := f\<rparr>)"
  using assms by (simp add: publish_phases bindG_def onKube_def onFiles_def)

lemma publish_inv:
  assumes "NodePublishVolume D rq h = (r, h')"
  shows "(\<exists>ds k f. publishCluster D rq (kube h) = (Ok ds, k)
       \<and> publishFiles D (npTargetPath rq) ds (files h) = (r, f) \<and> h' = h\<lparr>kube := k, files := f\<rparr>)
     \<or> (files h' = files h \<and> (\<forall>u. r \<noteq> Ok u))"
  using assms
  by (auto simp: publish_phases bindG_def onKube_def onFiles_def split: prod.splits outcome.splits)

lemma getAddresses_nonempty: "getAddresses C l p w = (Ok (l', ds), w') \<Longrightarrow> ds \<noteq> []"
  by (auto simp: getAddresses_def go_inv split: if_splits)

lemma publishCluster_nonempty: "publishCluster D rq k = (Ok ds, k') \<Longrightarrow> ds \<noteq> []"
  by (auto simp: publishCluster_def go_inv Let_def dest: getAddresses_nonempty)

lemma example_free: "free_target [''v''] (files exampleHost)"
  by (simp add: free_target_def exampleHost_def good_comp_def busy_def)

lemma example_data: "list_all good_data publishedData"
  by (simp add: publishedData_def good_data_def good_comp_def)

lemma example_mount:
  "Mount fakeNode ''tmpfs'' (abs_path [''v'']) ''tmpfs'' mountOptions (set_entry [''v''] Dir (files exampleHost))
     = (Inr (), mountedOn (comps (abs_path [''v'']))
         (prune (below (comps (abs_path [''v'']))) (set_entry [''v''] Dir (files exampleHost))))"
  by (simp add: fakeMount_def)

lemma example_target: "npTargetPath publishRequest = abs_path [''v'']"
  by (simp add: publishRequest_def)

lemma publish_readable:
  assumes "tmpfs_mounter D" "publishCluster D rq (kube h) = (Ok ds, k)" "npTargetPath rq = abs_path cs"
    and "free_target cs (files h)" "list_all good_data ds" "\<forall>d\<in>set ds. wf_map (Ports d)"
    and "Mount D ''tmpfs'' (abs_path cs) ''tmpfs'' mountOptions (set_entry cs Dir (files h)) = (Inr (), f')"
  shows "\<exists>f. NodePublishVolume D rq h = (Ok (), h\<lparr>kube := k, files := f\<rparr>)
     \<and> os_ReadFile (abs_path (cs @ [''default-address'', ''address''])) f = (Inr (Address (last ds)), f)
     \<and> (\<forall>n p. map_of (Ports (last ds)) n = Some p \<longrightarrow>
          os_ReadFile (abs_path (cs @ [''default-address'', ''ports'', n])) f = (Inr (Itoa (sint p)), f))
     \<and> (\<forall>d\<in>set ds. os_ReadFile (abs_path (cs @ [''addresses'', Address d, ''address''])) f
          = (Inr (Address d), f))"
proof -
  let ?g = "set_entry cs Dir (files h)"
  let ?f = "writtenTree cs ds (mountedOn cs ?g)"
  have ds: "ds \<noteq> []" by (rule publishCluster_nonempty [OF assms(2)])
  have fresh: "fresh_volume cs (mountedOn cs ?g)" using free_target_made(2) [OF assms(4)] by simp
  have "publishFiles D (npTargetPath rq) ds (files h) = (Ok (), ?f)"
    unfolding assms(3) by (rule tmpfs_mounter.publishFiles_free [OF assms(1,4) ds assms(5,7)])
  then have "NodePublishVolume D rq h = (Ok (), h\<lparr>kube := k, files := ?f\<rparr>)"
    by (rule publish_run [OF assms(2)])
  moreover have "os_ReadFile (abs_path (cs @ [''default-address'', ''address''])) ?f
        = (Inr (Address (last ds)), ?f)
     \<and> (\<forall>n p. map_of (Ports (last ds)) n = Some p \<longrightarrow>
          os_ReadFile (abs_path (cs @ [''default-address'', ''ports'', n])) ?f = (Inr (Itoa (sint p)), ?f))"
    using written_default [OF fresh assms(5) ds] assms(6) ds by simp
  moreover have "\<forall>d\<in>set ds. os_ReadFile (abs_path (cs @ [''addresses'', Address d, ''address''])) ?f
          = (Inr (Address d), ?f)"
    using written_address [OF fresh assms(5)] assms(6) by blast
  ultimately show ?thesis by blast
qed

text \<open>C2. A publish onto a free target whose cluster phase yields the addresses \<open>ds\<close> (proper path
  components) succeeds, and afterwards the pod can read them: \<^verbatim>\<open>default-address/address\<close> is the last
  address, \<^verbatim>\<open>default-address/ports/<name>\<close> its ports, and \<^verbatim>\<open>addresses/<a>/address\<close> holds every
  address \<open>a\<close>.\<close>

theorem publish_volume_readable:
  assumes "tmpfs_mounter D" "publishCluster D rq (kube h) = (Ok ds, k)" "npTargetPath rq = abs_path cs"
    and "free_target cs (files h)" "list_all good_data ds" "\<forall>d\<in>set ds. wf_map (Ports d)"
    and "Mount D ''tmpfs'' (abs_path cs) ''tmpfs'' mountOptions (set_entry cs Dir (files h)) = (Inr (), f')"
  shows "\<exists>f. NodePublishVolume D rq h = (Ok (), h\<lparr>kube := k, files := f\<rparr>)
     \<and> os_ReadFile (abs_path (cs @ [''default-address'', ''address''])) f = (Inr (Address (last ds)), f)
     \<and> (\<forall>n p. map_of (Ports (last ds)) n = Some p \<longrightarrow>
          os_ReadFile (abs_path (cs @ [''default-address'', ''ports'', n])) f = (Inr (Itoa (sint p)), f))
     \<and> (\<forall>d\<in>set ds. os_ReadFile (abs_path (cs @ [''addresses'', Address d, ''address''])) f
          = (Inr (Address d), f))"
  by (rule publish_readable [OF assms])

theorem publish_volume_readable_witness:
  "\<exists>h'. NodePublishVolume fakeNode publishRequest exampleHost = (Ok (), h')
     \<and> os_ReadFile ''/v/default-address/address'' (files h') = (Inr ''lb.example'', files h')"
proof -
  obtain k where k: "publishCluster fakeNode publishRequest (kube exampleHost) = (Ok publishedData, k)"
    using example_publishCluster by blast
  have "\<forall>d\<in>set publishedData. wf_map (Ports d)" by (simp add: publishedData_def wf_map_def)
  from publish_volume_readable [OF fakeNode.tmpfs_mounter_axioms k example_target example_free example_data
      this example_mount]
  show ?thesis by (auto simp: publishedData_def abs_path_def)
qed

lemma dir_chain_written:
  assumes "free_target cs f"
  shows "dir_chain (tree (writtenTree cs ds (mountedOn cs (set_entry cs Dir f)))) cs"
  using writtenTree_chain [of cs "mountedOn cs (set_entry cs Dir f)" ds] free_target_made(2) [OF assms] by simp

text \<open>C34. Publishing is not idempotent. After a successful publish, every publish at the same target
  path fails and leaves the file system alone, because \<^verbatim>\<open>mount\<close> refuses a target that exists: a retry
  of a call whose answer was lost can only fail.\<close>

theorem republish_rejected:
  assumes "tmpfs_mounter D" "publishCluster D rq (kube h) = (Ok ds, k)" "npTargetPath rq = abs_path cs"
    and "free_target cs (files h)" "list_all good_data ds"
    and "Mount D ''tmpfs'' (abs_path cs) ''tmpfs'' mountOptions (set_entry cs Dir (files h)) = (Inr (), f')"
    and "NodePublishVolume D rq h = (r1, h1)"
    and "npTargetPath rq' = abs_path cs" "NodePublishVolume D rq' h1 = (r2, h2)"
  shows "r1 = Ok () \<and> r2 \<noteq> Ok () \<and> files h2 = files h1"
proof -
  let ?f = "writtenTree cs ds (mountedOn cs (set_entry cs Dir (files h)))"
  have "publishFiles D (npTargetPath rq) ds (files h) = (Ok (), ?f)"
    unfolding assms(3)
    by (rule tmpfs_mounter.publishFiles_free [OF assms(1,4) publishCluster_nonempty [OF assms(2)] assms(5,6)])
  from publish_run [OF assms(2) this] assms(7) have h1: "r1 = Ok ()" "files h1 = ?f" by auto
  have cs: "list_all good_comp cs" "cs \<noteq> []" using assms(4) by (auto simp: free_target_def)
  have "publishFiles D (abs_path cs) ds' (files h1) = (Err (GrpcErr Internal (statusError Internal
     (''target path '' @ abs_path cs @ '' already exists''))), files h1)" for ds'
    by (rule tmpfs_mounter.publishFiles_taken [OF assms(1) cs]) (simp add: h1 dir_chain_written [OF assms(4)])
  with publish_inv [OF assms(9)] assms(8) h1(1) show ?thesis by auto
qed

theorem republish_rejected_witness:
  "\<exists>h1 r2 h2. NodePublishVolume fakeNode publishRequest exampleHost = (Ok (), h1)
     \<and> NodePublishVolume fakeNode publishRequest h1 = (r2, h2) \<and> r2 \<noteq> Ok () \<and> files h2 = files h1"
proof -
  obtain k where k: "publishCluster fakeNode publishRequest (kube exampleHost) = (Ok publishedData, k)"
    using example_publishCluster by blast
  obtain r1 h1 r2 h2 where p1: "NodePublishVolume fakeNode publishRequest exampleHost = (r1, h1)"
    and p2: "NodePublishVolume fakeNode publishRequest h1 = (r2, h2)"
    by (metis surj_pair)
  from republish_rejected [OF fakeNode.tmpfs_mounter_axioms k example_target example_free example_data
      example_mount p1 example_target p2] p1 p2
  show ?thesis by auto
qed

text \<open>C35. A mount that fails blocks the target. The publish returns \<^verbatim>\<open>Internal\<close> but leaves the directory
  that it made for the mount, so every further publish at the path is refused although nothing was ever
  published there; unpublishing removes the directory and makes the target free again.\<close>

theorem failed_mount_blocks_target:
  assumes "tmpfs_mounter D" "publishCluster D rq (kube h) = (Ok ds, k)" "npTargetPath rq = abs_path cs"
    and "free_target cs (files h)"
    and "Mount D ''tmpfs'' (abs_path cs) ''tmpfs'' mountOptions (set_entry cs Dir (files h)) = (Inl e, f')"
    and "NodePublishVolume D rq h = (r1, h1)"
    and "npTargetPath rq' = abs_path cs" "NodePublishVolume D rq' h1 = (r2, h2)"
    and "volumeId \<noteq> ''''" "NodeUnpublishVolume D volumeId (abs_path cs) h2 = (r3, h3)"
  shows "r1 = Err (GrpcErr Internal (GrpcErr Internal e)) \<and> files h1 = set_entry cs Dir (files h)
     \<and> r2 \<noteq> Ok () \<and> files h2 = files h1 \<and> r3 = Ok () \<and> free_target cs (files h3)"
proof -
  have "publishFiles D (npTargetPath rq) ds (files h)
      = (Err (GrpcErr Internal (GrpcErr Internal e)), set_entry cs Dir (files h))"
    unfolding assms(3) by (rule tmpfs_mounter.publishFiles_mount_failed [OF assms(1,4,5)])
  from publish_run [OF assms(2) this] assms(6)
  have h1: "r1 = Err (GrpcErr Internal (GrpcErr Internal e))" "files h1 = set_entry cs Dir (files h)" by auto
  have cs: "list_all good_comp cs" "cs \<noteq> []" using assms(4) by (auto simp: free_target_def)
  have chain: "dir_chain (tree (files h1)) cs"
    using free_target_made(2) [OF assms(4)] by (simp add: h1 fresh_volume_def)
  have "publishFiles D (abs_path cs) ds' (files h1) = (Err (GrpcErr Internal (statusError Internal
     (''target path '' @ abs_path cs @ '' already exists''))), files h1)" for ds'
    by (rule tmpfs_mounter.publishFiles_taken [OF assms(1) cs chain])
  with publish_inv [OF assms(8)] assms(7) have h2: "r2 \<noteq> Ok ()" "files h2 = files h1" by auto
  have "dir_chain (tree (files h2)) (butlast cs)" "fault (files h2) SysRemove cs = None"
    using chain cs(2) assms(4) by (simp_all add: h1 h2 dir_chain_butlast free_target_def)
  note run = tmpfs_mounter.unpublish_run [OF assms(1) cs this assms(9)]
  obtain u f1 where u: "Unmount D (abs_path cs) (files h2) = (u, f1)" by force
  note f1 = tmpfs_mounter.unmount_cases [OF assms(1) cs(1) u]
  have idle: "busy (files h) cs = []" using assms(4) by (simp add: free_target_def)
  then have "cs \<notin> set (mounts (files h))" by (auto simp: busy_def filter_empty_conv)
  then have m: "mounts f1 = mounts (files h)"
    using f1(4) by (auto simp: h1 h2 remove1_idem split: sum.splits)
  with run [OF u] assms(10) idle have h3: "r3 = Ok ()" "files h3 = prune (prefix cs) f1"
    by (auto simp: busy_def)
  have "tree (files h3) q = tree (files h) q" for q
    using assms(4) f1(3) [of q] by (auto simp: h1 h2 h3 free_target_def below_def strict_prefix_def)
  then have "tree (files h3) = tree (files h)" by blast
  with assms(4) m f1(1) have "free_target cs (files h3)" by (simp add: h1 h2 h3 free_target_def busy_def)
  with h1 h2 h3(1) show ?thesis by simp
qed

definition brokenNode :: "cluster nodeDeps" where
  "brokenNode = fakeNode\<lparr>Mount := \<lambda>source target fstype opts f. (Inl (NewErr ''mount failed''), f)\<rparr>"

interpretation brokenNode: tmpfs_mounter brokenNode
  by unfold_locales
    (use fakeNode.exists_dir fakeNode.unmount_top fakeNode.unmount_failed in \<open>auto simp: brokenNode_def\<close>)

theorem failed_mount_blocks_target_witness:
  "\<exists>h1 r2 h2 h3. NodePublishVolume brokenNode publishRequest exampleHost
       = (Err (GrpcErr Internal (GrpcErr Internal (NewErr ''mount failed''))), h1)
     \<and> NodePublishVolume brokenNode publishRequest h1 = (r2, h2) \<and> r2 \<noteq> Ok ()
     \<and> NodeUnpublishVolume brokenNode ''pvc-1'' (abs_path [''v'']) h2 = (Ok (), h3)
     \<and> free_target [''v''] (files h3)"
proof -
  have "fst (publishCluster brokenNode publishRequest (kube exampleHost)) = Ok publishedData" by code_simp
  then obtain k where k: "publishCluster brokenNode publishRequest (kube exampleHost) = (Ok publishedData, k)"
    by (metis prod.collapse)
  have mnt: "Mount brokenNode ''tmpfs'' (abs_path [''v'']) ''tmpfs'' mountOptions
      (set_entry [''v''] Dir (files exampleHost)) = (Inl (NewErr ''mount failed''), set_entry [''v''] Dir (files exampleHost))"
    by (simp add: brokenNode_def)
  obtain r1 h1 r2 h2 r3 h3 where p1: "NodePublishVolume brokenNode publishRequest exampleHost = (r1, h1)"
    and p2: "NodePublishVolume brokenNode publishRequest h1 = (r2, h2)"
    and p3: "NodeUnpublishVolume brokenNode ''pvc-1'' (abs_path [''v'']) h2 = (r3, h3)"
    by (metis surj_pair)
  have id: "''pvc-1'' \<noteq> ''''" by simp
  from failed_mount_blocks_target [OF brokenNode.tmpfs_mounter_axioms k example_target example_free mnt p1
      example_target p2 id p3] p1 p2 p3
  show ?thesis by auto
qed

text \<open>C8. Unpublishing undoes a publish. The publish leaves a tmpfs mounted on the target. When the
  unmount succeeds, the unpublish succeeds and the tree and the mounts are those before the publish. When it
  fails, the error is passed over and \<^verbatim>\<open>os.RemoveAll\<close> meets the mount point: the call returns \<^verbatim>\<open>Internal\<close>, the
  target stays mounted, and the files of the volume are gone nevertheless.\<close>

theorem publish_unpublish_restores:
  assumes "tmpfs_mounter D" "publishCluster D rq (kube h) = (Ok ds, k)" "npTargetPath rq = abs_path cs"
    and "free_target cs (files h)" "list_all good_data ds"
    and "Mount D ''tmpfs'' (abs_path cs) ''tmpfs'' mountOptions (set_entry cs Dir (files h)) = (Inr (), f')"
    and "NodePublishVolume D rq h = (r1, h1)" "volumeId \<noteq> ''''"
    and "Unmount D (abs_path cs) (files h1) = (u, f1)"
    and "NodeUnpublishVolume D volumeId (abs_path cs) h1 = (r2, h2)"
  shows "r1 = Ok () \<and> mounts (files h1) = cs # mounts (files h)
     \<and> (case u of
          Inr _ \<Rightarrow> r2 = Ok () \<and> tree (files h2) = tree (files h) \<and> mounts (files h2) = mounts (files h)
        | Inl e \<Rightarrow> r2 = Err (GrpcErr Internal (OsErr EBUSY (abs_path cs)))
            \<and> mounts (files h2) = cs # mounts (files h)
            \<and> tree (files h2) = (tree (files h))(cs \<mapsto> Dir))"
proof -
  let ?f = "writtenTree cs ds (mountedOn cs (set_entry cs Dir (files h)))"
  have "publishFiles D (npTargetPath rq) ds (files h) = (Ok (), ?f)"
    unfolding assms(3)
    by (rule tmpfs_mounter.publishFiles_free [OF assms(1,4) publishCluster_nonempty [OF assms(2)] assms(5,6)])
  from publish_run [OF assms(2) this] assms(7) have h1: "r1 = Ok ()" "files h1 = ?f" by auto
  have cs: "list_all good_comp cs" "cs \<noteq> []" and none: "\<And>q. prefix cs q \<Longrightarrow> tree (files h) q = None"
    and idle: "busy (files h) cs = []"
    using assms(4) by (auto simp: free_target_def)
  have chain: "dir_chain (tree (files h1)) (butlast cs)"
    using dir_chain_written [OF assms(4), of ds] cs(2) by (simp add: h1 dir_chain_butlast)
  have "fault (files h1) SysRemove cs = None" using assms(4) by (simp add: h1 free_target_def)
  note run = tmpfs_mounter.unpublish_run [OF assms(1) cs chain this assms(8,9)]
  note f1 = tmpfs_mounter.unmount_cases [OF assms(1) cs(1) assms(9)]
  have out: "tree f1 q = tree (files h) q" if "\<not> prefix cs q" for q
    using f1(3) [of q] that by (simp add: h1 below_def strict_prefix_def writtenTree_frame) auto
  show ?thesis
  proof (cases u)
    case (Inr x)
    then have m: "mounts f1 = mounts (files h)" using f1(4) by (simp add: h1)
    then have "busy f1 cs = []" using idle by (simp add: busy_def)
    with run assms(10) have "r2 = Ok ()" "files h2 = prune (prefix cs) f1" by auto
    with h1 Inr out none m show ?thesis by (auto simp: fun_eq_iff)
  next
    case (Inl e)
    then have m: "mounts f1 = cs # mounts (files h)" using f1(4) by (simp add: h1)
    then have busy: "busy f1 cs = [cs]" using idle by (simp add: busy_def)
    have "tree f1 cs = Some Dir" using f1(3) [of cs] by (simp add: h1 below_def writtenTree_frame)
    moreover have "prefix cs q \<and> prefix q cs \<longleftrightarrow> q = cs" for q by (auto intro: prefix_order.antisym)
    moreover from busy run assms(10) have "r2 = Err (GrpcErr Internal (OsErr EBUSY (abs_path cs)))"
      "files h2 = prune (\<lambda>q. prefix cs q \<and> \<not> prefix q cs) f1" by auto
    ultimately show ?thesis using h1 Inl out none m by (auto simp: fun_eq_iff)
  qed
qed

theorem publish_unpublish_restores_witness:
  "\<exists>h1 h2. NodePublishVolume fakeNode publishRequest exampleHost = (Ok (), h1)
     \<and> mounts (files h1) = [[''v'']]
     \<and> NodeUnpublishVolume fakeNode ''pvc-1'' (abs_path [''v'']) h1 = (Ok (), h2)
     \<and> tree (files h2) = Map.empty \<and> mounts (files h2) = []"
proof -
  obtain k where k: "publishCluster fakeNode publishRequest (kube exampleHost) = (Ok publishedData, k)"
    using example_publishCluster by blast
  obtain r1 h1 u f1 r2 h2 where p1: "NodePublishVolume fakeNode publishRequest exampleHost = (r1, h1)"
    and u: "Unmount fakeNode (abs_path [''v'']) (files h1) = (u, f1)"
    and p2: "NodeUnpublishVolume fakeNode ''pvc-1'' (abs_path [''v'']) h1 = (r2, h2)"
    by (metis surj_pair)
  have id: "''pvc-1'' \<noteq> ''''" by simp
  note all = publish_unpublish_restores [OF fakeNode.tmpfs_mounter_axioms k example_target example_free example_data
      example_mount p1 id u p2]
  then have "mounts (files h1) = [[''v'']]" by (simp add: exampleHost_def)
  moreover have "comps (abs_path [''v'']) = [''v'']" by (simp add: comps_abs_path good_comp_def)
  ultimately have "u = Inr ()" using u by (simp add: fakeUnmount_def)
  with all p1 p2 show ?thesis by (auto simp: exampleHost_def)
qed

text \<open>C28. Unpublishing can be repeated. A call succeeds exactly when, after the attempt to unmount,
  nothing is mounted at the target or below it; a target that is not there, and one that was unmounted by
  hand, are fine. Then the target is gone with everything below it, and a further call succeeds and changes
  neither the tree nor the mounts.\<close>

theorem unpublish_idempotent:
  assumes "tmpfs_mounter D" "list_all good_comp cs" "cs \<noteq> []" "dir_chain (tree (files h)) (butlast cs)"
    and "fault (files h) SysRemove cs = None" "volumeId \<noteq> ''''"
    and "Unmount D (abs_path cs) (files h) = (u, f1)"
    and "NodeUnpublishVolume D volumeId (abs_path cs) h = (r1, h1)"
    and "NodeUnpublishVolume D volumeId (abs_path cs) h1 = (r2, h2)"
  shows "(r1 = Ok () \<longleftrightarrow> (\<forall>m\<in>set (case u of Inr _ \<Rightarrow> remove1 cs (mounts (files h)) | Inl _ \<Rightarrow> mounts (files h)).
            \<not> prefix cs m))
     \<and> (r1 = Ok () \<longrightarrow> (\<forall>q. tree (files h1) q = (if prefix cs q then None else tree (files h) q))
          \<and> (\<forall>m\<in>set (mounts (files h1)). \<not> prefix cs m)
          \<and> r2 = Ok () \<and> tree (files h2) = tree (files h1) \<and> mounts (files h2) = mounts (files h1))"
proof -
  note run = tmpfs_mounter.unpublish_run [OF assms(1-3)] and f1 = tmpfs_mounter.unmount_cases [OF assms(1,2)]
  have busy: "busy f cs = [] \<longleftrightarrow> (\<forall>m\<in>set (mounts f). \<not> prefix cs m)" for f
    by (auto simp: busy_def filter_empty_conv)
  have first: "r1 = Ok () \<longleftrightarrow> busy f1 cs = []" "r1 = Ok () \<Longrightarrow> files h1 = prune (prefix cs) f1"
    using run [OF assms(4-7)] assms(8) by (auto split: if_splits)
  have "(\<forall>q. tree (files h1) q = (if prefix cs q then None else tree (files h) q))
      \<and> busy (files h1) cs = [] \<and> r2 = Ok () \<and> tree (files h2) = tree (files h1) \<and> mounts (files h2) = mounts (files h1)"
    if ok: "r1 = Ok ()"
  proof -
    note h1 = first(2) [OF ok]
    have t1: "tree (files h1) q = (if prefix cs q then None else tree (files h) q)" for q
      using f1(3) [OF assms(7), of q] by (auto simp: h1 below_def strict_prefix_def)
    have idle: "busy (files h1) cs = []" using first(1) ok by (simp add: h1 busy_def)
    obtain u2 f2 where u2: "Unmount D (abs_path cs) (files h1) = (u2, f2)" by force
    note f2 = f1 [OF u2]
    have "cs \<notin> set (mounts (files h1))" using idle by (auto simp: busy)
    then have m2: "mounts f2 = mounts (files h1)" using f2(4) by (auto simp: remove1_idem split: sum.splits)
    have "dir_chain (tree (files h1)) (butlast cs) = dir_chain (tree (files h)) (butlast cs)"
      using t1 by (intro dir_chain_cong) (simp add: not_prefix_butlast [OF assms(3)])
    then have chain: "dir_chain (tree (files h1)) (butlast cs)" using assms(4) by simp
    have "fault (files h1) SysRemove cs = None" using f1(1) [OF assms(7)] assms(5) by (simp add: h1)
    from run [OF chain this assms(6) u2] assms(9) m2 idle
    have "r2 = Ok ()" "files h2 = prune (prefix cs) f2" by (auto simp: busy_def)
    moreover have "tree (prune (prefix cs) f2) q = tree (files h1) q" for q
      using f2(3) [of q] t1 [of q] by (auto simp: below_def strict_prefix_def)
    ultimately show ?thesis using t1 idle m2 by (auto simp: fun_eq_iff)
  qed
  with first(1) f1(4) [OF assms(7)] show ?thesis by (simp add: busy)
qed

theorem unpublish_idempotent_witness:
  "\<exists>h1 h2. NodeUnpublishVolume fakeNode ''pvc-1'' (abs_path [''v''])
       (exampleHost\<lparr>files := mountedOn [''v''] (set_entry [''v''] Dir (files exampleHost))\<rparr>) = (Ok (), h1)
     \<and> NodeUnpublishVolume fakeNode ''pvc-1'' (abs_path [''v'']) h1 = (Ok (), h2)
     \<and> tree (files h2) = tree (files h1) \<and> mounts (files h2) = []"
proof -
  let ?h = "exampleHost\<lparr>files := mountedOn [''v''] (set_entry [''v''] Dir (files exampleHost))\<rparr>"
  obtain u f1 r1 h1 r2 h2 where u: "Unmount fakeNode (abs_path [''v'']) (files ?h) = (u, f1)"
    and p: "NodeUnpublishVolume fakeNode ''pvc-1'' (abs_path [''v'']) ?h = (r1, h1)"
      "NodeUnpublishVolume fakeNode ''pvc-1'' (abs_path [''v'']) h1 = (r2, h2)"
    by (metis surj_pair)
  have pre: "list_all good_comp [''v'']" "[''v''] \<noteq> ([] :: path)"
    "dir_chain (tree (files ?h)) (butlast [''v''])" "fault (files ?h) SysRemove [''v''] = None" "''pvc-1'' \<noteq> ''''"
    by (simp_all add: good_comp_def exampleHost_def)
  have "comps (abs_path [''v'']) = [''v'']" by (simp add: comps_abs_path good_comp_def)
  then have ok: "u = Inr ()" "mounts f1 = []" using u by (auto simp: fakeUnmount_def exampleHost_def)
  have "NodeUnpublishVolume fakeNode ''pvc-1'' (abs_path [''v'']) ?h = (Ok (), ?h\<lparr>files := prune (prefix [''v'']) f1\<rparr>)"
    using fakeNode.unpublish_run [OF pre u] ok(2) by (simp add: busy_def)
  with p(1) ok(2) have h1: "mounts (files h1) = []" by auto
  from unpublish_idempotent [OF fakeNode.tmpfs_mounter_axioms pre u p] ok(1) p h1 show ?thesis
    by (auto simp: exampleHost_def)
qed

section \<open>What is recorded in the cluster\<close>

lemma publishPodListener_volume:
  assumes "publishPodListener C p pv l ds w = (Ok (), w')"
  shows "\<exists>refNs refName v. ClaimRef pv = Some (refNs, refName)
     \<and> findPodVolumeNameForPVC p refName = Inr v
     \<and> createOrUpdatePodListeners C (buildPodListenersObject C p l v (determinePodListenerScope l) ds) v w
         = (Ok (), w')"
  using assms by (auto simp: publishPodListener_def go_inv Let_def)

lemma buildPodListenersObject_listeners:
  "plListeners (buildPodListenersObject C p l v sc ds) = [(v, \<lparr>Scope = sc, ListenerIngresses =
     map (\<lambda>a. \<lparr>iaAddress = Address a, iaAddressType = AddressType a, iaPorts = Ports a\<rparr>) ds\<rparr>)]"
  by (simp add: buildPodListenersObject_def Let_def)

lemma buildPodListenersObject_key:
  assumes "\<And>ow m m'. SetControllerReference C ow m = Inr m' \<Longrightarrow> \<exists>os. m' = m\<lparr>OwnerReferences := os\<rparr>"
  shows "objectKeyOf (plMeta (buildPodListenersObject C p l v sc ds)) = (Namespace (pMeta p), podListenersName p)"
  using assms [of "(''Listener'', lMeta l)" "newMeta (podListenersName p) (Namespace (pMeta p))"]
  by (auto simp: buildPodListenersObject_def Let_def objectKeyOf_def newMeta_def split: sum.splits)

text \<open>C14. Publishing a volume records it in the pod's PodListeners object. After the call, the object
  \<^verbatim>\<open>pod-<uid>\<close> in the pod's namespace maps the pod's name for the volume to the scope of the Listener
  and the addresses that go into the volume, and the entries of the pod's other volumes are the ones
  that were there before.\<close>

theorem publishPodListener_records:
  assumes "kube_podlisteners C storedPL" "publishPodListener C p pv l ds w = (Ok (), w')"
    and "\<forall>ow m m'. SetControllerReference C ow m = Inr m' \<longrightarrow> (\<exists>os. m' = m\<lparr>OwnerReferences := os\<rparr>)"
    and "\<forall>old. storedPL w (Namespace (pMeta p), podListenersName p) = Some old \<longrightarrow> wf_map (plListeners old)"
  shows "\<exists>refNs refName v z. ClaimRef pv = Some (refNs, refName)
     \<and> findPodVolumeNameForPVC p refName = Inr v
     \<and> storedPL w' (Namespace (pMeta p), podListenersName p) = Some z
     \<and> map_of (plListeners z) =
         (case storedPL w (Namespace (pMeta p), podListenersName p) of
            None \<Rightarrow> Map.empty | Some old \<Rightarrow> map_of (plListeners old))
         (v \<mapsto> \<lparr>Scope = determinePodListenerScope l, ListenerIngresses =
            map (\<lambda>a. \<lparr>iaAddress = Address a, iaAddressType = AddressType a, iaPorts = Ports a\<rparr>) ds\<rparr>)"
proof -
  obtain refNs refName v where v: "ClaimRef pv = Some (refNs, refName)"
      "findPodVolumeNameForPVC p refName = Inr v"
    and run: "createOrUpdatePodListeners C
      (buildPodListenersObject C p l v (determinePodListenerScope l) ds) v w = (Ok (), w')"
    using publishPodListener_volume [OF assms(2)] by blast
  have key: "objectKeyOf (plMeta (buildPodListenersObject C p l v sc ds)) = (Namespace (pMeta p), podListenersName p)"
    for sc
    using assms(3) by (intro buildPodListenersObject_key) blast
  from kube_podlisteners.createOrUpdate_merges [OF assms(1) run buildPodListenersObject_listeners]
    assms(4) v show ?thesis
    by (auto simp: key split: option.splits)
qed

theorem publishPodListener_records_witness:
  "\<exists>w' z. publishPodListener fakeClient examplePod examplePV readyListener publishedData
       (emptyCluster\<lparr>cPodListeners := [((''shop'', ''pod-77''), \<lparr>plMeta = newMeta ''pod-77'' ''shop'',
          plListeners = [(''other'', zeroPodListener)]\<rparr>)]\<rparr>) = (Ok (), w')
     \<and> storedAt plMeta cPodListeners w' (''shop'', ''pod-77'') = Some z
     \<and> map_of (plListeners z) ''other'' = Some zeroPodListener
     \<and> map_of (plListeners z) ''listener'' = Some \<lparr>Scope = PodlistenerClusterScope, ListenerIngresses =
          [\<lparr>iaAddress = ''lb.example'', iaAddressType = AddressTypeHostname, iaPorts = [(''http'', 80)]\<rparr>]\<rparr>"
proof -
  let ?w = "emptyCluster\<lparr>cPodListeners := [((''shop'', ''pod-77''), \<lparr>plMeta = newMeta ''pod-77'' ''shop'',
    plListeners = [(''other'', zeroPodListener)]\<rparr>)]\<rparr>"
  have key: "(Namespace (pMeta examplePod), podListenersName examplePod) = (''shop'', ''pod-77'')"
    by (simp add: examplePod_def podListenersName_def newMeta_def)
  have old: "storedAt plMeta cPodListeners ?w (''shop'', ''pod-77'')
      = Some \<lparr>plMeta = newMeta ''pod-77'' ''shop'', plListeners = [(''other'', zeroPodListener)]\<rparr>"
    by (simp add: storedAt_def objectKeyOf_def newMeta_def)
  have oldkey: "objectKeyOf (newMeta ''pod-77'' ''shop'') = (''shop'', ''pod-77'')"
    by (simp add: objectKeyOf_def newMeta_def)
  have get: "fakeGetOwn plMeta cPodListeners (''shop'', ''pod-77'') ?w
      = (Inr \<lparr>plMeta = newMeta ''pod-77'' ''shop'', plListeners = [(''other'', zeroPodListener)]\<rparr>, ?w)"
    by (simp only: fakeGetOwn_def old option.case)
  have vol: "findPodVolumeNameForPVC examplePod ''data'' = Inr ''listener''"
    by (simp add: findPodVolumeNameForPVC_def examplePod_def)
  have objkey: "objectKeyOf (plMeta (buildPodListenersObject fakeClient examplePod readyListener v sc ds))
      = (''shop'', ''pod-77'')" for v sc ds
    unfolding key [symmetric] by (rule buildPodListenersObject_key) (simp add: fakeSetControllerReference_frame)
  obtain w' where w': "publishPodListener fakeClient examplePod examplePV readyListener publishedData ?w = (Ok (), w')"
    using get vol oldkey
    by (simp add: publishPodListener_def examplePV_def Let_def createOrUpdatePodListeners_def objkey
        fakePatchPodListeners_def fakePatch_def)
  have "\<exists>refNs refName v z. ClaimRef examplePV = Some (refNs, refName)
     \<and> findPodVolumeNameForPVC examplePod refName = Inr v
     \<and> storedAt plMeta cPodListeners w' (Namespace (pMeta examplePod), podListenersName examplePod) = Some z
     \<and> map_of (plListeners z) =
         (case storedAt plMeta cPodListeners ?w (Namespace (pMeta examplePod), podListenersName examplePod) of
            None \<Rightarrow> Map.empty | Some old \<Rightarrow> map_of (plListeners old))
         (v \<mapsto> \<lparr>Scope = determinePodListenerScope readyListener, ListenerIngresses =
            map (\<lambda>a. \<lparr>iaAddress = Address a, iaAddressType = AddressType a, iaPorts = Ports a\<rparr>) publishedData\<rparr>)"
    by (rule publishPodListener_records [OF fake.kube_podlisteners_axioms w'])
      (simp_all add: key old wf_map_def fakeSetControllerReference_frame)
  with w' vol show ?thesis
    by (auto simp: key old examplePV_def publishedData_def readyListener_def determinePodListenerScope_def)
qed

text \<open>C26. Creating the Listener of a claim can be retried: once it has succeeded, running it again
  finds the stored Listener, returns the same object and changes nothing. This is what makes the
  cluster phase of a publish repeatable.\<close>

theorem createListener_repeatable:
  assumes "kube_listeners C storedL" "createListener C vc pv p w = (Ok l, w')"
  shows "createListener C vc pv p w' = (Ok l, w')"
  by (rule kube_listeners.createListener_retry [OF assms])

definition classContext :: volumeContext where
  "classContext = \<lparr>vcPod = Some ''p1'', vcPodNamespace = Some ''shop'', vcPodUID = None,
     vcServiceAccountName = None, vcEphemeral = None, vcProvisioner = None,
     vcListenerClassName = Some ''external'', vcListenerName = None\<rparr>"

definition classCluster :: cluster where
  "classCluster = emptyCluster\<lparr>cClasses := [(('''', ''external''), exampleClass)],
     cPVCs := [((''shop'', ''data''), \<lparr>pvcMeta = newMeta ''data'' ''shop''\<rparr>)]\<rparr>"

lemma example_createListener:
  "\<exists>l w'. createListener fakeClient classContext examplePV examplePod classCluster = (Ok l, w')
     \<and> lSpec l = \<lparr>ClassName = ''external'', lsPorts = [\<lparr>psName = ''http'', psProtocol = ''TCP'', psPort = 80\<rparr>],
         ExtraPodSelectorLabels = [], lsPublishNotReadyAddresses = Some True\<rparr>"
  by (simp add: createListener_def classContext_def examplePV_def getPVC_def fake_defs classCluster_def
      getPodPorts_def examplePod_def newListener_def Let_def fakeSetControllerReference_def newMeta_def
      fakeCreateListener_def emptyCluster_def exampleClass_def)

theorem createListener_repeatable_witness:
  "\<exists>l w'. createListener fakeClient classContext examplePV examplePod classCluster = (Ok l, w')
     \<and> createListener fakeClient classContext examplePV examplePod w' = (Ok l, w')"
proof -
  obtain l w' where "createListener fakeClient classContext examplePV examplePod classCluster = (Ok l, w')"
    using example_createListener by blast
  with createListener_repeatable [OF fake.kube_listeners_axioms this] show ?thesis by blast
qed

text \<open>C27. The Listener that is submitted for a claim has the claim's name and labels and the class of
  the volume context, is owned by the volume, and exposes exactly the named ports of the pod's
  containers in their order, at least one. The answer is the created Listener, or the stored one of
  that name when there already is one.\<close>

theorem createListener_submits:
  assumes "kube_reads C" "createListener C vc pv p w = (Ok l, w')"
  shows "\<exists>cn ns lc refNs refName pvc m x. vcListenerClassName vc = Some cn \<and> vcPodNamespace vc = Some ns
     \<and> ClaimRef pv = Some (refNs, refName)
     \<and> fst (GetListenerClass C (ns, cn) w) = Inr lc \<and> fst (GetPVC C (refNs, refName) w) = Inr pvc
     \<and> SetControllerReference C (''PersistentVolume'', pvMeta pv)
         ((newMeta (Name (pvcMeta pvc)) ns)\<lparr>Labels := Labels (pvcMeta pvc)\<rparr>) = Inr m
     \<and> lMeta x = m \<and> ClassName (lSpec x) = Name (lcMeta lc)
     \<and> lsPorts (lSpec x) = [\<lparr>psName = cpName cp, psProtocol = cpProtocol cp, psPort = ContainerPort cp\<rparr>.
          c \<leftarrow> Containers p, cp \<leftarrow> cPorts c, cpName cp \<noteq> '''']
     \<and> lsPorts (lSpec x) \<noteq> []
     \<and> (CreateListener C x w = (Inr l, w')
        \<or> (\<exists>e w1. CreateListener C x w = (Inl e, w1) \<and> IsAlreadyExists e
             \<and> GetListener C (objectKeyOf (lMeta x)) w1 = (Inr l, w')))"
proof -
  have ports: "containerPorts ps = [\<lparr>psName = cpName cp, psProtocol = cpProtocol cp, psPort = ContainerPort cp\<rparr>.
      cp \<leftarrow> ps, cpName cp \<noteq> '''']" for ps
    by (induction ps) auto
  from assms(2) obtain cn ns lc w1 rns rn pvc w2 pts m where
      vc: "vcListenerClassName vc = Some cn" "vcPodNamespace vc = Some ns" "ClaimRef pv = Some (rns, rn)"
        "getPodPorts p = Inr pts"
    and lc: "GetListenerClass C (ns, cn) w = (Inr lc, w1)" and pvc: "GetPVC C (rns, rn) w1 = (Inr pvc, w2)"
    and m: "SetControllerReference C (''PersistentVolume'', pvMeta pv) (lMeta (newListener pvc ns lc pts)) = Inr m"
    and run: "CreateListener C ((newListener pvc ns lc pts)\<lparr>lMeta := m\<rparr>) w2 = (Inr l, w')
      \<or> (\<exists>e w3. CreateListener C ((newListener pvc ns lc pts)\<lparr>lMeta := m\<rparr>) w2 = (Inl e, w3)
          \<and> IsAlreadyExists e \<and> GetListener C (objectKeyOf m) w3 = (Inr l, w'))"
    by (rule createListener_Ok)
  have w: "w1 = w" "w2 = w"
    using kube_reads.reads_eq(2) [OF assms(1) lc] kube_reads.reads_eq(8) [OF assms(1) pvc] by simp_all
  have pts: "pts \<noteq> []" "pts = concat (map (\<lambda>c. containerPorts (cPorts c)) (Containers p))"
    using vc(4) by (auto simp: getPodPorts_def Let_def split: if_splits)
  show ?thesis
    by (rule exI [of _ cn], rule exI [of _ ns], rule exI [of _ lc], rule exI [of _ rns], rule exI [of _ rn],
        rule exI [of _ pvc], rule exI [of _ m], rule exI [of _ "(newListener pvc ns lc pts)\<lparr>lMeta := m\<rparr>"])
      (use vc(1-3) lc pvc m run w pts(1) in \<open>simp add: newListener_def pts(2) ports\<close>)
qed

theorem createListener_submits_witness:
  "\<exists>l w' x. createListener fakeClient classContext examplePV examplePod classCluster = (Ok l, w')
     \<and> ClassName (lSpec x) = ''external''
     \<and> lsPorts (lSpec x) = [\<lparr>psName = ''http'', psProtocol = ''TCP'', psPort = 80\<rparr>]
     \<and> CreateListener fakeClient x classCluster = (Inr l, w')"
proof -
  obtain l w' where l: "createListener fakeClient classContext examplePV examplePod classCluster = (Ok l, w')"
    using example_createListener by blast
  have new: "CreateListener fakeClient x classCluster \<noteq> (Inl e, w1)" for x e w1
    by (simp add: fakeCreateListener_def Let_def classCluster_def emptyCluster_def)
  have cls: "GetListenerClass fakeClient (ns, ''external'') classCluster = (Inr exampleClass, classCluster)" for ns
    by (simp add: fake_defs classCluster_def)
  have ports: "[\<lparr>psName = cpName cp, psProtocol = cpProtocol cp, psPort = ContainerPort cp\<rparr>.
      c \<leftarrow> Containers examplePod, cp \<leftarrow> cPorts c, cpName cp \<noteq> ''''] = [\<lparr>psName = ''http'', psProtocol = ''TCP'', psPort = 80\<rparr>]"
    by (simp add: examplePod_def)
  from createListener_submits [OF fake.kube_reads_axioms l] obtain cn ns lc x where
    "vcListenerClassName classContext = Some cn" "fst (GetListenerClass fakeClient (ns, cn) classCluster) = Inr lc"
    "ClassName (lSpec x) = Name (lcMeta lc)"
    "lsPorts (lSpec x) = [\<lparr>psName = cpName cp, psProtocol = cpProtocol cp, psPort = ContainerPort cp\<rparr>.
      c \<leftarrow> Containers examplePod, cp \<leftarrow> cPorts c, cpName cp \<noteq> '''']"
    "CreateListener fakeClient x classCluster = (Inr l, w')"
    using new by blast
  with l cls ports show ?thesis by (auto simp: classContext_def exampleClass_def newMeta_def)
qed

text \<open>The addresses that are published come from one source: with node ports in the Listener's
  status it is the single address of the pod's node with those ports, under the scope Node, and without
  them it is the list of ingress addresses of the status in order, under the scope Cluster. A status
  with neither is an error, which the caller retries.\<close>

theorem getAddresses_source:
  assumes "kube_reads C" "fst (GetListener C (objectKeyOf (lMeta l)) w) = Inr l'"
  shows "getAddresses C l p w =
     (if determinePodListenerScope l' = PodlistenerNodeScope
      then (case GetNode C ('''', NodeName p) w of
          (Inr n, w1) \<Rightarrow> (case GetPriorNodeAddress n of
             Inr a \<Rightarrow> (Ok (l', [mkIngressAddress a (NodePorts (lStatus l'))]), w)
           | Inl e \<Rightarrow> (Err e, w))
        | (Inl e, w1) \<Rightarrow> (Err e, w))
      else if IngressAddresses (lStatus l') = []
      then (Err (NewErr ''could not get listener address from listener status, listener status is not ready''), w)
      else (Ok (l', map (\<lambda>i. \<lparr>Address = iaAddress i, AddressType = iaAddressType i, Ports = iaPorts i\<rparr>)
              (IngressAddresses (lStatus l'))), w))"
proof -
  have l': "GetListener C (objectKeyOf (lMeta l)) w = (Inr l', w)"
    using assms kube_reads.reads(1) [OF assms(1)] by (metis prod.collapse)
  have n: "w1 = w" if "GetNode C k w = (r, w1)" for k r w1
    using that kube_reads.reads_eq(5) [OF assms(1)] by blast
  show ?thesis
    using l' by (auto simp: getAddresses_def getNodeAddressByPod_def determinePodListenerScope_def bindG_def
        callG_def mkIngressAddress_def liftG_def dest: n split: prod.splits sum.splits)
qed

theorem getAddresses_source_witness:
  "getAddresses fakeClient readyListener examplePod (kube exampleHost) = (Ok (readyListener, publishedData), kube exampleHost)"
proof -
  have "fst (GetListener fakeClient (objectKeyOf (lMeta readyListener)) (kube exampleHost)) = Inr readyListener"
    by (simp add: fake_defs exampleHost_def readyListener_def)
  from getAddresses_source [OF fake.kube_reads_axioms this] show ?thesis
    by (simp add: determinePodListenerScope_def readyListener_def publishedData_def mkIngressAddress_def)
qed

section \<open>Errors\<close>

text \<open>C31. The status codes of a failed publish: \<^verbatim>\<open>InvalidArgument\<close> for a request that is not
  well-formed, the bare API error (which gRPC reports as \<^verbatim>\<open>Unknown\<close>) when the volume cannot be read,
  and \<^verbatim>\<open>Internal\<close> for everything after that.\<close>

theorem publish_error_codes:
  assumes "NodePublishVolume D rq h = (Err e, h')"
  shows "validateNodePublishVolumeRequest rq = Inl e \<and> status_code e = InvalidArgument
     \<or> validateNodePublishVolumeRequest rq = Inr () \<and> fst (GetPV D ('''', npVolumeId rq) (kube h)) = Inl e
     \<or> validateNodePublishVolumeRequest rq = Inr () \<and> status_code e = Internal"
proof -
  have valid: "validateNodePublishVolumeRequest rq = Inl e' \<Longrightarrow> status_code e' = InvalidArgument" for e'
    by (auto simp: validateNodePublishVolumeRequest_def split: if_splits)
  have cluster: "publishCluster D rq (kube h) = (Err e', k) \<Longrightarrow>
      validateNodePublishVolumeRequest rq = Inl e'
      \<or> validateNodePublishVolumeRequest rq = Inr () \<and> fst (GetPV D ('''', npVolumeId rq) (kube h)) = Inl e'
      \<or> validateNodePublishVolumeRequest rq = Inr () \<and> status_code e' = Internal" for e' k
    by (auto simp: publishCluster_def getPV_def go_inv Let_def)
  have valid_first: "publishCluster D rq (kube h) = (Ok ds, k) \<Longrightarrow> validateNodePublishVolumeRequest rq = Inr ()" for ds k
    by (auto simp: publishCluster_def go_inv)
  have files: "publishFiles D tp ds f = (Err e', f') \<Longrightarrow> status_code e' = Internal" for tp ds f e' f'
    by (auto simp: publishFiles_def go_inv)
  show ?thesis
    using assms valid cluster valid_first files
    by (auto simp: publish_phases bindG_def onKube_def onFiles_def split: prod.splits outcome.splits)
qed

theorem publish_error_codes_witness:
  "\<exists>e. NodePublishVolume fakeNode (publishRequest\<lparr>npVolumeId := ''missing''\<rparr>) exampleHost = (Err e, exampleHost)
     \<and> fst (GetPV fakeNode ('''', ''missing'') (kube exampleHost)) = Inl e \<and> status_code e = Unknown"
proof -
  let ?rq = "publishRequest\<lparr>npVolumeId := ''missing''\<rparr>"
  have valid: "validateNodePublishVolumeRequest ?rq = Inr ()"
    by (simp add: validateNodePublishVolumeRequest_def publishRequest_def)
  have pv: "GetPV fakeNode ('''', ''missing'') (kube exampleHost) = (Inl (ApiErr NotFound ''missing''), kube exampleHost)"
    by (simp add: fake_defs exampleHost_def)
  have "publishCluster fakeNode ?rq (kube exampleHost) = (Err (ApiErr NotFound ''missing''), kube exampleHost)"
    using valid pv by (simp add: publishCluster_def getPV_def Let_def)
  then have run: "NodePublishVolume fakeNode ?rq exampleHost = (Err (ApiErr NotFound ''missing''), exampleHost)"
    by (simp add: publish_phases bindG_def onKube_def)
  from publish_error_codes [OF run] run pv show ?thesis by auto
qed

text \<open>C32. A volume context without the pod's name, or without its namespace, makes the handler panic
  once the volume has been read: the pointers of the context are dereferenced without a check. Kubernetes
  fills them in only when the CSIDriver object asks for pod information.\<close>

theorem publish_panics_without_pod_info:
  assumes "validateNodePublishVolumeRequest rq = Inr ()" "GetPV D ('''', npVolumeId rq) (kube h) = (Inr pv, k)"
    and "map_of (npVolumeContext rq) CSI_STORAGE_POD_NAME = None
       \<or> map_of (npVolumeContext rq) CSI_STORAGE_POD_NAMESPACE = None"
  shows "NodePublishVolume D rq h = (Panic ''nil pointer dereference'', h\<lparr>kube := k\<rparr>)"
proof -
  have "publishCluster D rq (kube h) = (Panic ''nil pointer dereference'', k)"
    using assms by (cases "map_of (npVolumeContext rq) CSI_STORAGE_POD_NAME")
      (auto simp: publishCluster_def getPV_def newVolumeContextFromMap_def Let_def)
  then show ?thesis by (simp add: publish_phases bindG_def onKube_def)
qed

theorem publish_panics_without_pod_info_witness:
  "NodePublishVolume fakeNode (publishRequest\<lparr>npVolumeContext := [(''listeners.kubedoop.dev/name'', ''web'')]\<rparr>) exampleHost
     = (Panic ''nil pointer dereference'', exampleHost)"
proof -
  let ?rq = "publishRequest\<lparr>npVolumeContext := [(''listeners.kubedoop.dev/name'', ''web'')]\<rparr>"
  have "NodePublishVolume fakeNode ?rq exampleHost
      = (Panic ''nil pointer dereference'', exampleHost\<lparr>kube := kube exampleHost\<rparr>)"
    by (rule publish_panics_without_pod_info [where pv = examplePV])
      (simp_all add: validateNodePublishVolumeRequest_def publishRequest_def fake_defs exampleHost_def
        CSI_STORAGE_POD_NAME_def)
  then show ?thesis by simp
qed

definition mountsClaim :: "pod \<Rightarrow> string \<Rightarrow> volume \<Rightarrow> bool" where
  "mountsClaim p pvcName v \<longleftrightarrow> vPersistentVolumeClaim v = Some pvcName
     \<or> vEphemeral v \<and> pvcName = Name (pMeta p) @ ''-'' @ vName v"

text \<open>The pod's name for a claim is found exactly when the pod mounts the claim, directly or as
  the ephemeral volume whose claim Kubernetes names after the pod and the volume, and it is the first such
  volume.\<close>

theorem findPodVolumeNameForPVC_first:
  "findPodVolumeNameForPVC p pvcName =
     (case find (mountsClaim p pvcName) (Volumes p) of
        Some v \<Rightarrow> Inr (vName v)
      | None \<Rightarrow> Inl (NewErr (''no volume found for PVC '' @ [CHR 0x27] @ pvcName @ [CHR 0x27]
          @ '' in pod '' @ [CHR 0x27] @ Namespace (pMeta p) @ ''/'' @ Name (pMeta p) @ [CHR 0x27])))"
proof -
  have "findVolumeFor (Name (pMeta p)) vs pvcName = map_option vName (find (mountsClaim p pvcName) vs)" for vs
    by (induction vs) (auto simp: mountsClaim_def)
  then show ?thesis by (simp add: findPodVolumeNameForPVC_def split: option.splits)
qed

end
