(* ===== verification/EndToEnd.thy ===== *)
theory EndToEnd
  imports ReconcileSpec PublishSpec
begin

text \<open>
  The two halves of the program together. The controller reconciles a Listener, the node service
  publishes a volume of it, and they meet in the Listener object alone. The cluster phase of a publish is
  split at the point where the Listener is known (\<open>listenerFor\<close>, \<open>recordListener\<close>); a publish fails
  without touching the file system for as long as the controller has not published a status, and a publish
  after that puts into the volume what the reconciliation computed from the Service.
\<close>

section \<open>Up to the Listener, and from it\<close>

definition listenerFor ::
  "('k, 'z) nodeDeps_scheme \<Rightarrow> nodePublishRequest \<Rightarrow> ('k, persistentVolume \<times> pod \<times> listener) go" where
  "listenerFor D request =
     bindG (liftG (validateNodePublishVolumeRequest request)) (\<lambda>_.
     let vc = newVolumeContextFromMap D (npVolumeContext request) in
     bindG (getPV D (npVolumeId request)) (\<lambda>pv.
     bindG (derefG (vcPod vc)) (\<lambda>podName.
     bindG (derefG (vcPodNamespace vc)) (\<lambda>podNamespace.
     mapErrG (GrpcErr Internal) (
       bindG (getPod D podName podNamespace) (\<lambda>p.
       bindG (getListener D p pv vc) (\<lambda>l. retG (pv, p, l))))))))"

definition recordListener ::
  "('k, 'z) client_scheme \<Rightarrow> persistentVolume \<Rightarrow> pod \<Rightarrow> listener \<Rightarrow> ('k, ingressAddress list) go" where
  "recordListener C pv p l =
     bindG (patchPVLabelsWithListener C pv l) (\<lambda>pv'.
     bindG (patchPodLabelsWithListener C p l) (\<lambda>p'.
     bindG (getAddresses C l p') (\<lambda>(l', ds).
     bindG (publishPodListener C p' pv' l' ds) (\<lambda>_. retG ds))))"

lemma publishCluster_split:
  "publishCluster D rq = bindG (listenerFor D rq) (\<lambda>(pv, p, l).
     mapErrG (GrpcErr Internal) (recordListener D pv p l))"
  by (simp add: publishCluster_def listenerFor_def recordListener_def Let_def bindG_assoc mapErrG_bindG
      mapErrG_retG bindG_retG split_def)

text \<open>The contract for reading Listeners on both sides: a read returns what is stored, and labelling a
  volume or a pod changes no Listener.\<close>

locale kube_views = kube_status C storedListener
  for C :: "('k, 'z) client_scheme" and storedListener :: "'k \<Rightarrow> objectKey \<Rightarrow> listener option" +
  assumes read_stored: "fst (GetListener C k w) = Inr l \<Longrightarrow> storedListener w k = Some l"
    and patchPV_frame: "PatchPV C pv pv' w = (r, w') \<Longrightarrow> fst (GetListener C k w') = fst (GetListener C k w)"
    and patchPod_frame: "PatchPod C p p' w = (r', w') \<Longrightarrow> fst (GetListener C k w') = fst (GetListener C k w)"
begin

lemma recordListener_Ok:
  assumes "recordListener C pv p l w = (Ok ds, w')"
  obtains cur p' l' w1 where "fst (GetListener C (objectKeyOf (lMeta l)) w) = Inr cur"
    "fst (GetListener C (objectKeyOf (lMeta l)) w1) = Inr cur" "getAddresses C l p' w1 = (Ok (cur, ds), w1)"
proof -
  obtain pv' w1 p' w2 l' w3 where pv: "PatchPV C pv (withPVLabels l pv) w = (Inr pv', w1)"
    and p: "PatchPod C p (withPodLabels l p) w1 = (Inr p', w2)"
    and a: "getAddresses C l p' w2 = (Ok (l', ds), w3)"
    using assms
    by (auto simp: recordListener_def patchPVLabelsWithListener_def patchPodLabelsWithListener_def go_inv)
  obtain w4 where g: "GetListener C (objectKeyOf (lMeta l)) w2 = (Inr l', w4)"
    using a by (auto simp: getAddresses_def go_inv split: if_splits)
  have "w3 = w2" using a
    by (auto simp: getAddresses_def getNodeAddressByPod_def go_inv dest!: reads_eq split: if_splits)
  with a g patchPV_frame [OF pv, of "objectKeyOf (lMeta l)"] patchPod_frame [OF p, of "objectKeyOf (lMeta l)"]
  show ?thesis by (intro that [of l' w2 p']) auto
qed

lemma recordListener_waits:
  assumes "fst (GetListener C (objectKeyOf (lMeta l)) w) = Inr cur" "NodePorts (lStatus cur) = []"
    "IngressAddresses (lStatus cur) = []" "recordListener C pv p l w = (r, w')"
  shows "(\<exists>e. r = Err e) \<and> fst (GetListener C k w') = fst (GetListener C k w)"
proof -
  obtain rv w1 where pv: "PatchPV C pv (withPVLabels l pv) w = (rv, w1)" by force
  show ?thesis
  proof (cases rv)
    case (Inl e)
    with assms(4) pv patchPV_frame [OF pv] show ?thesis
      by (auto simp: recordListener_def patchPVLabelsWithListener_def)
  next
    case (Inr pv')
    obtain rp w2 where p: "PatchPod C p (withPodLabels l p) w1 = (rp, w2)" by force
    note frame = patchPV_frame [OF pv] patchPod_frame [OF p]
    have "fst (GetListener C (objectKeyOf (lMeta l)) w2) = Inr cur" using frame assms(1) by simp
    then have "GetListener C (objectKeyOf (lMeta l)) w2 = (Inr cur, w2)" using reads(1) by (metis prod.collapse)
    then have "\<exists>e. getAddresses C l p' w2 = (Err e, w2)" for p'
      using assms(2,3) by (simp add: getAddresses_def)
    then obtain e where "\<And>p'. getAddresses C l p' w2 = (Err (e p'), w2)" by metis
    with assms(4) pv p Inr frame show ?thesis
      by (cases rp) (auto simp: recordListener_def patchPVLabelsWithListener_def patchPodLabelsWithListener_def)
  qed
qed

end

lemma fakeNode_writes [simp]:
  "StatusUpdateListener fakeNode = StatusUpdateListener fakeClient"
  "RetryOnConflict fakeNode = RetryOnConflict fakeClient"
  by (simp_all add: fakeNode_def fakeClient_def client.extend_def nodeDeps.fields_def)

interpretation fakeViews: kube_views fakeNode "\<lambda>w. map_of (cListeners w)"
proof -
  have "kube_status fakeNode (\<lambda>w. map_of (cListeners w))"
    using fake.kube_status_axioms
    unfolding kube_status_def kube_status_axioms_def kube_reads_def fakeNode_sel fakeNode_writes .
  moreover have "kube_views_axioms fakeNode (\<lambda>w. map_of (cListeners w))"
    by (auto simp: kube_views_axioms_def fake_defs fakePatchPV_def fakePatchPod_def fakePatch_def
        split: option.splits if_splits)
  ultimately show "kube_views fakeNode (\<lambda>w. map_of (cListeners w))" by (rule kube_views.intro)
qed

section \<open>A publish after a reconciliation\<close>

lemma map_eq_last: "map g xs = map h ys \<Longrightarrow> xs \<noteq> [] \<Longrightarrow> g (last xs) = h (last ys)"
  by (metis last_map map_is_Nil_conv)

lemma map_eq_member:
  assumes "map g xs = map h ys" "y \<in> set ys"
  shows "\<exists>x\<in>set xs. h y = g x"
proof -
  have "h y \<in> set (map g xs)" unfolding assms(1) using assms(2) by simp
  then show ?thesis by auto
qed

context kube_views
begin

lemma Reconcile_status:
  assumes "fst (GetListener C req w0) = Inr l" "Reconcile C req w0 = (Ok zeroResult, w)"
  obtains wS s t st w1 cur where "createService C l w0 = (Ok zeroResult, wS)" "describe C l wS = (Ok s, wS)"
    "preferredAddressType C l wS = (Ok t, wS)" "computeStatus C l s t wS = (Ok st, w1)"
    "storedListener w req = Some cur" "lStatus cur = st"
proof -
  have l: "GetListener C req w0 = (Inr l, w0)" using assms(1) reads(1) by (metis prod.collapse)
  then obtain r wS where svc: "createService C l w0 = (Ok r, wS)" "IsZero r"
    and upd: "updateListenerStatus C l wS = (Ok (), w)"
    using assms(2) by (auto simp: Reconcile_def go_inv IsZero_def split: if_splits)
  from updateListenerStatus_published [OF upd] getListener_key [OF l] svc show ?thesis
    by (auto simp: IsZero_def intro: that)
qed

lemma published_status_addresses:
  assumes "computeStatus C l s t wS = (Ok st, w1)" "storedListener w (objectKeyOf (lMeta lp)) = Some cur"
    "lStatus cur = st" "recordListener C pv p lp w = (Ok ds, w')"
  shows "(svType s \<noteq> ServiceTypeNodePort \<longrightarrow> map Address ds = map iaAddress (IngressAddresses st))
     \<and> (\<forall>n q. map_of (if svType s = ServiceTypeNodePort then namedPorts spNodePort (svPorts s)
                 else namedPorts spPort (svPorts s)) n = Some q \<longrightarrow> map_of (Ports (last ds)) n = Some q)"
proof -
  obtain cur' p' l' w1 where cur': "fst (GetListener C (objectKeyOf (lMeta lp)) w) = Inr cur'"
      "fst (GetListener C (objectKeyOf (lMeta lp)) w1) = Inr cur'" "getAddresses C lp p' w1 = (Ok (cur', ds), w1)"
    using recordListener_Ok [OF assms(4)] by blast
  have "cur' = cur" using read_stored [OF cur'(1)] assms(2) by simp
  then have g: "GetListener C (objectKeyOf (lMeta lp)) w1 = (Inr cur, w1)"
    using cur'(2) reads(1) by (metis prod.collapse)
  have st: "NodePorts st = (if svType s = ServiceTypeNodePort then namedPorts spNodePort (svPorts s) else [])"
    "\<forall>i\<in>set (IngressAddresses st). iaPorts i = (if svType s = ServiceTypeNodePort
       then namedPorts spNodePort (svPorts s) else namedPorts spPort (svPorts s))"
    using computeStatus_kinds [OF assms(1)] by (auto split: if_splits)
  show ?thesis
    using cur'(3) g st assms(3)
    by (auto simp: getAddresses_def go_inv last_map split: if_splits)
qed

end

section \<open>Properties\<close>

text \<open>C4. From the Service to the file. A reconciliation that ends without a requeue has computed a
  status from the Listener's Service and its class; a publish that finds this Listener right after it, on
  a free target, puts that status into the volume. For a Service that is not of type NodePort the pod reads
  every ingress address of the status at \<^verbatim>\<open>addresses/<a>/address\<close> and the last one as the default, and
  \<^verbatim>\<open>default-address/ports\<close> holds the named ports of the Service (the node ports for type NodePort).\<close>

theorem reconciled_addresses_mounted:
  assumes "tmpfs_mounter D" "kube_views D stored"
    and "fst (GetListener D req w0) = Inr l" "Reconcile D req w0 = (Ok zeroResult, kube h)"
    and "listenerFor D rq (kube h) = (Ok (pv, p, lp), kube h)" "objectKeyOf (lMeta lp) = req"
    and "publishCluster D rq (kube h) = (Ok ds, k)" "npTargetPath rq = abs_path cs"
    and "free_target cs (files h)" "list_all good_data ds" "\<forall>d\<in>set ds. wf_map (Ports d)"
    and "Mount D ''tmpfs'' (abs_path cs) ''tmpfs'' mountOptions (set_entry cs Dir (files h)) = (Inr (), f')"
  shows "\<exists>wS s t st w1 f. createService D l w0 = (Ok zeroResult, wS) \<and> describe D l wS = (Ok s, wS)
     \<and> preferredAddressType D l wS = (Ok t, wS) \<and> computeStatus D l s t wS = (Ok st, w1)
     \<and> NodePublishVolume D rq h = (Ok (), h\<lparr>kube := k, files := f\<rparr>)
     \<and> (svType s \<noteq> ServiceTypeNodePort \<longrightarrow>
          os_ReadFile (abs_path (cs @ [''default-address'', ''address''])) f
            = (Inr (iaAddress (last (IngressAddresses st))), f)
        \<and> (\<forall>i\<in>set (IngressAddresses st).
             os_ReadFile (abs_path (cs @ [''addresses'', iaAddress i, ''address''])) f = (Inr (iaAddress i), f)))
     \<and> (\<forall>n q. map_of (if svType s = ServiceTypeNodePort then namedPorts spNodePort (svPorts s)
                 else namedPorts spPort (svPorts s)) n = Some q \<longrightarrow>
          os_ReadFile (abs_path (cs @ [''default-address'', ''ports'', n])) f = (Inr (Itoa (sint q)), f))"
proof -
  obtain wS s t st w1 cur where
      s: "createService D l w0 = (Ok zeroResult, wS)" "describe D l wS = (Ok s, wS)"
        "preferredAddressType D l wS = (Ok t, wS)"
    and st: "computeStatus D l s t wS = (Ok st, w1)"
    and cur: "stored (kube h) (objectKeyOf (lMeta lp)) = Some cur" "lStatus cur = st"
    using kube_views.Reconcile_status [OF assms(2-4)] assms(6) by blast
  have "recordListener D pv p lp (kube h) = (Ok ds, k)"
    using assms(5,7) by (simp add: publishCluster_split go_inv)
  note a = kube_views.published_status_addresses [OF assms(2) st cur this]
  have ds: "ds \<noteq> []" by (rule publishCluster_nonempty [OF assms(7)])
  obtain f where f: "NodePublishVolume D rq h = (Ok (), h\<lparr>kube := k, files := f\<rparr>)"
    and def: "os_ReadFile (abs_path (cs @ [''default-address'', ''address''])) f = (Inr (Address (last ds)), f)"
    and ports: "\<forall>n p. map_of (Ports (last ds)) n = Some p \<longrightarrow>
        os_ReadFile (abs_path (cs @ [''default-address'', ''ports'', n])) f = (Inr (Itoa (sint p)), f)"
    and each: "\<forall>d\<in>set ds.
        os_ReadFile (abs_path (cs @ [''addresses'', Address d, ''address''])) f = (Inr (Address d), f)"
    using publish_readable [OF assms(1,7-12)] by (elim exE conjE) (rule that)
  have "os_ReadFile (abs_path (cs @ [''default-address'', ''address''])) f
            = (Inr (iaAddress (last (IngressAddresses st))), f)
        \<and> (\<forall>i\<in>set (IngressAddresses st).
             os_ReadFile (abs_path (cs @ [''addresses'', iaAddress i, ''address''])) f = (Inr (iaAddress i), f))"
    if "svType s \<noteq> ServiceTypeNodePort"
  proof -
    have same: "map Address ds = map iaAddress (IngressAddresses st)" using a that by blast
    show ?thesis
    proof (intro conjI ballI)
      show "os_ReadFile (abs_path (cs @ [''default-address'', ''address''])) f
          = (Inr (iaAddress (last (IngressAddresses st))), f)"
        using def map_eq_last [OF same ds] by simp
    next
      fix i assume "i \<in> set (IngressAddresses st)"
      then obtain d where "d \<in> set ds" "iaAddress i = Address d" using map_eq_member [OF same] by auto
      with each show "os_ReadFile (abs_path (cs @ [''addresses'', iaAddress i, ''address''])) f = (Inr (iaAddress i), f)"
        by simp
    qed
  qed
  moreover have "\<forall>n q. map_of (if svType s = ServiceTypeNodePort then namedPorts spNodePort (svPorts s)
      else namedPorts spPort (svPorts s)) n = Some q \<longrightarrow>
        os_ReadFile (abs_path (cs @ [''default-address'', ''ports'', n])) f = (Inr (Itoa (sint q)), f)"
    using a ports by blast
  ultimately show ?thesis
    using s st f by (intro exI [of _ wS] exI [of _ s] exI [of _ t] exI [of _ st] exI [of _ w1] exI [of _ f]) blast
qed

text \<open>A cluster before and after the reconciliation that publishes the host name of a load balancer.\<close>


definition beforeStatus :: cluster where
  "beforeStatus = hostCluster\<lparr>cPods := [((''shop'', ''p1''), examplePod)], cPVs := [(('''', ''pvc-1''), examplePV)]\<rparr>"

definition afterStatus :: cluster where
  "afterStatus = beforeStatus\<lparr>cListeners := [((''shop'', ''web''), readyListener)]\<rparr>"

lemma example_reconcile: "Reconcile fakeNode (''shop'', ''web'') beforeStatus = (Ok zeroResult, afterStatus)"
  by code_simp

lemma example_afterStatus:
  "fst (publishCluster fakeNode publishRequest afterStatus) = Ok publishedData"
  "listenerFor fakeNode publishRequest afterStatus = (Ok (examplePV, examplePod, readyListener), afterStatus)"
  "listenerFor fakeNode publishRequest beforeStatus = (Ok (examplePV, examplePod, exampleListener), beforeStatus)"
  by code_simp+

lemma example_before: "fst (GetListener fakeNode (''shop'', ''web'') beforeStatus) = Inr exampleListener"
  by code_simp

lemma fakeMount_ok:
  "Mount fakeNode src t fs opts f = (Inr (), mountedOn (comps t) (prune (below (comps t)) f))"
  by (simp add: fakeMount_def)

theorem reconciled_addresses_mounted_witness:
  "\<exists>h'. Reconcile fakeNode (''shop'', ''web'') beforeStatus = (Ok zeroResult, afterStatus)
     \<and> NodePublishVolume fakeNode publishRequest (exampleHost\<lparr>kube := afterStatus\<rparr>) = (Ok (), h')
     \<and> os_ReadFile ''/v/default-address/ports/http'' (files h') = (Inr ''80'', files h')"
proof -
  let ?h = "exampleHost\<lparr>kube := afterStatus\<rparr>"
  obtain k where k: "publishCluster fakeNode publishRequest (kube ?h) = (Ok publishedData, k)"
    using example_afterStatus(1) by (metis host.select_convs(1) host.update_convs(1) host.surjective prod.collapse)
  have rec: "Reconcile fakeNode (''shop'', ''web'') beforeStatus = (Ok zeroResult, kube ?h)"
    and lf: "listenerFor fakeNode publishRequest (kube ?h) = (Ok (examplePV, examplePod, readyListener), kube ?h)"
    and free: "free_target [''v''] (files ?h)"
    using example_reconcile example_afterStatus(2) example_free by simp_all
  have key: "objectKeyOf (lMeta readyListener) = (''shop'', ''web'')" by code_simp
  have wf: "\<forall>d\<in>set publishedData. wf_map (Ports d)" by (simp add: publishedData_def wf_map_def)
  have svc: "createService fakeNode exampleListener beforeStatus = (Ok zeroResult, beforeStatus)"
    and desc: "describe fakeNode exampleListener beforeStatus = (Ok hostService, beforeStatus)"
    and port: "map_of (namedPorts spPort (svPorts hostService)) ''http'' = Some 80"
    and type: "svType hostService \<noteq> ServiceTypeNodePort" and text80: "Itoa 80 = ''80''"
    by code_simp+
  obtain wS s f where "createService fakeNode exampleListener beforeStatus = (Ok zeroResult, wS)"
      "describe fakeNode exampleListener wS = (Ok s, wS)"
      "NodePublishVolume fakeNode publishRequest ?h = (Ok (), ?h\<lparr>kube := k, files := f\<rparr>)"
      "\<forall>n q. map_of (if svType s = ServiceTypeNodePort then namedPorts spNodePort (svPorts s)
         else namedPorts spPort (svPorts s)) n = Some q \<longrightarrow>
       os_ReadFile (abs_path ([''v''] @ [''default-address'', ''ports'', n])) f = (Inr (Itoa (sint q)), f)"
    using reconciled_addresses_mounted [OF fakeNode.tmpfs_mounter_axioms fakeViews.kube_views_axioms
        example_before rec lf key k example_target free example_data wf fakeMount_ok]
    by (elim exE conjE) (rule that)
  with svc desc port type text80 example_reconcile show ?thesis by (auto simp: abs_path_def)
qed

text \<open>C12. A publish waits for the controller. While the Listener that a publish found or created has
  no address in its status, the publish fails with \<^verbatim>\<open>Internal\<close> and leaves the file system alone, so the
  target stays free for the retry; the Listeners stay as they are, so the controller can go on.\<close>

theorem publish_waits_for_status:
  assumes "kube_views D stored" "listenerFor D rq (kube h) = (Ok (pv, p, l), k1)"
    and "fst (GetListener D (objectKeyOf (lMeta l)) k1) = Inr cur"
    and "NodePorts (lStatus cur) = []" "IngressAddresses (lStatus cur) = []"
    and "NodePublishVolume D rq h = (r, h')"
  shows "(\<exists>e. r = Err (GrpcErr Internal e)) \<and> files h' = files h
     \<and> (\<forall>key. fst (GetListener D key (kube h')) = fst (GetListener D key k1))"
proof -
  obtain r2 k2 where r2: "recordListener D pv p l k1 = (r2, k2)" by force
  have waits: "(\<exists>e. r2 = Err e) \<and> fst (GetListener D key k2) = fst (GetListener D key k1)" for key
    by (rule kube_views.recordListener_waits [OF assms(1,3-5) r2])
  then obtain e where e: "r2 = Err e" by blast
  have "publishCluster D rq (kube h) = (Err (GrpcErr Internal e), k2)"
    using assms(2) r2 e by (simp add: publishCluster_split mapErrG_def)
  with assms(6) waits show ?thesis by (auto simp: publish_phases bindG_def onKube_def)
qed

theorem publish_waits_for_status_witness:
  "\<exists>e h'. NodePublishVolume fakeNode publishRequest (exampleHost\<lparr>kube := beforeStatus\<rparr>)
       = (Err (GrpcErr Internal e), h')
     \<and> files h' = files exampleHost
     \<and> fst (GetListener fakeNode (''shop'', ''web'') (kube h')) = Inr exampleListener"
proof -
  let ?h = "exampleHost\<lparr>kube := beforeStatus\<rparr>"
  obtain r h' where run: "NodePublishVolume fakeNode publishRequest ?h = (r, h')" by force
  have lf: "listenerFor fakeNode publishRequest (kube ?h) = (Ok (examplePV, examplePod, exampleListener), beforeStatus)"
    using example_afterStatus(3) by simp
  have cur: "fst (GetListener fakeNode (objectKeyOf (lMeta exampleListener)) beforeStatus) = Inr exampleListener"
    "NodePorts (lStatus exampleListener) = []" "IngressAddresses (lStatus exampleListener) = []"
    by code_simp+
  from publish_waits_for_status [OF fakeViews.kube_views_axioms lf cur run] run example_before show ?thesis
    by auto
qed

end
