(* ===== verification/CsiController.thy ===== *)
theory CsiController
  imports Csi ServiceSpec
begin

text \<open>
  \<^verbatim>\<open>internal/csi/controller.go\<close>: the controller service of the CSI driver. It creates no storage:
  \<^verbatim>\<open>CreateVolume\<close> looks up the claim, hands its annotations on as the volume context, and pins
  the volume to a node when the listener class exposes node ports.
\<close>

section \<open>Requests and capabilities\<close>

definition volumeCaps :: "accessMode list" where
  "volumeCaps = [SINGLE_NODE_WRITER, MULTI_NODE_MULTI_WRITER, MULTI_NODE_READER_ONLY]"

definition GetMode :: "accessMode option \<Rightarrow> accessMode" where
  "GetMode m = (case m of None \<Rightarrow> UNKNOWN_MODE | Some x \<Rightarrow> x)"

fun modeListed :: "accessMode list \<Rightarrow> accessMode \<Rightarrow> bool" where
  "modeListed [] m = False"
| "modeListed (v # vs) m = (if v = m then True else modeListed vs m)"

definition isSupportVolumeCapabilities :: "volumeCapability \<Rightarrow> bool" where
  "isSupportVolumeCapabilities c =
     (case capAccessType c of
        Some BlockVolume \<Rightarrow> False
      | Some MountVolume \<Rightarrow> modeListed volumeCaps (GetMode (capAccessMode c))
      | None \<Rightarrow> False)"

text \<open>The loop does not stop early: it clears the flag at every unsupported capability.\<close>

definition isValidVolumeCapabilities :: "volumeCapability list \<Rightarrow> bool" where
  "isValidVolumeCapabilities volCaps =
     fold (\<lambda>c foundAll. if \<not> isSupportVolumeCapabilities c then False else foundAll) volCaps True"

definition validateCreateVolumeRequest :: "createVolumeRequest \<Rightarrow> error + unit" where
  "validateCreateVolumeRequest request =
     (if cvName request = '''' then Inl (NewErr ''volume Name is required'')
      else if cvCapacityRange request = None then Inl (NewErr ''capacityRange is required'')
      else if cvVolumeCapabilities request = None then Inl (NewErr ''volumeCapabilities is required'')
      else if \<not> isValidVolumeCapabilities (case cvVolumeCapabilities request of Some cs \<Rightarrow> cs | None \<Rightarrow> [])
      then Inl (NewErr ''volumeCapabilities is not supported'')
      else Inr ())"

record createVolumeRequestParams =
  PVCName :: string
  pvcNamespace :: string

definition newCreateVolumeRequestParamsFromMap :: "labels \<Rightarrow> error + createVolumeRequestParams" where
  "newCreateVolumeRequestParamsFromMap params =
     (case (map_of params CSI_STORAGE_PVC_NAME, map_of params CSI_STORAGE_PVC_NAMESPACE) of
        (Some n, Some ns) \<Rightarrow> Inr \<lparr>PVCName = n, pvcNamespace = ns\<rparr>
      | _ \<Rightarrow> Inl (statusError InvalidArgument (''ensure '' @ [CHR 0x27] @ ''--extra-create-metadata''
          @ [CHR 0x27] @ '' args are added in the sidecar of the csi-provisioner container.'')))"

section \<open>CreateVolume\<close>

text \<open>The verb \<^verbatim>\<open>%q\<close> on a text of printable ASCII without quotes.\<close>

definition quoted :: "string \<Rightarrow> string" where
  "quoted s = [CHR 0x22] @ s @ [CHR 0x22]"

definition getVolumeContext ::
  "('k, 'z) client_scheme \<Rightarrow> createVolumeRequestParams \<Rightarrow> ('k, labels) go" where
  "getVolumeContext C params =
     bindG (mapErrG (FmtErr ''get pvc error: '')
       (callG (GetPVC C (pvcNamespace params, PVCName params)))) (\<lambda>pvc.
     let annotations = Annotations (pvcMeta pvc) in
     if map_of annotations (ListenerClassAnnotation C) = None
        \<and> map_of annotations (AnnotationListenerName C) = None
     then failG (NewErr (''pvc annotations must have one of '' @ quoted (ListenerClassAnnotation C)
            @ '' or '' @ quoted (AnnotationListenerName C)))
     else retG annotations)"

definition getListenerClassFor ::
  "('k, 'z) client_scheme \<Rightarrow> labels \<Rightarrow> string \<Rightarrow> ('k, listenerClass) go" where
  "getListenerClassFor C volumeContext namespace =
     (case map_of volumeContext (AnnotationListenerName C) of
        Some listenerName \<Rightarrow>
          bindG (mapErrG (FmtErr ''get listener error: '')
            (callG (GetListener C (namespace, listenerName)))) (\<lambda>l.
          mapErrG (FmtErr ''get listener class from listener error: '')
            (callG (GetListenerClass C (namespace, ClassName (lSpec l)))))
      | None \<Rightarrow> (case map_of volumeContext (ListenerClassAnnotation C) of
          Some className \<Rightarrow>
            mapErrG (FmtErr ''get listener class error: '')
              (callG (GetListenerClass C (namespace, className)))
        | None \<Rightarrow> failG (NewErr
            ''neither listener name nor listener class name found in volume context'')))"

definition getAccessibleTopology :: "createVolumeRequest \<Rightarrow> listenerClass \<Rightarrow> topology list" where
  "getAccessibleTopology request lc =
     (if ServiceType lc = Some ServiceTypeNodePort then
        (case cvAccessibilityRequirements request of
           Some (t # ts) \<Rightarrow> [t]
         | _ \<Rightarrow> [])
      else [])"

definition CreateVolume ::
  "('k, 'z) client_scheme \<Rightarrow> createVolumeRequest \<Rightarrow> ('k, csiVolume) go" where
  "CreateVolume C request =
     bindG (mapErrG (GrpcErr InvalidArgument) (liftG (validateCreateVolumeRequest request))) (\<lambda>_.
     let requiredCap = (case cvCapacityRange request of Some b \<Rightarrow> b | None \<Rightarrow> 0) in
     bindG (mapErrG (\<lambda>e. GrpcErr InvalidArgument (FmtErr ''Get createVolumeRequestParams error: '' e))
       (liftG (newCreateVolumeRequestParamsFromMap (cvParameters request)))) (\<lambda>params.
     bindG (mapErrG (\<lambda>e. GrpcErr InvalidArgument (FmtErr ''Get listener Volume refer error: '' e))
       (getVolumeContext C params)) (\<lambda>volumeCtx.
     bindG (mapErrG (\<lambda>e. GrpcErr Internal (FmtErr ''Get listenerClass error: '' e))
       (getListenerClassFor C volumeCtx (pvcNamespace params))) (\<lambda>listenerClass.
     retG \<lparr>VolumeId = cvName request, CapacityBytes = requiredCap, VolumeContext = volumeCtx,
       AccessibleTopology = getAccessibleTopology request listenerClass\<rparr>))))"

section \<open>DeleteVolume and the rest\<close>

definition pvcPattern :: regex where
  "pvcPattern = Cat (Lit ''pvc-'') (Cat (Rep 8 WordClass)
     (Cat (Rep 3 (Cat (Lit ''-'') (Rep 4 WordClass))) (Cat (Lit ''-'') (Rep 12 WordClass))))"

definition CheckDynamicPV :: "string \<Rightarrow> error + bool" where
  "CheckDynamicPV name = Inr (regexp_Match pvcPattern name)"

definition validateDeleteVolumeRequest :: "string \<Rightarrow> error + unit" where
  "validateDeleteVolumeRequest volumeId =
     (if volumeId = '''' then Inl (NewErr ''volume ID is required'') else Inr ())"

definition DeleteVolume :: "string \<Rightarrow> ('k, unit) go" where
  "DeleteVolume volumeId =
     bindG (mapErrG (GrpcErr InvalidArgument) (liftG (validateDeleteVolumeRequest volumeId))) (\<lambda>_.
     bindG (mapErrG (\<lambda>e. GrpcErr InvalidArgument (FmtErr ''Check Volume ID error: '' e))
       (liftG (CheckDynamicPV volumeId))) (\<lambda>dynamic.
     if \<not> dynamic then retG () else retG ()))"

definition ValidateVolumeCapabilities ::
  "string \<Rightarrow> volumeCapability list \<Rightarrow> ('k, volumeCapability list) go" where
  "ValidateVolumeCapabilities volumeId vcs =
     (if volumeId = '''' then failG (statusError InvalidArgument ''Volume ID is required'')
      else if vcs = [] then failG (statusError InvalidArgument ''VolumeCapabilities is required'')
      else retG vcs)"

definition ListVolumes :: "('k, unit) go" where
  "ListVolumes = failG (statusError Unimplemented '''')"

definition GetCapacity :: "('k, unit) go" where
  "GetCapacity = failG (statusError Unimplemented '''')"

definition ControllerGetCapabilities :: "('k, controllerCapability list) go" where
  "ControllerGetCapabilities = retG [CREATE_DELETE_VOLUME]"

section \<open>Volume capabilities\<close>

definition supported :: "volumeCapability \<Rightarrow> bool" where
  "supported c \<longleftrightarrow> capAccessType c = Some MountVolume
     \<and> capAccessMode c \<in> {Some SINGLE_NODE_WRITER, Some MULTI_NODE_MULTI_WRITER, Some MULTI_NODE_READER_ONLY}"

lemma isSupport_supported: "isSupportVolumeCapabilities c = supported c"
  by (auto simp: isSupportVolumeCapabilities_def supported_def volumeCaps_def GetMode_def
      split: option.splits accessKind.splits accessMode.splits)

lemma isValid_all: "isValidVolumeCapabilities cs = list_all supported cs"
proof -
  have "fold (\<lambda>c foundAll. if \<not> supported c then False else foundAll) cs b
      = (b \<and> list_all supported cs)" for b
    by (induction cs arbitrary: b) auto
  then show ?thesis by (simp add: isValidVolumeCapabilities_def isSupport_supported)
qed

lemma validateCreate_Inr:
  "validateCreateVolumeRequest rq = Inr () \<longleftrightarrow> cvName rq \<noteq> ''''
     \<and> (\<exists>cap. cvCapacityRange rq = Some cap)
     \<and> (\<exists>caps. cvVolumeCapabilities rq = Some caps \<and> list_all supported caps)"
  by (auto simp: validateCreateVolumeRequest_def isValid_all)

lemma params_Inr:
  "newCreateVolumeRequestParamsFromMap ps = Inr p \<longleftrightarrow>
     map_of ps CSI_STORAGE_PVC_NAME = Some (PVCName p)
     \<and> map_of ps CSI_STORAGE_PVC_NAMESPACE = Some (pvcNamespace p)"
  by (cases p) (auto simp: newCreateVolumeRequestParamsFromMap_def split: option.splits)

lemma getVolumeContext_no_panic: "getVolumeContext C p w \<noteq> (Panic m, w')"
  by (auto simp: getVolumeContext_def go_inv Let_def split: if_splits)

lemma getListenerClassFor_no_panic: "getListenerClassFor C c ns w \<noteq> (Panic m, w')"
  by (auto simp: getListenerClassFor_def go_inv split: option.splits)

context kube_reads
begin

lemma getVolumeContext_Ok:
  "getVolumeContext C p w = (Ok ctx, w') \<longleftrightarrow> w' = w
     \<and> (\<exists>pvc. fst (GetPVC C (pvcNamespace p, PVCName p) w) = Inr pvc \<and> ctx = Annotations (pvcMeta pvc)
         \<and> (map_of ctx (ListenerClassAnnotation C) \<noteq> None \<or> map_of ctx (AnnotationListenerName C) \<noteq> None))"
  (is "?l \<longleftrightarrow> ?r")
proof
  assume ?l
  then show ?r
    by (auto simp: getVolumeContext_def go_inv Let_def dest: reads_eq split: if_splits)
next
  assume ?r
  then obtain pvc where "GetPVC C (pvcNamespace p, PVCName p) w = (Inr pvc, w)"
    by (metis prod.collapse reads(8))
  with \<open>?r\<close> show ?l by (auto simp: getVolumeContext_def Let_def)
qed

lemma getListenerClassFor_reads: "getListenerClassFor C ctx ns w = (r, w') \<Longrightarrow> w' = w"
  by (cases r)
    (auto simp: getListenerClassFor_def go_inv dest: reads_eq split: option.splits)

lemma getVolumeContext_reads: "getVolumeContext C p w = (r, w') \<Longrightarrow> w' = w"
  by (cases r)
    (auto simp: getVolumeContext_def go_inv Let_def dest: reads_eq split: if_splits)

lemma getListenerClassFor_Ok:
  assumes "fst (getListenerClassFor C ctx ns w) = Ok lc"
  shows "map_of ctx (ListenerClassAnnotation C) \<noteq> None \<or> map_of ctx (AnnotationListenerName C) \<noteq> None"
  using assms by (auto simp: getListenerClassFor_def split: option.splits)

lemma CreateVolume_context:
  assumes "CreateVolume C rq w = (Ok v, w')"
  shows "map_of (VolumeContext v) (ListenerClassAnnotation C) \<noteq> None
    \<or> map_of (VolumeContext v) (AnnotationListenerName C) \<noteq> None"
  using assms by (auto simp: CreateVolume_def go_inv Let_def getVolumeContext_Ok)

end

section \<open>Dynamically provisioned volumes\<close>

text \<open>The names that the external provisioner gives to the volumes it creates: \<^verbatim>\<open>pvc-\<close> and a UUID.\<close>

definition uuidShape :: "string \<Rightarrow> bool" where
  "uuidShape u \<longleftrightarrow> (\<exists>a b c d e. u = a @ ''-'' @ b @ ''-'' @ c @ ''-'' @ d @ ''-'' @ e
     \<and> map length [a, b, c, d, e] = [8, 4, 4, 4, 12] \<and> list_all (list_all word_char) [a, b, c, d, e])"

definition dashed :: "nat \<Rightarrow> string \<Rightarrow> bool" where
  "dashed k s \<longleftrightarrow> (\<exists>v. s = ''-'' @ v \<and> length v = k \<and> list_all word_char v)"

lemma lang_dashed: "lang (Cat (Lit ''-'') (Rep k WordClass)) = dashed k"
  by (auto simp: fun_eq_iff dashed_def reps_word_class)

lemma lang_group: "lang (Rep k WordClass) s \<longleftrightarrow> length s = k \<and> list_all word_char s"
  by (simp add: reps_word_class)

lemma lang_dashes: "lang (Rep n (Cat (Lit ''-'') (Rep k WordClass))) s = reps n (dashed k) s"
  by (subst lang.simps(4)) (simp only: lang_dashed)

lemma reps_3: "reps 3 P s \<longleftrightarrow> (\<exists>a b c. s = a @ b @ c \<and> P a \<and> P b \<and> P c)"
  unfolding numeral_3_eq_3 reps.simps by auto

lemma lang_pvcPattern: "lang pvcPattern s \<longleftrightarrow> (\<exists>u. s = ''pvc-'' @ u \<and> uuidShape u)"
proof -
  have "lang (Cat a b) t \<longleftrightarrow> (\<exists>u v. t = u @ v \<and> lang a u \<and> lang b v)" for a b t by simp
  note cat = this
  have "lang pvcPattern s \<longleftrightarrow> (\<exists>a m e. s = ''pvc-'' @ a @ m @ e \<and> lang (Rep 8 WordClass) a
      \<and> reps 3 (dashed 4) m \<and> dashed 12 e)"
    unfolding pvcPattern_def cat [of "Lit ''pvc-''"] cat [of "Rep 8 WordClass"]
      cat [of "Rep 3 r" for r] lang_dashes lang_dashed lang.simps(1) by blast
  also have "\<dots> \<longleftrightarrow> (\<exists>u. s = ''pvc-'' @ u \<and> uuidShape u)"
  proof
    assume "\<exists>a m e. s = ''pvc-'' @ a @ m @ e \<and> lang (Rep 8 WordClass) a \<and> reps 3 (dashed 4) m \<and> dashed 12 e"
    then obtain a b c d e where s: "s = ''pvc-'' @ a @ ''-'' @ b @ ''-'' @ c @ ''-'' @ d @ ''-'' @ e"
      and g: "length a = 8" "length b = 4" "length c = 4" "length d = 4" "length e = 12"
        "list_all (list_all word_char) [a, b, c, d, e]"
      unfolding reps_3 lang_group dashed_def by force
    from g have "uuidShape (a @ ''-'' @ b @ ''-'' @ c @ ''-'' @ d @ ''-'' @ e)"
      unfolding uuidShape_def by (intro exI conjI) (rule refl, simp_all)
    with s show "\<exists>u. s = ''pvc-'' @ u \<and> uuidShape u" by blast
  next
    assume "\<exists>u. s = ''pvc-'' @ u \<and> uuidShape u"
    then obtain a b c d e where s: "s = ''pvc-'' @ a @ ((''-'' @ b) @ (''-'' @ c) @ (''-'' @ d)) @ (''-'' @ e)"
      and g: "length a = 8" "length b = 4" "length c = 4" "length d = 4" "length e = 12"
        "list_all (list_all word_char) [a, b, c, d, e]"
      unfolding uuidShape_def by auto
    have "reps 3 (dashed 4) ((''-'' @ b) @ (''-'' @ c) @ (''-'' @ d))"
      unfolding reps_3 by (intro exI conjI) (rule refl, use g in \<open>auto simp: dashed_def\<close>)
    moreover have "lang (Rep 8 WordClass) a" "dashed 12 (''-'' @ e)"
      unfolding lang_group dashed_def using g by auto
    ultimately show "\<exists>a m e. s = ''pvc-'' @ a @ m @ e \<and> lang (Rep 8 WordClass) a \<and> reps 3 (dashed 4) m \<and> dashed 12 e"
      using s by blast
  qed
  finally show ?thesis .
qed

section \<open>Properties\<close>

text \<open>C17. \<^verbatim>\<open>CreateVolume\<close> succeeds exactly for a named request with a capacity range and only
  supported capabilities (mounted, in one of the three access modes) whose parameters name a claim that
  exists and whose annotations lead to a listener class. The volume it returns carries the request's
  name and capacity and the annotations of the claim, and is pinned to the first preferred topology
  exactly when the class exposes node ports. The cluster is only read.\<close>

theorem CreateVolume_correct:
  assumes "kube_reads C"
  shows "CreateVolume C rq w = (Ok v, w') \<longleftrightarrow> w' = w \<and> cvName rq \<noteq> ''''
     \<and> (\<exists>cap caps n ns pvc lc. cvCapacityRange rq = Some cap
          \<and> cvVolumeCapabilities rq = Some caps \<and> list_all supported caps
          \<and> map_of (cvParameters rq) CSI_STORAGE_PVC_NAME = Some n
          \<and> map_of (cvParameters rq) CSI_STORAGE_PVC_NAMESPACE = Some ns
          \<and> fst (GetPVC C (ns, n) w) = Inr pvc
          \<and> fst (getListenerClassFor C (Annotations (pvcMeta pvc)) ns w) = Ok lc
          \<and> v = \<lparr>VolumeId = cvName rq, CapacityBytes = cap, VolumeContext = Annotations (pvcMeta pvc),
               AccessibleTopology = (if ServiceType lc = Some ServiceTypeNodePort
                 then take 1 (case cvAccessibilityRequirements rq of Some ts \<Rightarrow> ts | None \<Rightarrow> []) else [])\<rparr>)"
    (is "?l \<longleftrightarrow> ?r")
proof
  have topology: "getAccessibleTopology rq lc = (if ServiceType lc = Some ServiceTypeNodePort
      then take 1 (case cvAccessibilityRequirements rq of Some ts \<Rightarrow> ts | None \<Rightarrow> []) else [])" for lc
    by (auto simp: getAccessibleTopology_def split: option.splits list.splits)
  note ctx = kube_reads.getVolumeContext_Ok [OF assms] and reads = kube_reads.getListenerClassFor_reads [OF assms]
  {
    assume ?l
    then obtain p ctx lc w1 where "validateCreateVolumeRequest rq = Inr ()"
      "newCreateVolumeRequestParamsFromMap (cvParameters rq) = Inr p"
      "getVolumeContext C p w = (Ok ctx, w1)" "getListenerClassFor C ctx (pvcNamespace p) w1 = (Ok lc, w')"
      "v = \<lparr>VolumeId = cvName rq, CapacityBytes = (case cvCapacityRange rq of Some b \<Rightarrow> b | None \<Rightarrow> 0),
         VolumeContext = ctx, AccessibleTopology = getAccessibleTopology rq lc\<rparr>"
      by (auto simp: CreateVolume_def go_inv Let_def)
    then show ?r
      using reads unfolding validateCreate_Inr params_Inr ctx topology by fastforce
  next
    assume ?r
    then obtain cap caps n ns pvc lc where *: "cvName rq \<noteq> ''''" "cvCapacityRange rq = Some cap"
        "cvVolumeCapabilities rq = Some caps" "list_all supported caps"
        "map_of (cvParameters rq) CSI_STORAGE_PVC_NAME = Some n"
        "map_of (cvParameters rq) CSI_STORAGE_PVC_NAMESPACE = Some ns"
        "fst (GetPVC C (ns, n) w) = Inr pvc"
      and lc: "fst (getListenerClassFor C (Annotations (pvcMeta pvc)) ns w) = Ok lc" and "w' = w"
      and v: "v = \<lparr>VolumeId = cvName rq, CapacityBytes = cap, VolumeContext = Annotations (pvcMeta pvc),
        AccessibleTopology = getAccessibleTopology rq lc\<rparr>"
      unfolding topology by blast
    let ?p = "\<lparr>PVCName = n, pvcNamespace = ns\<rparr>"
    have "validateCreateVolumeRequest rq = Inr ()"
      "newCreateVolumeRequestParamsFromMap (cvParameters rq) = Inr ?p"
      "getVolumeContext C ?p w = (Ok (Annotations (pvcMeta pvc)), w)"
      using * kube_reads.getListenerClassFor_Ok [OF assms lc]
      unfolding validateCreate_Inr params_Inr ctx by auto
    moreover have "getListenerClassFor C (Annotations (pvcMeta pvc)) ns w = (Ok lc, w)"
      using lc reads by (metis prod.collapse)
    ultimately show ?l using v \<open>w' = w\<close> *(2) by (simp add: CreateVolume_def Let_def)
  }
qed

definition exampleClaim :: persistentVolumeClaim where
  "exampleClaim = \<lparr>pvcMeta = (newMeta ''data'' ''shop'')\<lparr>
     Annotations := [(''listeners.kubedoop.dev/class'', ''external'')]\<rparr>\<rparr>"

definition claimCluster :: cluster where
  "claimCluster = exampleCluster\<lparr>cPVCs := [((''shop'', ''data''), exampleClaim)]\<rparr>"

definition exampleRequest :: createVolumeRequest where
  "exampleRequest = \<lparr>cvName = ''pvc-1'', cvCapacityRange = Some 1024,
     cvVolumeCapabilities = Some [\<lparr>capAccessType = Some MountVolume, capAccessMode = Some SINGLE_NODE_WRITER\<rparr>],
     cvParameters = [(CSI_STORAGE_PVC_NAME, ''data''), (CSI_STORAGE_PVC_NAMESPACE, ''shop'')],
     cvAccessibilityRequirements = Some [[(''host'', ''n1'')], [(''host'', ''n2'')]]\<rparr>"

theorem CreateVolume_correct_witness:
  "\<exists>v. CreateVolume fakeClient exampleRequest claimCluster = (Ok v, claimCluster)
     \<and> VolumeId v = ''pvc-1'' \<and> AccessibleTopology v = [[(''host'', ''n1'')]]"
  unfolding CreateVolume_correct [OF fake.kube_reads_axioms]
  by (simp add: exampleRequest_def claimCluster_def exampleClaim_def supported_def fake_defs
      CSI_STORAGE_PVC_NAME_def CSI_STORAGE_PVC_NAMESPACE_def getListenerClassFor_def exampleCluster_def
      exampleClass_def)

text \<open>C30. \<^verbatim>\<open>CreateVolume\<close> never panics and never changes the cluster, and every failure carries a
  status code: a bad request, missing parameters or a claim without the annotations are
  \<^verbatim>\<open>InvalidArgument\<close>, a class that cannot be looked up is \<^verbatim>\<open>Internal\<close>.\<close>

theorem CreateVolume_errors:
  assumes "kube_reads C" "CreateVolume C rq w = (r, w')"
  shows "w' = w \<and> (case r of
     Ok v \<Rightarrow> True
   | Panic p \<Rightarrow> False
   | Err e \<Rightarrow> status_code e \<in> {InvalidArgument, Internal}
       \<and> (status_code e = Internal \<longleftrightarrow> validateCreateVolumeRequest rq = Inr ()
            \<and> (\<exists>p ctx e'. newCreateVolumeRequestParamsFromMap (cvParameters rq) = Inr p
                 \<and> getVolumeContext C p w = (Ok ctx, w)
                 \<and> fst (getListenerClassFor C ctx (pvcNamespace p) w) = Err e')))"
proof -
  note ctx = kube_reads.getVolumeContext_reads [OF assms(1)]
    and lc = kube_reads.getListenerClassFor_reads [OF assms(1)]
  show ?thesis
  proof (cases "validateCreateVolumeRequest rq")
    case (Inl e)
    with assms(2) show ?thesis by (auto simp: CreateVolume_def)
  next
    case valid: (Inr u)
    show ?thesis
    proof (cases "newCreateVolumeRequestParamsFromMap (cvParameters rq)")
      case (Inl e)
      with valid assms(2) show ?thesis by (auto simp: CreateVolume_def Let_def)
    next
      case p: (Inr p)
      obtain x w1 where x: "getVolumeContext C p w = (x, w1)" by force
      obtain y w2 where y: "getListenerClassFor C (case x of Ok c \<Rightarrow> c | _ \<Rightarrow> []) (pvcNamespace p) w1 = (y, w2)"
        by force
      have "x \<noteq> Panic m" for m using x getVolumeContext_no_panic by metis
      moreover have "y \<noteq> Panic m" for m using y getListenerClassFor_no_panic by metis
      moreover have "w1 = w" using x ctx by blast
      moreover have "w2 = w1" using y lc by blast
      ultimately show ?thesis using x y valid p assms(2)
        by (simp add: CreateVolume_def Let_def bindG_def mapErrG_def split: outcome.splits) auto
    qed
  qed
qed

theorem CreateVolume_errors_witness:
  "\<exists>e. CreateVolume fakeClient (exampleRequest\<lparr>cvVolumeCapabilities := None\<rparr>) claimCluster
       = (Err e, claimCluster) \<and> status_code e = InvalidArgument"
proof -
  let ?rq = "exampleRequest\<lparr>cvVolumeCapabilities := None\<rparr>"
  have "validateCreateVolumeRequest ?rq = Inl (NewErr ''volumeCapabilities is required'')"
    by (simp add: validateCreateVolumeRequest_def exampleRequest_def)
  moreover from this obtain e where e: "CreateVolume fakeClient ?rq claimCluster = (Err e, claimCluster)"
    by (simp add: CreateVolume_def)
  ultimately show ?thesis
    using CreateVolume_errors [OF fake.kube_reads_axioms e] by auto
qed

text \<open>C40. \<^verbatim>\<open>CheckDynamicPV\<close> answers whether the name contains, anywhere, \<^verbatim>\<open>pvc-\<close> followed by
  text in the shape of a UUID: five groups of 8, 4, 4, 4 and 12 word characters (letters of both cases, digits
  and underscores, not only hexadecimal digits), separated by hyphens. The pattern is not anchored, so a name
  with more text on either side counts as well.\<close>

theorem CheckDynamicPV_correct:
  "CheckDynamicPV name = Inr (\<exists>pre u post. name = pre @ ''pvc-'' @ u @ post \<and> uuidShape u)"
proof -
  have "(\<exists>a u b. name = a @ u @ b \<and> lang pvcPattern u) \<longleftrightarrow>
      (\<exists>pre u post. name = pre @ ''pvc-'' @ u @ post \<and> uuidShape u)"
    unfolding lang_pvcPattern by (metis append.assoc)
  then show ?thesis unfolding CheckDynamicPV_def regexp_Match_correct by (rule arg_cong)
qed

text \<open>Deleting a volume is idempotent and touches nothing: every call with a volume id succeeds,
  dynamic or not, and a call without one is refused as an invalid argument.\<close>

theorem DeleteVolume_correct:
  "DeleteVolume volumeId w =
     (if volumeId = '''' then Err (GrpcErr InvalidArgument (NewErr ''volume ID is required'')) else Ok (), w)"
  by (simp add: DeleteVolume_def validateDeleteVolumeRequest_def CheckDynamicPV_def)

text \<open>\<^verbatim>\<open>ValidateVolumeCapabilities\<close> confirms whatever it is asked about: for every volume and
  every capability that \<^verbatim>\<open>CreateVolume\<close> would refuse as unsupported, the answer is that the capability
  is confirmed.\<close>

theorem ValidateVolumeCapabilities_confirms_unsupported:
  assumes "volumeId \<noteq> ''''" "\<not> supported c"
  shows "ValidateVolumeCapabilities volumeId [c] w = (Ok [c], w)
     \<and> (\<forall>rq. cvVolumeCapabilities rq = Some [c] \<longrightarrow> validateCreateVolumeRequest rq \<noteq> Inr ())"
  using assms by (auto simp: ValidateVolumeCapabilities_def validateCreate_Inr)

theorem ValidateVolumeCapabilities_confirms_unsupported_witness:
  "ValidateVolumeCapabilities ''pvc-1'' [\<lparr>capAccessType = Some BlockVolume, capAccessMode = None\<rparr>] ()
     = (Ok [\<lparr>capAccessType = Some BlockVolume, capAccessMode = None\<rparr>], ())"
  using ValidateVolumeCapabilities_confirms_unsupported
    [of "''pvc-1''" "\<lparr>capAccessType = Some BlockVolume, capAccessMode = None\<rparr>" "()"]
  by (simp add: supported_def)

end
