(* ===== verification/PublishRace.thy ===== *)
theory PublishRace
  imports PublishSpec
begin

text \<open>
  Publishes that run at the same time. The volumes of one pod share a PodListeners object, and the
  kubelet publishes them in parallel, so the two requests that \<^verbatim>\<open>createOrUpdatePodListeners\<close> sends (a
  read, then a create or a merge patch) interleave with those of the other volumes. \<open>plStep\<close> is one
  request of a call, \<open>race\<close> the interleavings of any number of calls. The properties: a call that runs
  alone is the function of the code; no interleaving loses an update; and what happens to the calls
  that all find the object missing.
\<close>

section \<open>One request at a time\<close>

text \<open>Where a call stands: before its read, before its create, before its patch of the object it has
  read, or returned.\<close>

datatype plPhase = PlGet | PlCreate | PlPatch podListeners | PlReturn "error option"

definition plStep ::
  "('k, 'z) client_scheme \<Rightarrow> podListeners \<Rightarrow> string \<Rightarrow> plPhase \<Rightarrow> 'k \<Rightarrow> plPhase \<times> 'k" where
  "plStep C obj volumeName ph w = (case ph of
     PlGet \<Rightarrow> (case GetPodListeners C (objectKeyOf (plMeta obj)) w of
         (Inl err, w') \<Rightarrow> (if IsNotFound err then PlCreate
           else PlReturn (Some (FmtErr ''failed to get existing PodListeners: '' err)), w')
       | (Inr existing, w') \<Rightarrow> (PlPatch existing, w'))
   | PlCreate \<Rightarrow> (case CreatePodListeners C obj w of
         (Inl err, w') \<Rightarrow> (PlReturn (Some (FmtErr ''failed to create PodListeners: '' err)), w')
       | (Inr _, w') \<Rightarrow> (PlReturn None, w'))
   | PlPatch existing \<Rightarrow> (case PatchPodListeners C existing (setVolume volumeName obj existing) w of
         (Inl err, w') \<Rightarrow> (PlReturn (Some (FmtErr ''failed to update PodListeners: '' err)), w')
       | (Inr _, w') \<Rightarrow> (PlReturn None, w'))
   | PlReturn r \<Rightarrow> (PlReturn r, w))"

definition plOutcome :: "plPhase \<times> 'k \<Rightarrow> unit outcome option \<times> 'k" where
  "plOutcome = map_prod (\<lambda>ph. case ph of PlReturn None \<Rightarrow> Some (Ok ())
     | PlReturn (Some e) \<Rightarrow> Some (Err e) | _ \<Rightarrow> None) id"

text \<open>Taken one request at a time, the call of \<^verbatim>\<open>createOrUpdatePodListeners\<close> is two steps: run
  without interruption they return what the function returns and leave the cluster that it leaves, on
  every branch.\<close>

lemma plStep_alone:
  "plOutcome ((\<lambda>(ph, w'). plStep C obj v ph w') (plStep C obj v PlGet w))
     = map_prod Some id (createOrUpdatePodListeners C obj v w)"
  by (auto simp: plStep_def plOutcome_def createOrUpdatePodListeners_def bindG_def mapErrG_def tryG_def
      callG_def retG_def failG_def split: prod.splits sum.splits outcome.splits)

section \<open>Interleavings\<close>

text \<open>\<open>race C calls w\<^sub>0 H w phs\<close>: from the cluster \<open>w\<^sub>0\<close> the calls, each an object and the name of its
  volume, have reached the phases \<open>phs\<close> and the cluster \<open>w\<close> by way of the clusters in \<open>H\<close>. The client of
  the manager reads from a cache, which may lag behind: a read sees any cluster that has been reached
  (\<open>race_stale\<close>), a write always the present one.\<close>

inductive race ::
  "('k, 'z) client_scheme \<Rightarrow> (podListeners \<times> string) list \<Rightarrow> 'k \<Rightarrow> 'k set \<Rightarrow> 'k \<Rightarrow> plPhase list \<Rightarrow> bool"
  for C calls w0 where
  race_start: "race C calls w0 {w0} w0 (replicate (length calls) PlGet)"
| race_step: "race C calls w0 H w phs \<Longrightarrow> i < length calls \<Longrightarrow>
    plStep C (fst (calls ! i)) (snd (calls ! i)) (phs ! i) w = (ph, w') \<Longrightarrow>
    race C calls w0 (insert w' H) w' (phs[i := ph])"
| race_stale: "race C calls w0 H w phs \<Longrightarrow> i < length calls \<Longrightarrow> phs ! i = PlGet \<Longrightarrow> past \<in> H \<Longrightarrow>
    plStep C (fst (calls ! i)) (snd (calls ! i)) PlGet past = (ph, past') \<Longrightarrow>
    race C calls w0 H w (phs[i := ph])"

text \<open>The contract of the API server for requests that interleave. Objects are stored under their own
  name; a create succeeds only where there is no object; a request that fails changes nothing. A merge
  patch carries the entries in which the new object differs from the one that was read, whatever is stored
  by then: an entry without a difference stays as it is stored, and an entry that nobody has changed since
  the read becomes the new one.\<close>

locale kube_merge = kube_podlisteners C storedPL
  for C :: "('k, 'z) client_scheme" and storedPL :: "'k \<Rightarrow> objectKey \<Rightarrow> podListeners option" +
  assumes stored_key: "storedPL w k = Some x \<Longrightarrow> objectKeyOf (plMeta x) = k"
    and create_fresh: "CreatePodListeners C x w = (Inr y, w') \<Longrightarrow> storedPL w (objectKeyOf (plMeta x)) = None"
    and create_failed: "CreatePodListeners C x w = (Inl e, w') \<Longrightarrow> w' = w"
    and patch_failed: "PatchPodListeners C old new w = (Inl e, w') \<Longrightarrow> w' = w"

    and patch_stale: "PatchPodListeners C old new w = (Inr y, w') \<Longrightarrow> plMeta new = plMeta old \<Longrightarrow>
      storedPL w (objectKeyOf (plMeta old)) = Some cur \<Longrightarrow>
      wf_map (plListeners old) \<Longrightarrow> wf_map (plListeners new) \<Longrightarrow> wf_map (plListeners cur) \<Longrightarrow>
      \<exists>z. storedPL w' (objectKeyOf (plMeta old)) = Some z \<and> wf_map (plListeners z)
        \<and> (\<forall>v. (map_of (plListeners new) v = map_of (plListeners old) v \<longrightarrow>
                 map_of (plListeners z) v = map_of (plListeners cur) v)
             \<and> (map_of (plListeners cur) v = map_of (plListeners old) v \<longrightarrow>
                 map_of (plListeners z) v = map_of (plListeners new) v))"

text \<open>The entries of the object of a key: none where there is no object.\<close>

definition entriesOf :: "podListeners option \<Rightarrow> string \<rightharpoonup> podListener" where
  "entriesOf x = (case x of None \<Rightarrow> Map.empty | Some z \<Rightarrow> map_of (plListeners z))"

lemma entriesOf_simps [simp]: "entriesOf None = Map.empty" "entriesOf (Some z) = map_of (plListeners z)"
  by (simp_all add: entriesOf_def)

text \<open>Calls for different volumes of one pod: one key, one entry each, and no volume twice.\<close>

definition poolOf :: "objectKey \<Rightarrow> (podListeners \<times> string) list \<Rightarrow> bool" where
  "poolOf K calls \<longleftrightarrow> distinct (map snd calls)
     \<and> (\<forall>(obj, v)\<in>set calls. objectKeyOf (plMeta obj) = K \<and> (\<exists>x. plListeners obj = [(v, x)]))"

text \<open>What a call that returned successfully has recorded.\<close>

definition recorded :: "podListeners \<times> string \<Rightarrow> podListener option" where
  "recorded c = map_of (plListeners (fst c)) (snd c)"

lemma poolOf_nth:
  assumes "poolOf K calls" "i < length calls"
  obtains x where "objectKeyOf (plMeta (fst (calls ! i))) = K" "plListeners (fst (calls ! i)) = [(snd (calls ! i), x)]"
    "recorded (calls ! i) = Some x"
  using assms by (force simp: poolOf_def recorded_def dest: nth_mem)

lemma poolOf_distinct:
  "poolOf K calls \<Longrightarrow> i < length calls \<Longrightarrow> j < length calls \<Longrightarrow> snd (calls ! i) = snd (calls ! j) \<Longrightarrow> i = j"
  by (auto simp: poolOf_def distinct_conv_nth)

section \<open>The invariant of a race\<close>

text \<open>\<open>s\<close> is the object as it is stored, \<open>e0\<close> the entries at the start. The entry of a call is the one
  at the start until the call has returned successfully, and the call's own from then on; the other
  entries never change; and what a call has read shows the entry of its volume as it was at the start.\<close>

definition raceInv ::
  "objectKey \<Rightarrow> (podListeners \<times> string) list \<Rightarrow> (string \<rightharpoonup> podListener) \<Rightarrow> podListeners option \<Rightarrow> plPhase list
     \<Rightarrow> bool" where
  "raceInv K calls e0 s phs \<longleftrightarrow> length phs = length calls
     \<and> (\<forall>z. s = Some z \<longrightarrow> wf_map (plListeners z))
     \<and> (\<forall>v. v \<notin> snd ` set calls \<longrightarrow> entriesOf s v = e0 v)
     \<and> (\<forall>i<length calls. entriesOf s (snd (calls ! i)) =
          (if phs ! i = PlReturn None then recorded (calls ! i) else e0 (snd (calls ! i))))
     \<and> (\<forall>i<length calls. \<forall>ex. phs ! i = PlPatch ex \<longrightarrow> s \<noteq> None \<and> objectKeyOf (plMeta ex) = K
          \<and> wf_map (plListeners ex) \<and> map_of (plListeners ex) (snd (calls ! i)) = e0 (snd (calls ! i)))"

lemma raceInv_start:
  assumes "\<And>z. s = Some z \<Longrightarrow> wf_map (plListeners z)"
  shows "raceInv K calls (entriesOf s) s (replicate (length calls) PlGet)"
  using assms by (simp add: raceInv_def)

lemma raceInv_quiet:
  assumes "raceInv K calls e0 s phs" "i < length calls" "phs ! i \<noteq> PlReturn None" "ph \<noteq> PlReturn None"
    and "\<And>ex. ph = PlPatch ex \<Longrightarrow> s \<noteq> None \<and> objectKeyOf (plMeta ex) = K \<and> wf_map (plListeners ex)
           \<and> map_of (plListeners ex) (snd (calls ! i)) = e0 (snd (calls ! i))"
  shows "raceInv K calls e0 s (phs[i := ph])"
proof -
  have "phs[i := ph] ! j = (if j = i then ph else phs ! j)" for j
    using assms(1,2) by (auto simp: raceInv_def)
  with assms show ?thesis by (simp add: raceInv_def)
qed

lemma raceInv_write:
  assumes "raceInv K calls e0 s phs" "poolOf K calls" "i < length calls" "wf_map (plListeners z)"
    and "map_of (plListeners z) = (entriesOf s)(snd (calls ! i) := recorded (calls ! i))"
  shows "raceInv K calls e0 (Some z) (phs[i := PlReturn None])"
proof -
  have "snd (calls ! j) = snd (calls ! i) \<longleftrightarrow> j = i" if "j < length calls" for j
    using poolOf_distinct [OF assms(2)] assms(3) that by auto
  moreover have "phs[i := PlReturn None] ! j = (if j = i then PlReturn None else phs ! j)" for j
    using assms(1,3) by (auto simp: raceInv_def)
  moreover have "snd (calls ! i) \<in> snd ` set calls" using assms(3) by (simp add: nth_mem)
  ultimately show ?thesis
    using assms(1,3-5) by (auto simp: raceInv_def)
qed

text \<open>What a past state \<open>p\<close> of the object shows: no call has deleted the object, and the entry of a call
  that has not returned successfully is the one at the start.\<close>

definition pastInv ::
  "(podListeners \<times> string) list \<Rightarrow> (string \<rightharpoonup> podListener) \<Rightarrow> podListeners option \<Rightarrow> plPhase list
     \<Rightarrow> podListeners option \<Rightarrow> bool" where
  "pastInv calls e0 s phs p \<longleftrightarrow> (p \<noteq> None \<longrightarrow> s \<noteq> None) \<and> (\<forall>z. p = Some z \<longrightarrow> wf_map (plListeners z))
     \<and> (\<forall>i<length calls. phs ! i \<noteq> PlReturn None \<longrightarrow> entriesOf p (snd (calls ! i)) = e0 (snd (calls ! i)))"

lemma pastInv_now: "raceInv K calls e0 s phs \<Longrightarrow> pastInv calls e0 s phs s"
  by (simp add: pastInv_def raceInv_def)

lemma pastInv_step:
  assumes "pastInv calls e0 s phs p" "length phs = length calls" "i < length calls" "s \<noteq> None \<Longrightarrow> s' \<noteq> None"
    and "phs ! i = PlReturn None \<Longrightarrow> ph = PlReturn None"
  shows "pastInv calls e0 s' (phs[i := ph]) p"
proof -
  have "phs[i := ph] ! j = (if j = i then ph else phs ! j)" for j using assms(2,3) by simp
  with assms show ?thesis by (auto simp: pastInv_def)
qed

context kube_merge
begin

lemma plStep_quiet:
  assumes "plStep C obj v ph w = (ph', w')" "ph' \<noteq> PlReturn None"
  shows "w' = w"
proof (cases ph)
  case PlGet
  with assms show ?thesis by (auto simp: plStep_def dest: reads_eq(3) split: prod.splits sum.splits)
next
  case PlCreate
  with assms show ?thesis by (auto simp: plStep_def dest: create_failed split: prod.splits sum.splits)
next
  case (PlPatch ex)
  with assms show ?thesis by (auto simp: plStep_def dest: patch_failed split: prod.splits sum.splits)
qed (use assms in \<open>simp add: plStep_def\<close>)

lemma plStep_create:
  assumes "raceInv K calls e0 (storedPL w K) phs" "poolOf K calls" "i < length calls" "phs ! i = PlCreate"
    and "plStep C (fst (calls ! i)) (snd (calls ! i)) PlCreate w = (ph, w')"
  shows "raceInv K calls e0 (storedPL w' K) (phs[i := ph])"
proof -
  obtain x where x: "objectKeyOf (plMeta (fst (calls ! i))) = K"
      "plListeners (fst (calls ! i)) = [(snd (calls ! i), x)]" "recorded (calls ! i) = Some x"
    by (rule poolOf_nth [OF assms(2,3)])
  obtain r w1 where r: "CreatePodListeners C (fst (calls ! i)) w = (r, w1)" by force
  show ?thesis
  proof (cases r)
    case (Inl e)
    then have "w1 = w" using create_failed r by simp
    with assms(1,3-5) r Inl show ?thesis
      by (auto simp: plStep_def intro!: raceInv_quiet)
  next
    case (Inr y)
    then have none: "storedPL w K = None" using create_fresh [of "fst (calls ! i)" w y w1] r x(1) by simp
    obtain z where "storedPL w1 K = Some z" "plListeners z = [(snd (calls ! i), x)]"
      using createPL [of "fst (calls ! i)" w y w1] r Inr x by auto
    with assms(5) r Inr raceInv_write [OF assms(1-3), of z] none x(3) show ?thesis
      by (auto simp: plStep_def wf_map_def fun_eq_iff)
  qed
qed

lemma plStep_patch:
  assumes "raceInv K calls e0 (storedPL w K) phs" "poolOf K calls" "i < length calls" "phs ! i = PlPatch ex"
    and "plStep C (fst (calls ! i)) (snd (calls ! i)) (PlPatch ex) w = (ph, w')"
  shows "raceInv K calls e0 (storedPL w' K) (phs[i := ph])"
proof -
  let ?v = "snd (calls ! i)" and ?new = "setVolume (snd (calls ! i)) (fst (calls ! i)) ex"
  obtain x where x: "plListeners (fst (calls ! i)) = [(?v, x)]" "recorded (calls ! i) = Some x"
    by (rule poolOf_nth [OF assms(2,3)])
  have ex: "objectKeyOf (plMeta ex) = K" "wf_map (plListeners ex)"
      "map_of (plListeners ex) ?v = e0 ?v" "entriesOf (storedPL w K) ?v = e0 ?v"
    using assms(1,3,4) by (auto simp: raceInv_def)
  have "storedPL w K \<noteq> None" using assms(1,3,4) by (simp add: raceInv_def)
  then obtain cur where cur: "storedPL w K = Some cur" by blast
  have new: "plMeta ?new = plMeta ex" "wf_map (plListeners ?new)"
      "map_of (plListeners ?new) = (map_of (plListeners ex))(?v \<mapsto> x)"
    using ex(2) x(1) by (simp_all add: setVolume_def update_conv')
  obtain r w1 where r: "PatchPodListeners C ex ?new w = (r, w1)" by force
  show ?thesis
  proof (cases r)
    case (Inl e)
    then have "w1 = w" using patch_failed r by simp
    with assms(1,3-5) r Inl show ?thesis
      by (auto simp: plStep_def intro!: raceInv_quiet)
  next
    case (Inr y)
    have "wf_map (plListeners cur)" using assms(1) cur by (simp add: raceInv_def)
    then obtain z where z: "storedPL w1 K = Some z" "wf_map (plListeners z)"
      and kept: "\<And>v. map_of (plListeners ?new) v = map_of (plListeners ex) v \<Longrightarrow>
         map_of (plListeners z) v = map_of (plListeners cur) v"
      and own: "\<And>v. map_of (plListeners cur) v = map_of (plListeners ex) v \<Longrightarrow>
         map_of (plListeners z) v = map_of (plListeners ?new) v"
      using patch_stale [of ex ?new w y w1 cur] r Inr ex(1,2) new(1,2) cur by auto
    have "map_of (plListeners z) v = ((entriesOf (storedPL w K))(?v := recorded (calls ! i))) v" for v
      using kept [of v] own [of v] ex(3,4) x(2) cur by (auto simp: new(3))
    with assms(5) r Inr z raceInv_write [OF assms(1-3) z(2)] show ?thesis
      by (auto simp: plStep_def fun_eq_iff)
  qed
qed

lemma plStep_get:
  assumes "raceInv K calls e0 (storedPL w K) phs" "poolOf K calls" "i < length calls" "phs ! i = PlGet"
    and "pastInv calls e0 (storedPL w K) phs (storedPL past K)"
    and "plStep C (fst (calls ! i)) (snd (calls ! i)) PlGet past = (ph, past')"
  shows "raceInv K calls e0 (storedPL w K) (phs[i := ph])"
proof -
  have key: "objectKeyOf (plMeta (fst (calls ! i))) = K" by (rule poolOf_nth [OF assms(2,3)])
  obtain r w1 where r: "GetPodListeners C K past = (r, w1)" by force
  show ?thesis
  proof (cases r)
    case (Inl e)
    with assms(1,3,4,6) r show ?thesis
      by (auto simp: plStep_def key intro!: raceInv_quiet split: if_splits)
  next
    case (Inr ex)
    then have s: "storedPL past K = Some ex" using getPL [of K past ex w1] r by simp
    have "storedPL w K \<noteq> None \<and> objectKeyOf (plMeta ex) = K \<and> wf_map (plListeners ex)
        \<and> map_of (plListeners ex) (snd (calls ! i)) = e0 (snd (calls ! i))"
      using stored_key [OF s] assms(3-5) s by (auto simp: pastInv_def)
    then have "raceInv K calls e0 (storedPL w K) (phs[i := PlPatch ex])"
      using assms(4) by (intro raceInv_quiet [OF assms(1,3)]) simp_all
    with assms(6) r Inr show ?thesis by (simp add: plStep_def key)
  qed
qed

lemma plStep_inv:
  assumes "raceInv K calls e0 (storedPL w K) phs" "poolOf K calls" "i < length calls"
    and "plStep C (fst (calls ! i)) (snd (calls ! i)) (phs ! i) w = (ph, w')"
  shows "raceInv K calls e0 (storedPL w' K) (phs[i := ph])"
proof (cases "phs ! i")
  case PlGet
  with plStep_quiet [OF assms(4)] have "w' = w"
    using assms(4) by (auto simp: plStep_def split: prod.splits sum.splits if_splits)
  with PlGet assms(4) show ?thesis using plStep_get [OF assms(1-3) PlGet pastInv_now [OF assms(1)]] by simp
next
  case PlCreate
  with assms(4) show ?thesis using plStep_create [OF assms(1-3) PlCreate] by simp
next
  case (PlPatch ex)
  with assms(4) show ?thesis using plStep_patch [OF assms(1-3) PlPatch] by simp
next
  case (PlReturn r)
  with assms(4) have "w' = w" "ph = phs ! i" by (auto simp: plStep_def)
  with assms(1) show ?thesis by simp
qed

lemma plStep_keeps:
  assumes "raceInv K calls e0 (storedPL w' K) (phs[i := ph])" "poolOf K calls" "i < length calls"
    and "length phs = length calls"
    and "plStep C (fst (calls ! i)) (snd (calls ! i)) (phs ! i) w = (ph, w')" "storedPL w K \<noteq> None"
  shows "storedPL w' K \<noteq> None"
proof (cases "ph = PlReturn None")
  case True
  obtain x where "recorded (calls ! i) = Some x" by (rule poolOf_nth [OF assms(2,3)])
  moreover have "phs[i := ph] ! i = PlReturn None" using True assms(3,4) by simp
  ultimately have "entriesOf (storedPL w' K) (snd (calls ! i)) = Some x" using assms(1,3) by (simp add: raceInv_def)
  then show ?thesis by (cases "storedPL w' K") auto
next
  case False
  with plStep_quiet [OF assms(5)] assms(6) show ?thesis by simp
qed

lemma race_inv:
  assumes "race C calls w0 H w phs" "poolOf K calls"
    and "\<And>z. storedPL w0 K = Some z \<Longrightarrow> wf_map (plListeners z)"
  shows "raceInv K calls (entriesOf (storedPL w0 K)) (storedPL w K) phs
     \<and> (\<forall>p\<in>H. pastInv calls (entriesOf (storedPL w0 K)) (storedPL w K) phs (storedPL p K))"
  using assms(1)
proof induction
  case race_start
  then show ?case using raceInv_start [OF assms(3)] pastInv_now by simp
next
  case (race_step H w phs i ph w')
  then have inv: "raceInv K calls (entriesOf (storedPL w0 K)) (storedPL w K) phs" by blast
  have len: "length phs = length calls" using inv by (simp add: raceInv_def)
  note new = plStep_inv [OF inv assms(2) race_step.hyps(2,3)]
  note kept = plStep_keeps [OF new assms(2) race_step.hyps(2) len race_step.hyps(3)]
  have "phs ! i = PlReturn None \<Longrightarrow> ph = PlReturn None" using race_step.hyps(3) by (simp add: plStep_def)
  then have "pastInv calls (entriesOf (storedPL w0 K)) (storedPL w' K) (phs[i := ph]) (storedPL p K)" if "p \<in> H" for p
    using race_step.IH that kept by (intro pastInv_step [OF _ len race_step.hyps(2)]) blast+
  with new pastInv_now [OF new] show ?case by simp
next
  case (race_stale H w phs i past ph past')
  then have inv: "raceInv K calls (entriesOf (storedPL w0 K)) (storedPL w K) phs"
    and old: "\<And>p. p \<in> H \<Longrightarrow> pastInv calls (entriesOf (storedPL w0 K)) (storedPL w K) phs (storedPL p K)" by blast+
  have len: "length phs = length calls" using inv by (simp add: raceInv_def)
  have "raceInv K calls (entriesOf (storedPL w0 K)) (storedPL w K) (phs[i := ph])"
    by (rule plStep_get [OF inv assms(2) race_stale.hyps(2,3) old [OF race_stale.hyps(4)] race_stale.hyps(5)])
  moreover have "pastInv calls (entriesOf (storedPL w0 K)) (storedPL w K) (phs[i := ph]) (storedPL p K)" if "p \<in> H" for p
    by (rule pastInv_step [OF old [OF that] len race_stale.hyps(2)]) (simp_all add: race_stale.hyps(3))
  ultimately show ?case by blast
qed

end

interpretation fake: kube_merge fakeClient "storedAt plMeta cPodListeners"
proof (unfold_locales, goal_cases)
  case (1 w k x)
  then show ?case by (auto simp: storedAt_def split: option.splits if_splits)
next
  case (2 x w y w')
  then show ?case by (auto simp: fakeCreatePodListeners_def storedAt_def Let_def split: if_splits option.splits)
next
  case (3 x w e w')
  then show ?case by (auto simp: fakeCreatePodListeners_def Let_def split: if_splits)
next
  case (4 old new w e w')
  then show ?case by (auto simp: fakePatchPodListeners_def fakePatch_def split: option.splits)
next
  case (5 old new w y w' cur)
  then have "map_of (cPodListeners w) (objectKeyOf (plMeta old)) = Some cur"
      "objectKeyOf (plMeta cur) = objectKeyOf (plMeta old)"
    by (auto simp: storedAt_def split: option.splits if_splits)
  with 5 show ?case
    by (auto simp: fakePatchPodListeners_def fakePatch_def storedAt_def update_conv' mergeMap_lookup
        split: option.splits)
qed

section \<open>Properties\<close>

text \<open>The calls that publishing the volumes of one pod makes: for each volume its name in the pod, its
  Listener and the addresses.\<close>

definition publishCalls ::
  "('k, 'z) client_scheme \<Rightarrow> pod \<Rightarrow> (string \<times> listener \<times> ingressAddress list) list \<Rightarrow> (podListeners \<times> string) list"
  where "publishCalls C p vols =
     map (\<lambda>(v, l, ds). (buildPodListenersObject C p l v (determinePodListenerScope l) ds, v)) vols"

lemma publishCalls_pool:
  assumes "distinct (map fst vols)"
    and "\<forall>ow m m'. SetControllerReference C ow m = Inr m' \<longrightarrow> (\<exists>os. m' = m\<lparr>OwnerReferences := os\<rparr>)"
  shows "poolOf (Namespace (pMeta p), podListenersName p) (publishCalls C p vols)"
proof -
  have "objectKeyOf (plMeta (buildPodListenersObject C p l v sc ds)) = (Namespace (pMeta p), podListenersName p)"
    for l v sc ds using assms(2) by (intro buildPodListenersObject_key) blast
  moreover have "map snd (publishCalls C p vols) = map fst vols" by (auto simp: publishCalls_def)
  moreover have "\<forall>(obj, v)\<in>set (publishCalls C p vols). (\<exists>l sc ds. obj = buildPodListenersObject C p l v sc ds)"
    by (auto simp: publishCalls_def)
  ultimately show ?thesis
    using assms(1) by (fastforce simp: poolOf_def buildPodListenersObject_listeners)
qed

lemma publishCalls_nth:
  assumes "i < length vols"
  shows "snd (publishCalls C p vols ! i) = fst (vols ! i)"
    and "recorded (publishCalls C p vols ! i) = Some \<lparr>Scope = determinePodListenerScope (fst (snd (vols ! i))),
       ListenerIngresses = map (\<lambda>a. \<lparr>iaAddress = Address a, iaAddressType = AddressType a, iaPorts = Ports a\<rparr>)
         (snd (snd (vols ! i)))\<rparr>"
  using assms by (simp_all add: publishCalls_def recorded_def buildPodListenersObject_listeners split_def)

text \<open>Two volumes of one pod, and a cluster in which the pod has a third one already.\<close>

definition exampleVols :: "(string \<times> listener \<times> ingressAddress list) list" where
  "exampleVols = [(''a'', readyListener, publishedData), (''b'', readyListener, [])]"

definition recordedCluster :: cluster where
  "recordedCluster = emptyCluster\<lparr>cPodListeners := [((''shop'', ''pod-77''), \<lparr>plMeta = newMeta ''pod-77'' ''shop'',
     plListeners = [(''other'', zeroPodListener)]\<rparr>)]\<rparr>"

lemma example_key:
  "objectKeyOf (plMeta (buildPodListenersObject fakeClient examplePod l v sc ds)) = (''shop'', ''pod-77'')"
  "(Namespace (pMeta examplePod), podListenersName examplePod) = (''shop'', ''pod-77'')"
proof -
  show key: "(Namespace (pMeta examplePod), podListenersName examplePod) = (''shop'', ''pod-77'')"
    by (simp add: examplePod_def podListenersName_def newMeta_def)
  show "objectKeyOf (plMeta (buildPodListenersObject fakeClient examplePod l v sc ds)) = (''shop'', ''pod-77'')"
    unfolding key [symmetric] by (rule buildPodListenersObject_key) (simp add: fakeSetControllerReference_frame)
qed

lemma race_stepI:
  assumes "race C calls w0 H w phs" "i < length calls"
    "plStep C (fst (calls ! i)) (snd (calls ! i)) (phs ! i) w = (ph, w')" "phs' = phs[i := ph]"
    "H' = insert w' H"
  shows "race C calls w0 H' w' phs'"
  using race_step [OF assms(1-3)] assms(4,5) by simp

lemma race_staleI:
  assumes "race C calls w0 H w phs" "i < length calls" "phs ! i = PlGet" "past \<in> H"
    "plStep C (fst (calls ! i)) (snd (calls ! i)) PlGet past = (ph, past')" "phs' = phs[i := ph]"
  shows "race C calls w0 H w phs'"
  using race_stale [OF assms(1-5)] assms(6) by simp

lemma example_race:
  "\<exists>H w. race fakeClient (publishCalls fakeClient examplePod exampleVols) recordedCluster H w
     [PlReturn None, PlReturn None]"
proof -
  let ?calls = "publishCalls fakeClient examplePod exampleVols" and ?w = recordedCluster
  let ?old = "\<lparr>plMeta = newMeta ''pod-77'' ''shop'', plListeners = [(''other'', zeroPodListener)]\<rparr>"
  have keys: "objectKeyOf (newMeta ''pod-77'' ''shop'') = (''shop'', ''pod-77'')"
    by (simp add: objectKeyOf_def newMeta_def)
  have len: "length ?calls = 2" and c0: "objectKeyOf (plMeta (fst (?calls ! 0))) = (''shop'', ''pod-77'')"
    and c1: "objectKeyOf (plMeta (fst (?calls ! Suc 0))) = (''shop'', ''pod-77'')"
    by (simp_all add: publishCalls_def exampleVols_def example_key)
  have get: "fakeGetOwn plMeta cPodListeners (''shop'', ''pod-77'') ?w = (Inr ?old, ?w)"
    by (simp add: fake_defs recordedCluster_def keys)
  have r0: "race fakeClient ?calls ?w {?w} ?w [PlGet, PlGet]"
    using race_start [of fakeClient ?calls ?w] len by (simp add: numeral_2_eq_2)
  have r1: "race fakeClient ?calls ?w {?w} ?w [PlPatch ?old, PlGet]"
    by (rule race_stepI [OF r0, of 0]) (simp_all add: len plStep_def c0 get)
  have patch: "\<exists>y w'. PatchPodListeners fakeClient ?old new w = (Inr y, w')
      \<and> map_of (cPodListeners w') (''shop'', ''pod-77'') \<noteq> None"
    if "map_of (cPodListeners w) (''shop'', ''pod-77'') \<noteq> None" for new w
    using that by (auto simp: fakePatchPodListeners_def fakePatch_def keys update_conv')
  obtain y1 w1 where w1: "PatchPodListeners fakeClient ?old (setVolume (snd (?calls ! 0)) (fst (?calls ! 0)) ?old) ?w
      = (Inr y1, w1)" "map_of (cPodListeners w1) (''shop'', ''pod-77'') \<noteq> None"
    using patch [of ?w] by (force simp: recordedCluster_def)
  have r2: "race fakeClient ?calls ?w {w1, ?w} w1 [PlReturn None, PlGet]"
    by (rule race_stepI [OF r1, of 0]) (use w1(1) in \<open>simp_all add: len plStep_def\<close>)
  have r3: "race fakeClient ?calls ?w {w1, ?w} w1 [PlReturn None, PlPatch ?old]"
    by (rule race_staleI [OF r2, of "Suc 0" ?w]) (simp_all add: len plStep_def c1 get)
  obtain y2 w2 where w2: "PatchPodListeners fakeClient ?old
      (setVolume (snd (?calls ! Suc 0)) (fst (?calls ! Suc 0)) ?old) w1 = (Inr y2, w2)"
    using patch [OF w1(2)] by blast
  have "race fakeClient ?calls ?w {w2, w1, ?w} w2 [PlReturn None, PlReturn None]"
    by (rule race_stepI [OF r3, of "Suc 0"]) (use w2 in \<open>simp_all add: len plStep_def\<close>)
  then show ?thesis by blast
qed

text \<open>C6. No update is lost when the volumes of a pod are published at the same time. Whatever the
  interleaving of the requests of any number of calls, at every moment each call that has returned
  successfully finds its entry (scope and addresses) in the pod's PodListeners object, and every other
  entry is the one that was there at the start, although the calls patch the object without a lock and
  read it from a cache that may lag behind.\<close>

theorem concurrent_publishes_merge:
  assumes "kube_merge C storedPL" "race C (publishCalls C p vols) w0 H w phs" "distinct (map fst vols)"
    and "\<forall>ow m m'. SetControllerReference C ow m = Inr m' \<longrightarrow> (\<exists>os. m' = m\<lparr>OwnerReferences := os\<rparr>)"
    and "\<forall>z. storedPL w0 (Namespace (pMeta p), podListenersName p) = Some z \<longrightarrow> wf_map (plListeners z)"
  shows "length phs = length vols
     \<and> (\<forall>i<length vols. phs ! i = PlReturn None \<longrightarrow>
          entriesOf (storedPL w (Namespace (pMeta p), podListenersName p)) (fst (vols ! i))
            = Some \<lparr>Scope = determinePodListenerScope (fst (snd (vols ! i))), ListenerIngresses =
                map (\<lambda>a. \<lparr>iaAddress = Address a, iaAddressType = AddressType a, iaPorts = Ports a\<rparr>)
                  (snd (snd (vols ! i)))\<rparr>)
     \<and> (\<forall>v. (\<forall>i<length vols. phs ! i = PlReturn None \<longrightarrow> fst (vols ! i) \<noteq> v) \<longrightarrow>
          entriesOf (storedPL w (Namespace (pMeta p), podListenersName p)) v
            = entriesOf (storedPL w0 (Namespace (pMeta p), podListenersName p)) v)"
proof -
  let ?K = "(Namespace (pMeta p), podListenersName p)" and ?calls = "publishCalls C p vols"
  have inv: "raceInv ?K ?calls (entriesOf (storedPL w0 ?K)) (storedPL w ?K) phs"
    using kube_merge.race_inv [OF assms(1,2) publishCalls_pool [OF assms(3,4)]] assms(5) by blast
  have len: "length ?calls = length vols" by (simp add: publishCalls_def)
  note name = publishCalls_nth(1)
  have "entriesOf (storedPL w ?K) v = entriesOf (storedPL w0 ?K) v"
    if other: "\<forall>i<length vols. phs ! i = PlReturn None \<longrightarrow> fst (vols ! i) \<noteq> v" for v
  proof (cases "v \<in> snd ` set ?calls")
    case True
    then obtain i where "i < length vols" "snd (?calls ! i) = v"
      by (auto simp: in_set_conv_nth len)
    with other inv show ?thesis by (auto simp: raceInv_def len name)
  next
    case False
    with inv show ?thesis by (simp add: raceInv_def)
  qed
  moreover have "entriesOf (storedPL w ?K) (fst (vols ! i)) = recorded (?calls ! i)"
    if "i < length vols" "phs ! i = PlReturn None" for i
    using inv that name [OF that(1), of C p] by (auto simp: raceInv_def len)
  moreover have "length phs = length vols" using inv by (simp add: raceInv_def len)
  ultimately show ?thesis by (simp add: publishCalls_nth(2))
qed

theorem concurrent_publishes_merge_witness:
  "\<exists>H w. race fakeClient (publishCalls fakeClient examplePod exampleVols) recordedCluster H w
         [PlReturn None, PlReturn None]
     \<and> entriesOf (storedAt plMeta cPodListeners w (''shop'', ''pod-77'')) ''a'' = Some \<lparr>Scope = PodlistenerClusterScope,
          ListenerIngresses = [\<lparr>iaAddress = ''lb.example'', iaAddressType = AddressTypeHostname, iaPorts = [(''http'', 80)]\<rparr>]\<rparr>
     \<and> entriesOf (storedAt plMeta cPodListeners w (''shop'', ''pod-77'')) ''b''
         = Some \<lparr>Scope = PodlistenerClusterScope, ListenerIngresses = []\<rparr>
     \<and> entriesOf (storedAt plMeta cPodListeners w (''shop'', ''pod-77'')) ''other'' = Some zeroPodListener"
proof -
  obtain H w where w: "race fakeClient (publishCalls fakeClient examplePod exampleVols) recordedCluster H w
      [PlReturn None, PlReturn None]"
    using example_race by blast
  have old: "storedAt plMeta cPodListeners recordedCluster (''shop'', ''pod-77'')
      = Some \<lparr>plMeta = newMeta ''pod-77'' ''shop'', plListeners = [(''other'', zeroPodListener)]\<rparr>"
    by (simp add: storedAt_def objectKeyOf_def newMeta_def recordedCluster_def)
  have len: "length exampleVols = 2" by (simp add: exampleVols_def)
  note all = concurrent_publishes_merge [OF fake.kube_merge_axioms w, unfolded example_key len]
  have facts: "distinct (map fst exampleVols)"
    "\<forall>ow m m'. SetControllerReference fakeClient ow m = Inr m' \<longrightarrow> (\<exists>os. m' = m\<lparr>OwnerReferences := os\<rparr>)"
    "\<forall>z. storedAt plMeta cPodListeners recordedCluster (''shop'', ''pod-77'') = Some z \<longrightarrow> wf_map (plListeners z)"
    by (simp_all add: exampleVols_def fakeSetControllerReference_frame old wf_map_def)
  note r = all [OF facts, THEN conjunct2]
  let ?e = "entriesOf (storedAt plMeta cPodListeners w (''shop'', ''pod-77''))"
  have "?e ''a'' = Some \<lparr>Scope = PodlistenerClusterScope,
      ListenerIngresses = [\<lparr>iaAddress = ''lb.example'', iaAddressType = AddressTypeHostname, iaPorts = [(''http'', 80)]\<rparr>]\<rparr>"
    using r [THEN conjunct1, rule_format, of 0]
    by (simp add: exampleVols_def publishedData_def readyListener_def determinePodListenerScope_def)
  moreover have "?e ''b'' = Some \<lparr>Scope = PodlistenerClusterScope, ListenerIngresses = []\<rparr>"
    using r [THEN conjunct1, rule_format, of "Suc 0"]
    by (simp add: exampleVols_def readyListener_def determinePodListenerScope_def)
  moreover have "fst (exampleVols ! i) \<noteq> ''other''" if "i < 2" for i
    using that by (auto simp: exampleVols_def less_Suc_eq numeral_2_eq_2)
  then have "?e ''other'' = Some zeroPodListener"
    using r [THEN conjunct2, rule_format, of "''other''"] by (simp add: old)
  ultimately show ?thesis using w by blast
qed

text \<open>C36. Of several first publishes for one pod only one can create the PodListeners object. A call
  that found the object missing fails once another call has recorded its volume, with the error of the
  create, and changes nothing: the code does not fall back to the patch. A retry that succeeds records
  the volume beside the others.\<close>

theorem first_publish_race:
  assumes "kube_merge C storedPL" "race C calls w0 H w phs" "poolOf K calls"
    and "\<forall>z. storedPL w0 K = Some z \<longrightarrow> wf_map (plListeners z)"
    and "i < length calls" "phs ! i = PlCreate" "j < length calls" "phs ! j = PlReturn None"
  shows "(\<exists>e. plStep C (fst (calls ! i)) (snd (calls ! i)) (phs ! i) w
          = (PlReturn (Some (FmtErr ''failed to create PodListeners: '' e)), w))
     \<and> (\<forall>w'. createOrUpdatePodListeners C (fst (calls ! i)) (snd (calls ! i)) w = (Ok (), w') \<longrightarrow>
          entriesOf (storedPL w' K)
            = (entriesOf (storedPL w K))(snd (calls ! i) := recorded (calls ! i)))"
proof -
  have inv: "raceInv K calls (entriesOf (storedPL w0 K)) (storedPL w K) phs"
    using kube_merge.race_inv [OF assms(1-3)] assms(4) by blast
  obtain x where x: "objectKeyOf (plMeta (fst (calls ! i))) = K"
      "plListeners (fst (calls ! i)) = [(snd (calls ! i), x)]" "recorded (calls ! i) = Some x"
    by (rule poolOf_nth [OF assms(3,5)])
  obtain y where "recorded (calls ! j) = Some y" by (rule poolOf_nth [OF assms(3,7)])
  with inv assms(7,8) have "entriesOf (storedPL w K) (snd (calls ! j)) = Some y" by (auto simp: raceInv_def)
  then obtain z where z: "storedPL w K = Some z" by (cases "storedPL w K") auto
  with inv have wf: "wf_map (plListeners z)" by (simp add: raceInv_def)
  obtain r w1 where r: "CreatePodListeners C (fst (calls ! i)) w = (r, w1)" by force
  then obtain e where e: "r = Inl e"
    using kube_merge.create_fresh [OF assms(1)] x(1) z by (cases r) fastforce+
  then have "w1 = w" using kube_merge.create_failed [OF assms(1)] r by blast
  with r e assms(6) have step: "\<exists>e. plStep C (fst (calls ! i)) (snd (calls ! i)) (phs ! i) w
      = (PlReturn (Some (FmtErr ''failed to create PodListeners: '' e)), w)"
    by (simp add: plStep_def)
  have "entriesOf (storedPL w' K) = (entriesOf (storedPL w K))(snd (calls ! i) := recorded (calls ! i))"
    if run: "createOrUpdatePodListeners C (fst (calls ! i)) (snd (calls ! i)) w = (Ok (), w')" for w'
    using kube_podlisteners.createOrUpdate_merges [OF kube_merge.axioms(1) [OF assms(1)] run x(2)] wf z x
    by auto
  with step show ?thesis by blast
qed

theorem first_publish_race_witness:
  "\<exists>H w e. race fakeClient (publishCalls fakeClient examplePod exampleVols) emptyCluster H w [PlReturn None, PlCreate]
     \<and> plStep fakeClient (fst (publishCalls fakeClient examplePod exampleVols ! 1)) ''b'' PlCreate w
         = (PlReturn (Some (FmtErr ''failed to create PodListeners: '' e)), w)"
proof -
  let ?calls = "publishCalls fakeClient examplePod exampleVols" and ?w = emptyCluster
  have len: "length ?calls = 2" and c0: "objectKeyOf (plMeta (fst (?calls ! 0))) = (''shop'', ''pod-77'')"
    and c1: "objectKeyOf (plMeta (fst (?calls ! Suc 0))) = (''shop'', ''pod-77'')" and b: "snd (?calls ! Suc 0) = ''b''"
    by (simp_all add: publishCalls_def exampleVols_def example_key)
  have get: "fakeGetOwn plMeta cPodListeners (''shop'', ''pod-77'') ?w = (Inl (ApiErr NotFound ''pod-77''), ?w)"
    by (simp add: fake_defs emptyCluster_def)
  have r0: "race fakeClient ?calls ?w {?w} ?w [PlGet, PlGet]"
    using race_start [of fakeClient ?calls ?w] len by (simp add: numeral_2_eq_2)
  have r1: "race fakeClient ?calls ?w {?w} ?w [PlCreate, PlGet]"
    by (rule race_stepI [OF r0, of 0]) (simp_all add: len plStep_def c0 get)
  have r2: "race fakeClient ?calls ?w {?w} ?w [PlCreate, PlCreate]"
    by (rule race_stepI [OF r1, of "Suc 0"]) (simp_all add: len plStep_def c1 get)
  have "fst (fakeCreatePodListeners obj ?w) = Inr obj" for obj
    by (simp add: fakeCreatePodListeners_def emptyCluster_def Let_def)
  then obtain y w where w: "fakeCreatePodListeners (fst (?calls ! 0)) ?w = (Inr y, w)"
    by (metis prod.collapse)
  have r3: "race fakeClient ?calls ?w {w, ?w} w [PlReturn None, PlCreate]"
    by (rule race_stepI [OF r2, of 0]) (simp_all add: len plStep_def w)
  have pool: "poolOf (''shop'', ''pod-77'') ?calls"
    unfolding example_key(2) [symmetric]
    by (rule publishCalls_pool) (simp_all add: exampleVols_def fakeSetControllerReference_frame)
  have none: "\<forall>z. storedAt plMeta cPodListeners ?w (''shop'', ''pod-77'') = Some z \<longrightarrow> wf_map (plListeners z)"
    by (simp add: storedAt_def emptyCluster_def)
  have at: "Suc 0 < length ?calls" "[PlReturn None, PlCreate] ! Suc 0 = PlCreate" "0 < length ?calls"
      "[PlReturn None, PlCreate] ! 0 = PlReturn None"
    by (simp_all add: len)
  obtain e where "plStep fakeClient (fst (?calls ! Suc 0)) (snd (?calls ! Suc 0)) ([PlReturn None, PlCreate] ! Suc 0) w
      = (PlReturn (Some (FmtErr ''failed to create PodListeners: '' e)), w)"
    using first_publish_race [OF fake.kube_merge_axioms r3 pool, OF none at, THEN conjunct1] by (rule exE)
  then have "plStep fakeClient (fst (?calls ! 1)) ''b'' PlCreate w
      = (PlReturn (Some (FmtErr ''failed to create PodListeners: '' e)), w)"
    unfolding b at(2) One_nat_def .
  with r3 show ?thesis by (intro exI conjI)
qed

end
