(* ===== verification/Server.thy ===== *)
theory Server
  imports GoOs Util
begin

text \<open>
  The gRPC server of \<^verbatim>\<open>pkg/server/server.go\<close>: a struct with a listening socket, a wait group and a
  \<^verbatim>\<open>sync.Once\<close>, shared by the goroutine that serves, the goroutines that stop the server and the ones
  that wait for it. A goroutine is the list of the instructions it has still to execute; \<open>exec\<close> is one
  instruction and \<open>step\<close> interleaves the goroutines with each other, with the calls that arrive at the
  gRPC server and with the cancellation of the context. The gRPC library is the parameter \<open>'g grpc\<close>;
  \<open>grpc_server\<close> states what its documentation promises.
\<close>

section \<open>The gRPC library\<close>

text \<open>
  The options and services that are handed to the library, and its server as a state \<open>'g\<close>. A listener
  is a handle. \<open>gGraceful\<close> and \<open>gStop\<close> are the moments at which \<^verbatim>\<open>GracefulStop\<close> and \<^verbatim>\<open>Stop\<close> take
  effect, with the listeners that they close; \<open>gGracefulReturns\<close> says that a call of \<^verbatim>\<open>GracefulStop\<close> may
  return. \<open>gServe\<close> enters \<^verbatim>\<open>Serve\<close>, and \<open>gServeReturns\<close> is \<open>None\<close> as long as that call blocks, and
  otherwise its error, the state after it and the listeners that it closes. \<open>gInternal\<close> are the steps
  that the server takes by itself: calls arrive, and their handlers return.
\<close>

datatype grpcOption = UnaryInterceptorLogGRPC | OtherOption string
datatype 'v csiService = NodeService string | IdentityService 'v | ControllerService

record ('g, 'v) grpc =
  gNew :: "grpcOption list \<Rightarrow> 'g"
  gRegister :: "'v csiService \<Rightarrow> 'g \<Rightarrow> 'g"
  gServe :: "nat \<Rightarrow> 'g \<Rightarrow> 'g"
  gServeReturns :: "nat \<Rightarrow> 'g \<Rightarrow> (error option \<times> 'g \<times> nat list) option"
  gGraceful :: "'g \<Rightarrow> 'g \<times> nat list"
  gGracefulReturns :: "'g \<Rightarrow> bool"
  gStop :: "'g \<Rightarrow> 'g \<times> nat list"
  gInternal :: "'g \<Rightarrow> 'g \<Rightarrow> bool"

section \<open>The struct and the process around it\<close>

record 'g nbServer =
  nsEndpoint :: string
  nsOpts :: "grpcOption list"
  nsListener :: "nat option"
  nsServer :: "'g option"
  nsWg :: nat
  nsOnce :: bool

text \<open>The instructions of a goroutine. A call of a method of the server is one instruction, which is
  replaced by the body of the method when it is executed; a library call that blocks is an instruction
  that waits.\<close>

datatype instr =
    AwaitCtx
  | CallStop | CallForceStop | CallWait
  | GracefulStop | AwaitGraceful | StopGrpc
  | WgWait | WgDone
  | CloseListener
  | Serve | AwaitServe nat
  | Spawn "instr list"

text \<open>The process: the struct, the file system, the open listeners (with the path of a Unix socket), the
  reasons for which the network refuses to listen, the error lines of the log, whether the context is
  done, and the goroutines.\<close>

record 'g process = "'g nbServer" +
  pcFiles :: fsys
  pcOpen :: "nat \<rightharpoonup> string option"
  pcNext :: nat
  pcTcp :: "string \<Rightarrow> error option"
  pcLog :: "(error \<times> string) list"
  pcDone :: bool
  pcThreads :: "instr list list"

section \<open>Making a server\<close>

definition WithServerOptions :: "grpcOption list \<Rightarrow> 'g nbServer \<Rightarrow> 'g nbServer" where
  "WithServerOptions opts s = s\<lparr>nsOpts := nsOpts s @ opts\<rparr>"

definition NewNonBlockingServer ::
  "('g, 'v) grpc \<Rightarrow> string \<Rightarrow> ('g nbServer \<Rightarrow> 'g nbServer) list \<Rightarrow> 'g nbServer" where
  "NewNonBlockingServer G endpoint opts =
     (let s0 = \<lparr>nsEndpoint = endpoint, nsOpts = [UnaryInterceptorLogGRPC], nsListener = None,
                nsServer = None, nsWg = 0, nsOnce = False\<rparr>;
          s = fold (\<lambda>opt s. opt s) opts s0
      in s\<lparr>nsServer := Some (gNew G (nsOpts s))\<rparr>)"

definition logError :: "error \<Rightarrow> string \<Rightarrow> 'g process \<Rightarrow> 'g process" where
  "logError e msg s = s\<lparr>pcLog := pcLog s @ [(e, msg)]\<rparr>"

definition RegisterServiceFunc :: "('g \<Rightarrow> 'g) \<Rightarrow> 'g process \<Rightarrow> 'g process" where
  "RegisterServiceFunc registerFunc s = (case nsServer s of
     None \<Rightarrow> logError (NewErr ''server is not initialized'') ''failed to register service'' s
   | Some g \<Rightarrow> s\<lparr>nsServer := Some (registerFunc g)\<rparr>)"

definition registerOpt :: "('g, 'v) grpc \<Rightarrow> 'v csiService option \<Rightarrow> 'g \<Rightarrow> 'g" where
  "registerOpt G svc g = (case svc of None \<Rightarrow> g | Some v \<Rightarrow> gRegister G v g)"

definition RegisterService ::
  "('g, 'v) grpc \<Rightarrow> 'v csiService option \<Rightarrow> 'v csiService option \<Rightarrow> 'v csiService option
     \<Rightarrow> 'g process \<Rightarrow> 'g process" where
  "RegisterService G nodeServer identityServer controllerServer s = (case nsServer s of
     None \<Rightarrow> logError (NewErr ''server is not initialized'') ''failed to register service'' s
   | Some g \<Rightarrow> s\<lparr>nsServer := Some
       (registerOpt G controllerServer (registerOpt G identityServer (registerOpt G nodeServer g)))\<rparr>)"

section \<open>Listening\<close>

definition onProcessFiles :: "(fsys, 'a) go \<Rightarrow> ('g process, 'a) go" where
  "onProcessFiles m s = (case m (pcFiles s) of (r, f) \<Rightarrow> (r, s\<lparr>pcFiles := f\<rparr>))"

text \<open>\<^verbatim>\<open>net.Listen\<close>\<close>

definition openHandle :: "string option \<Rightarrow> 'g process \<Rightarrow> (error + nat) \<times> 'g process" where
  "openHandle p s = (Inr (pcNext s), s\<lparr>pcOpen := (pcOpen s)(pcNext s \<mapsto> p), pcNext := pcNext s + 1\<rparr>)"

definition net_Listen :: "string \<Rightarrow> string \<Rightarrow> ('g process, nat) call" where
  "net_Listen proto addr s =
     (if proto = ''unix'' then
        (case bindUnix addr (pcFiles s) of
           (Inl e, f) \<Rightarrow> (Inl e, s)
         | (Inr _, f) \<Rightarrow> openHandle (Some addr) (s\<lparr>pcFiles := f\<rparr>))
      else if proto = ''tcp'' then
        (case pcTcp s addr of Some e \<Rightarrow> (Inl e, s) | None \<Rightarrow> openHandle None s)
      else (Inl (NewErr (''listen '' @ proto @ '': unknown network '' @ proto)), s))"

text \<open>\<^verbatim>\<open>Close\<close> on a listener; closing a Unix socket removes its entry.\<close>

definition closeHandle :: "nat \<Rightarrow> ('g process, unit) call" where
  "closeHandle h s = (case pcOpen s h of
     None \<Rightarrow> (Inl (NewErr ''use of closed network connection''), s)
   | Some p \<Rightarrow> (Inr (), s\<lparr>pcOpen := (pcOpen s)(h := None),
       pcFiles := (case p of None \<Rightarrow> pcFiles s | Some path \<Rightarrow> snd (unlink path (pcFiles s)))\<rparr>))"

definition closeAll :: "nat list \<Rightarrow> 'g process \<Rightarrow> 'g process" where
  "closeAll hs s = fold (\<lambda>h s. snd (closeHandle h s)) hs s"

definition removeUnixSocket :: "string \<Rightarrow> ('g process, unit) go" where
  "removeUnixSocket addr =
     tryG (onProcessFiles (callG (os_Remove addr))) (\<lambda>r. case r of
         Inl err \<Rightarrow> if \<not> IsNotExist err then failG err else retG ()
       | Inr _ \<Rightarrow> retG ())"

definition createListener_server :: "('g process, nat) go" where
  "createListener_server =
     bindG (mapErrG (FmtErr ''failed to parse endpoint: '') (\<lambda>s. (ParseEndpoint (nsEndpoint s), s)))
       (\<lambda>(proto, addr0).
     bindG (if proto = ''unix'' then
              bindG (mapErrG (FmtErr ''failed to remove existing unix socket: '')
                (removeUnixSocket (''/'' @ addr0))) (\<lambda>_. retG (''/'' @ addr0))
            else retG addr0) (\<lambda>addr.
     mapErrG (FmtErr (''failed to listen on '' @ proto @ ''://'' @ addr @ '': ''))
       (callG (net_Listen proto addr))))"

section \<open>The methods\<close>

text \<open>The goroutine that \<^verbatim>\<open>Start\<close> starts: \<^verbatim>\<open>Serve\<close>, then the deferred \<^verbatim>\<open>Done\<close>.\<close>

definition serveGoroutine :: "instr list" where
  "serveGoroutine = [Serve, WgDone]"

definition Start :: "('g process, unit) go" where
  "Start =
     bindG (mapErrG (FmtErr ''failed to create listener: '') createListener_server) (\<lambda>h.
     \<lambda>s. (Ok (), s\<lparr>nsListener := Some h, nsWg := nsWg s + 1, pcThreads := pcThreads s @ [serveGoroutine]\<rparr>))"

definition Stop :: "'g process \<Rightarrow> instr list" where
  "Stop s = (if nsServer s \<noteq> None then [GracefulStop, WgWait, CloseListener] else [])"

definition ForceStop :: "'g process \<Rightarrow> instr list" where
  "ForceStop s = (if nsServer s \<noteq> None then [StopGrpc, CloseListener] else [])"

definition Wait :: "instr list" where
  "Wait = [WgWait, CloseListener]"

definition closeListener :: "'g process \<Rightarrow> 'g process" where
  "closeListener s =
     (if nsOnce s then s
      else case nsListener s of
          None \<Rightarrow> s\<lparr>nsOnce := True\<rparr>
        | Some h \<Rightarrow> (case closeHandle h s of
            (Inl e, s') \<Rightarrow> logError e ''failed to close listener'' (s'\<lparr>nsOnce := True\<rparr>)
          | (Inr _, s') \<Rightarrow> s'\<lparr>nsOnce := True\<rparr>))"

text \<open>One instruction: it blocks, it crashes the process, or it moves on to a new state with the
  instructions that take its place.\<close>

datatype 'g move = Blocked | Crash string | Move "'g process" "instr list"

definition withServer :: "'g process \<Rightarrow> ('g \<Rightarrow> 'g move) \<Rightarrow> 'g move" where
  "withServer s k = (case nsServer s of None \<Rightarrow> Crash ''nil pointer dereference'' | Some g \<Rightarrow> k g)"

definition serveReturns :: "('g, 'v) grpc \<Rightarrow> nat \<Rightarrow> 'g process \<Rightarrow> 'g \<Rightarrow> 'g move" where
  "serveReturns G h s g = (case gServeReturns G h g of
     None \<Rightarrow> Blocked
   | Some (err, g', closed) \<Rightarrow>
       let s' = closeAll closed (s\<lparr>nsServer := Some g'\<rparr>)
       in Move (case err of None \<Rightarrow> s' | Some e \<Rightarrow> logError e ''failed to serve gRPC'' s') [])"

fun exec :: "('g, 'v) grpc \<Rightarrow> instr \<Rightarrow> 'g process \<Rightarrow> 'g move" where
  "exec G AwaitCtx s = (if pcDone s then Move s [] else Blocked)"
| "exec G CallStop s = Move s (Stop s)"
| "exec G CallForceStop s = Move s (ForceStop s)"
| "exec G CallWait s = Move s Wait"
| "exec G GracefulStop s = withServer s (\<lambda>g. case gGraceful G g of
     (g', closed) \<Rightarrow> Move (closeAll closed (s\<lparr>nsServer := Some g'\<rparr>)) [AwaitGraceful])"
| "exec G AwaitGraceful s = withServer s (\<lambda>g. if gGracefulReturns G g then Move s [] else Blocked)"
| "exec G StopGrpc s = withServer s (\<lambda>g. case gStop G g of
     (g', closed) \<Rightarrow> Move (closeAll closed (s\<lparr>nsServer := Some g'\<rparr>)) [])"
| "exec G WgWait s = (if nsWg s = 0 then Move s [] else Blocked)"
| "exec G WgDone s =
     (if nsWg s = 0 then Crash ''sync: negative WaitGroup counter'' else Move (s\<lparr>nsWg := nsWg s - 1\<rparr>) [])"
| "exec G CloseListener s = Move (closeListener s) []"
| "exec G Serve s = withServer s (\<lambda>g. case nsListener s of
     None \<Rightarrow> Crash ''nil pointer dereference''
   | Some h \<Rightarrow> Move (s\<lparr>nsServer := Some (gServe G h g)\<rparr>) [AwaitServe h])"
| "exec G (AwaitServe h) s = withServer s (serveReturns G h s)"
| "exec G (Spawn p) s = Move (s\<lparr>pcThreads := pcThreads s @ [p]\<rparr>) []"

section \<open>Interleaving\<close>

inductive threadStep :: "('g, 'v) grpc \<Rightarrow> 'g process \<Rightarrow> 'g process \<Rightarrow> bool" for G where
  threadStep: "i < length (pcThreads s) \<Longrightarrow> pcThreads s ! i = ins # p \<Longrightarrow> exec G ins s = Move s' q
    \<Longrightarrow> threadStep G s (s'\<lparr>pcThreads := (pcThreads s')[i := q @ p]\<rparr>)"

inductive step :: "('g, 'v) grpc \<Rightarrow> 'g process \<Rightarrow> 'g process \<Rightarrow> bool" for G where
  goroutine: "threadStep G s s' \<Longrightarrow> step G s s'"
| library: "nsServer s = Some g \<Longrightarrow> gInternal G g g' \<Longrightarrow> step G s (s\<lparr>nsServer := Some g'\<rparr>)"
| cancelled: "\<not> pcDone s \<Longrightarrow> step G s (s\<lparr>pcDone := True\<rparr>)"

inductive_cases threadStepE: "threadStep G s t"
inductive_cases stepE: "step G s t"

text \<open>A goroutine is about to crash the process.\<close>

definition crashes :: "('g, 'v) grpc \<Rightarrow> 'g process \<Rightarrow> bool" where
  "crashes G s = list_ex (\<lambda>p. case p of [] \<Rightarrow> False | ins # _ \<Rightarrow>
     (case exec G ins s of Crash _ \<Rightarrow> True | _ \<Rightarrow> False)) (pcThreads s)"

end
