(* ===== verification/ServerSpec.thy ===== *)
theory ServerSpec
  imports Server
begin

text \<open>
  What the gRPC server of \<^verbatim>\<open>pkg/server/server.go\<close> guarantees under every interleaving of its
  goroutines: the wait group counts the goroutines that serve, nothing crashes, the listener is closed
  once the server has stopped, and a cancelled context brings every goroutine to its end.
\<close>

section \<open>What the gRPC library promises\<close>

text \<open>
  \<open>stopped g\<close>: \<^verbatim>\<open>Stop\<close> or \<^verbatim>\<open>GracefulStop\<close> was called; \<open>pending g\<close>: the calls whose handlers have not
  returned. \<^verbatim>\<open>Serve\<close> closes its listener when it returns. A stopped server accepts no call and its
  handlers return one after the other; \<^verbatim>\<open>Serve\<close> and \<^verbatim>\<open>GracefulStop\<close> may block until the last one has, and
  then they return.
\<close>

locale grpc_server =
  fixes G :: "('g, 'v) grpc" and stopped :: "'g \<Rightarrow> bool" and pending :: "'g \<Rightarrow> nat"
  assumes stops: "stopped (fst (gGraceful G g))" "stopped (fst (gStop G g))"
    and stays_stopped: "stopped g \<Longrightarrow> stopped (gServe G h g)"
      "stopped g \<Longrightarrow> gServeReturns G h g = Some (e, g', cs) \<Longrightarrow> stopped g'"
      "stopped g \<Longrightarrow> gInternal G g g' \<Longrightarrow> stopped g'"
    and serve_returns: "stopped g \<Longrightarrow> pending g = 0 \<Longrightarrow> gServeReturns G h g \<noteq> None"
    and serve_closes: "gServeReturns G h g = Some (e, g', cs) \<Longrightarrow> h \<in> set cs"
    and graceful_returns: "stopped g \<Longrightarrow> pending g = 0 \<Longrightarrow> gGracefulReturns G g"
    and drains: "stopped g \<Longrightarrow> gInternal G g g' \<Longrightarrow> pending g' < pending g"
      "stopped g \<Longrightarrow> 0 < pending g \<Longrightarrow> \<exists>g'. gInternal G g g'"

section \<open>Totals over the goroutines\<close>

definition total :: "(instr \<Rightarrow> nat) \<Rightarrow> instr list list \<Rightarrow> nat" where
  "total f ts = sum_list (map (\<lambda>p. sum_list (map f p)) ts)"

lemma total_simps [simp]:
  "total f [] = 0" "total f (p # ts) = sum_list (map f p) + total f ts"
  "total f (ts @ us) = total f ts + total f us"
  by (simp_all add: total_def)

lemma total_upd:
  "i < length ts \<Longrightarrow> total f (ts[i := p]) + sum_list (map f (ts ! i)) = total f ts + sum_list (map f p)"
  by (induction ts arbitrary: i) (auto split: nat.splits)

lemma total_move:
  assumes "i < length ts" "ts ! i = ins # p"
  shows "total f ((ts @ new)[i := q @ p]) + f ins = total f ts + total f new + sum_list (map f q)"
  using total_upd [of i "ts @ new" f "q @ p"] assms by (simp add: nth_append)

lemma total_0_iff: "total f ts = 0 \<longleftrightarrow> (\<forall>p\<in>set ts. sum_list (map f p) = 0)"
  by (induction ts) auto

text \<open>\<open>owed\<close>: the calls of \<^verbatim>\<open>Done\<close> that an instruction stands for. \<open>work\<close>: a bound on the number of
  instructions that executing it takes.\<close>

fun owed :: "instr \<Rightarrow> nat" where
  "owed WgDone = 1"
| "owed (Spawn p) = sum_list (map owed p)"
| "owed _ = 0"

fun work :: "instr \<Rightarrow> nat" where
  "work CallStop = 5"
| "work CallForceStop = 3"
| "work CallWait = 3"
| "work GracefulStop = 2"
| "work Serve = 2"
| "work (Spawn p) = Suc (sum_list (map work p))"
| "work _ = 1"

section \<open>One instruction\<close>

lemma closeHandle_sel [simp]:
  "nsServer (snd (closeHandle h s)) = nsServer s" "nsWg (snd (closeHandle h s)) = nsWg s"
  "nsListener (snd (closeHandle h s)) = nsListener s" "pcThreads (snd (closeHandle h s)) = pcThreads s"
  "pcDone (snd (closeHandle h s)) = pcDone s" "nsOnce (snd (closeHandle h s)) = nsOnce s"
  "pcLog (snd (closeHandle h s)) = pcLog s" "pcOpen (snd (closeHandle h s)) = (pcOpen s)(h := None)"
  by (auto simp: closeHandle_def split: option.splits)

lemma closeAll_sel [simp]:
  "nsServer (closeAll hs s) = nsServer s" "nsWg (closeAll hs s) = nsWg s"
  "nsListener (closeAll hs s) = nsListener s" "pcThreads (closeAll hs s) = pcThreads s"
  "pcDone (closeAll hs s) = pcDone s" "nsOnce (closeAll hs s) = nsOnce s" "pcLog (closeAll hs s) = pcLog s"
  "pcOpen (closeAll hs s) = (\<lambda>h. if h \<in> set hs then None else pcOpen s h)"
  unfolding closeAll_def by (induction hs arbitrary: s) (auto simp: fun_eq_iff)

lemma logError_sel [simp]:
  "nsServer (logError e m s) = nsServer s" "nsWg (logError e m s) = nsWg s"
  "nsListener (logError e m s) = nsListener s" "pcThreads (logError e m s) = pcThreads s"
  "pcDone (logError e m s) = pcDone s" "nsOnce (logError e m s) = nsOnce s"
  "pcOpen (logError e m s) = pcOpen s" "pcFiles (logError e m s) = pcFiles s"
  "pcLog (logError e m s) = pcLog s @ [(e, m)]"
  by (simp_all add: logError_def)

lemma closeListener_eq:
  "closeListener s = (if nsOnce s then s
     else case nsListener s of
         None \<Rightarrow> s\<lparr>nsOnce := True\<rparr>
       | Some h \<Rightarrow> if pcOpen s h = None
           then logError (NewErr ''use of closed network connection'') ''failed to close listener''
             (s\<lparr>nsOnce := True\<rparr>)
           else (snd (closeHandle h s))\<lparr>nsOnce := True\<rparr>)"
  by (auto simp: closeListener_def closeHandle_def split: option.splits)

lemma closeListener_sel [simp]:
  "nsServer (closeListener s) = nsServer s" "nsWg (closeListener s) = nsWg s"
  "nsListener (closeListener s) = nsListener s" "pcThreads (closeListener s) = pcThreads s"
  "pcDone (closeListener s) = pcDone s" "nsOnce (closeListener s)"
  by (auto simp: closeListener_eq split: option.splits)

lemma closeListener_closed: "pcOpen s h = None \<Longrightarrow> pcOpen (closeListener s) h = None"
  by (auto simp: closeListener_eq split: option.splits)

lemmas exec_defs = withServer_def serveReturns_def Stop_def ForceStop_def Wait_def Let_def
lemmas move_splits = if_splits option.splits prod.splits

lemma exec_frame:
  assumes "exec G ins s = Move s' q"
  shows "nsListener s' = nsListener s \<and> pcDone s' = pcDone s \<and> (nsServer s' = None \<longleftrightarrow> nsServer s = None)"
  using assms by (cases ins) (auto simp: exec_defs split: move_splits)

lemma exec_closed:
  assumes "exec G ins s = Move s' q" "pcOpen s h = None"
  shows "pcOpen s' h = None"
  using assms by (cases ins) (auto simp: exec_defs closeListener_closed split: move_splits)

lemma exec_totals_plain:
  assumes "exec G ins s = Move s' q" "\<forall>p. ins \<noteq> Spawn p"
  shows "pcThreads s' = pcThreads s \<and> sum_list (map owed q) + nsWg s = owed ins + nsWg s'
    \<and> nsWg s' \<le> nsWg s \<and> sum_list (map work q) < work ins"
  using assms by (cases ins) (auto simp: exec_defs split: move_splits)

lemma exec_totals:
  assumes "exec G ins s = Move s' q"
  obtains new where "pcThreads s' = pcThreads s @ new" "nsWg s' \<le> nsWg s"
    "total owed new + sum_list (map owed q) + nsWg s = owed ins + nsWg s'"
    "total work new + sum_list (map work q) < work ins" "\<forall>r\<in>set new. ins = Spawn r"
proof (cases "\<exists>p. ins = Spawn p")
  case True
  then obtain p where "ins = Spawn p" by blast
  with assms show thesis by (intro that [of "[p]"]) auto
next
  case False
  then show thesis using exec_totals_plain [OF assms] by (intro that [of "[]"]) auto
qed

section \<open>The invariant\<close>

text \<open>\<open>serveForms h\<close>: the goroutine that serves the listener \<open>h\<close>, before \<^verbatim>\<open>Serve\<close>, in it and after
  it.\<close>

definition serveForms :: "nat \<Rightarrow> instr list set" where
  "serveForms h = {[Serve, WgDone], [AwaitServe h, WgDone], [WgDone]}"

definition serverInv :: "nat \<Rightarrow> 'g process \<Rightarrow> bool" where
  "serverInv h s \<longleftrightarrow> nsServer s \<noteq> None \<and> nsListener s = Some h
     \<and> nsWg s = total owed (pcThreads s)
     \<and> (\<forall>p\<in>set (pcThreads s). sum_list (map owed p) \<noteq> 0 \<longrightarrow> p \<in> serveForms h)
     \<and> (pcOpen s h \<noteq> None \<longrightarrow> [Serve, WgDone] \<in> set (pcThreads s) \<or> [AwaitServe h, WgDone] \<in> set (pcThreads s))"

lemma serverInv_no_crash:
  assumes "serverInv h s"
  shows "\<not> crashes G s"
proof -
  have "exec G ins s \<noteq> Crash m" if "ins # p \<in> set (pcThreads s)" for ins p m
  proof (cases "ins = WgDone")
    case True
    then have "total owed (pcThreads s) \<noteq> 0" using that by (auto simp: total_0_iff intro!: bexI [of _ "WgDone # p"])
    with assms True show ?thesis by (simp add: serverInv_def)
  next
    case False
    with assms show ?thesis by (cases ins) (auto simp: serverInv_def exec_defs split: option.splits prod.splits)
  qed
  then show ?thesis by (auto simp: crashes_def list_ex_iff split: list.splits move.splits)
qed

lemma set_move:
  assumes "i < length ts" "ts ! i = ins # p" "r \<in> set ((ts @ new)[i := q @ p])"
  shows "r = q @ p \<or> r \<in> set ts \<or> r \<in> set new"
  using assms set_update_subset_insert [of "ts @ new" i "q @ p"] by auto

lemma serve_move:
  assumes "exec G ins s = Move s' q" "nsListener s = Some h" "ins # p \<in> serveForms h"
  shows "q @ p \<in> serveForms h \<or> q @ p = []"
  using assms by (auto simp: serveForms_def exec_defs split: move_splits)

lemma threadStep_frame:
  assumes "threadStep G s t"
  shows "nsListener t = nsListener s" "pcDone t = pcDone s" "nsServer t = None \<longleftrightarrow> nsServer s = None"
  using assms by (cases, simp, metis exec_frame)+

text \<open>Following one goroutine whose remaining instructions are in \<open>F\<close>: after a step some goroutine is
  still in \<open>F\<close>, or the goroutine left \<open>F\<close> and brought about \<open>Q\<close>.\<close>

lemma threadStep_track:
  assumes "threadStep G s t" "\<exists>p\<in>set (pcThreads s). p \<in> F"
    and moved: "\<And>ins p s' q. exec G ins s = Move s' q \<Longrightarrow> ins # p \<in> F
      \<Longrightarrow> q @ p \<in> F \<or> Q s' \<or> (\<exists>x\<in>F. pcThreads s' = pcThreads s @ [x])"
    and indep: "\<And>s' ts. Q s' \<Longrightarrow> Q (s'\<lparr>pcThreads := ts\<rparr>)"
  shows "(\<exists>p\<in>set (pcThreads t). p \<in> F) \<or> Q t"
proof -
  obtain i ins p s' q where i: "i < length (pcThreads s)" "pcThreads s ! i = ins # p"
      and ex: "exec G ins s = Move s' q" and t: "t = s'\<lparr>pcThreads := (pcThreads s')[i := q @ p]\<rparr>"
    using assms(1) by (elim threadStepE) blast
  obtain new where new: "pcThreads s' = pcThreads s @ new" using exec_totals [OF ex] by metis
  have ts: "pcThreads t = (pcThreads s @ new)[i := q @ p]" by (simp add: t new)
  obtain j where j: "j < length (pcThreads s)" "pcThreads s ! j \<in> F"
    using assms(2) by (metis in_set_conv_nth)
  show ?thesis
  proof (cases "j = i")
    case False
    then have "pcThreads t ! j \<in> F" "j < length (pcThreads t)" using j ts by (simp_all add: nth_append)
    then show ?thesis using nth_mem by blast
  next
    case True
    have "q @ p \<in> set (pcThreads t)" using i(1) by (simp add: ts set_update_memI)
    moreover have "x \<in> set (pcThreads t)" if "new = [x]" for x
      using i(1) that by (simp add: ts list_update_append)
    ultimately show ?thesis using moved [OF ex, of p] indep i(2) j(2) True new t by auto
  qed
qed

lemma threadStep_counts:
  assumes "threadStep G s t" "serverInv h s"
  shows "nsWg t = total owed (pcThreads t)" "total work (pcThreads t) < total work (pcThreads s)"
    "\<forall>p\<in>set (pcThreads t). sum_list (map owed p) \<noteq> 0 \<longrightarrow> p \<in> serveForms h"
proof -
  obtain i ins p s' q where i: "i < length (pcThreads s)" "pcThreads s ! i = ins # p"
      and ex: "exec G ins s = Move s' q" and t: "t = s'\<lparr>pcThreads := (pcThreads s')[i := q @ p]\<rparr>"
    using assms(1) by (elim threadStepE) blast
  obtain new where new: "pcThreads s' = pcThreads s @ new" "nsWg s' \<le> nsWg s"
      "total owed new + sum_list (map owed q) + nsWg s = owed ins + nsWg s'"
      "total work new + sum_list (map work q) < work ins" "\<forall>r\<in>set new. ins = Spawn r"
    using exec_totals [OF ex] by metis
  have inv: "nsWg s = total owed (pcThreads s)" "nsListener s = Some h"
    "\<forall>p\<in>set (pcThreads s). sum_list (map owed p) \<noteq> 0 \<longrightarrow> p \<in> serveForms h"
    using assms(2) by (auto simp: serverInv_def)
  have mem: "ins # p \<in> set (pcThreads s)" using i nth_mem by metis
  show "nsWg t = total owed (pcThreads t)"
    using total_move [OF i, of owed new q] new inv(1) by (simp add: t)
  show "total work (pcThreads t) < total work (pcThreads s)"
    using total_move [OF i, of work new q] new by (simp add: t)
  show "\<forall>p\<in>set (pcThreads t). sum_list (map owed p) \<noteq> 0 \<longrightarrow> p \<in> serveForms h"
  proof (intro ballI impI)
    fix r assume r: "r \<in> set (pcThreads t)" "sum_list (map owed r) \<noteq> 0"
    consider "r = q @ p" | "r \<in> set (pcThreads s)" | "r \<in> set new"
      using set_move [OF i, of r new q] r(1) new(1) t by auto
    then show "r \<in> serveForms h"
    proof cases
      case 1
      have "sum_list (map owed q) \<le> owed ins" using new(2,3) by linarith
      with 1 r(2) have "sum_list (map owed (ins # p)) \<noteq> 0"
        by (auto simp del: sum_list_eq_0_iff)
      with inv(3) mem have "ins # p \<in> serveForms h" by blast
      from serve_move [OF ex inv(2) this] show ?thesis using r(2) 1 by auto
    next
      case 2
      with inv(3) r(2) show ?thesis by blast
    next
      case 3
      with new(5) r(2) have "ins = Spawn r" "sum_list (map owed (ins # p)) \<noteq> 0" by auto
      with inv(3) mem show ?thesis by (auto simp: serveForms_def)
    qed
  qed
qed

context grpc_server
begin

lemma threadStep_open:
  assumes "threadStep G s t" "serverInv h s" "pcOpen t h \<noteq> None"
  shows "[Serve, WgDone] \<in> set (pcThreads t) \<or> [AwaitServe h, WgDone] \<in> set (pcThreads t)"
proof (cases "pcOpen s h = None")
  case True
  then have "pcOpen t h = None" using assms(1) exec_closed by (auto elim!: threadStepE)
  with assms(3) show ?thesis by simp
next
  case False
  let ?F = "{[Serve, WgDone], [AwaitServe h, WgDone]}"
  have "\<exists>p\<in>set (pcThreads s). p \<in> ?F" "nsListener s = Some h"
    using False assms(2) by (auto simp: serverInv_def)
  then have "(\<exists>p\<in>set (pcThreads t). p \<in> ?F) \<or> pcOpen t h = None"
    using serve_closes by (intro threadStep_track [OF assms(1)]) (auto simp: exec_defs split: move_splits)
  with assms(3) show ?thesis by auto
qed

lemma step_serverInv:
  assumes "step G s t" "serverInv h s"
  shows "serverInv h t"
  using assms(1)
proof cases
  case goroutine
  have "nsServer t \<noteq> None" "nsListener t = Some h"
    using threadStep_frame [OF goroutine] assms(2) by (auto simp: serverInv_def)
  with threadStep_counts [OF goroutine assms(2)] threadStep_open [OF goroutine assms(2)] show ?thesis
    by (simp add: serverInv_def)
qed (use assms(2) in \<open>auto simp: serverInv_def\<close>)

lemma steps_serverInv: "(step G)\<^sup>*\<^sup>* s t \<Longrightarrow> serverInv h s \<Longrightarrow> serverInv h t"
  by (induction rule: rtranclp_induct) (auto intro: step_serverInv)

end

section \<open>Coming to an end\<close>

text \<open>\<open>stopperForms\<close>: a goroutine that stops the server as soon as the context is done, from the
  instruction that starts it to the one that stops the gRPC server.\<close>

definition stopperForms :: "instr list set" where
  "stopperForms = {[Spawn [AwaitCtx, CallStop], CallWait], [AwaitCtx, CallStop], [CallStop],
     [GracefulStop, WgWait, CloseListener]}"

definition allDone :: "'g process \<Rightarrow> bool" where
  "allDone s = list_all (\<lambda>p. p = []) (pcThreads s)"

text \<open>A run goes on as long as any step is possible. It is fair when the goroutines are not put off
  for ever: if some goroutine can move from some point on, one does move again and again.\<close>

definition fairRun :: "('g, 'v) grpc \<Rightarrow> (nat \<Rightarrow> 'g process) \<Rightarrow> bool" where
  "fairRun G \<sigma> \<longleftrightarrow>
     (\<forall>n. step G (\<sigma> n) (\<sigma> (Suc n)) \<or> (\<sigma> (Suc n) = \<sigma> n \<and> (\<nexists>t. step G (\<sigma> n) t)))
     \<and> ((\<exists>N. \<forall>n\<ge>N. \<exists>t. threadStep G (\<sigma> n) t) \<longrightarrow> (\<forall>N. \<exists>n\<ge>N. threadStep G (\<sigma> n) (\<sigma> (Suc n))))"

lemma threadStep_enabled:
  assumes "ins # p \<in> set (pcThreads s)" "exec G ins s = Move s' q"
  shows "\<exists>t. threadStep G s t"
  using assms threadStep [of _ s ins p G s' q] by (metis in_set_conv_nth)

context grpc_server
begin

definition stopInv :: "'g process \<Rightarrow> bool" where
  "stopInv s \<longleftrightarrow> (\<exists>g. nsServer s = Some g \<and> stopped g) \<or> (\<exists>p\<in>set (pcThreads s). p \<in> stopperForms)"

lemma graceful_stops: "gGraceful G g = (g', cs) \<Longrightarrow> stopped g'"
  using stops(1) [of g] by simp

lemma exec_stopped:
  assumes "exec G ins s = Move s' q" "nsServer s = Some g" "stopped g"
  shows "\<exists>g'. nsServer s' = Some g' \<and> stopped g'"
  using assms stops [of g] stays_stopped(1) [of g] stays_stopped(2) [of g]
  by (cases ins) (auto simp: exec_defs split: move_splits)

lemma threadStep_stopInv:
  assumes "threadStep G s t" "nsServer s \<noteq> None" "stopInv s"
  shows "stopInv t"
proof (cases "\<exists>g. nsServer s = Some g \<and> stopped g")
  case True
  then show ?thesis using assms(1) exec_stopped by (fastforce simp: stopInv_def elim!: threadStepE)
next
  case False
  then have "\<exists>p\<in>set (pcThreads s). p \<in> stopperForms" using assms(3) by (auto simp: stopInv_def)
  then have "(\<exists>p\<in>set (pcThreads t). p \<in> stopperForms) \<or> (\<exists>g. nsServer t = Some g \<and> stopped g)"
    using assms(2) graceful_stops
    by (intro threadStep_track [OF assms(1)]) (auto simp: stopperForms_def exec_defs split: move_splits)
  then show ?thesis by (auto simp: stopInv_def)
qed

lemma step_stopInv:
  assumes "step G s t" "nsServer s \<noteq> None" "stopInv s"
  shows "stopInv t"
  using assms(1)
proof cases
  case goroutine
  then show ?thesis using threadStep_stopInv assms by blast
qed (use assms stays_stopped(3) in \<open>auto simp: stopInv_def\<close>)

lemma blocked_why:
  assumes "exec G ins s = Blocked" "pcDone s" "nsServer s = Some g" "stopped g"
  shows "0 < pending g \<or> ins = WgWait \<and> nsWg s \<noteq> 0"
proof (cases "pending g = 0")
  case True
  then have "gGracefulReturns G g" "\<And>h. gServeReturns G h g \<noteq> None"
    using graceful_returns serve_returns assms(4) by blast+
  with assms show ?thesis
    by (cases ins) (auto simp: exec_defs split: move_splits, metis option.distinct(1))
qed simp

text \<open>Once the context is done, a goroutine can move, or the stopped gRPC server still has a call to
  finish.\<close>

lemma progress:
  assumes "serverInv h s" "stopInv s" "pcDone s" "\<not> allDone s"
  shows "(\<exists>t. threadStep G s t) \<or> (\<exists>g. nsServer s = Some g \<and> stopped g \<and> 0 < pending g)"
proof (rule ccontr)
  assume no: "\<not> ?thesis"
  have blocked: "exec G ins s = Blocked" if "ins # p \<in> set (pcThreads s)" for ins p
    using no threadStep_enabled [OF that, of G] serverInv_no_crash [OF assms(1), of G] that
    by (cases "exec G ins s") (auto simp: crashes_def list_ex_iff)
  obtain g where g: "nsServer s = Some g" using assms(1) by (auto simp: serverInv_def)
  have "stopped g"
  proof (rule ccontr)
    assume "\<not> stopped g"
    with assms(2) g obtain p where p: "p \<in> set (pcThreads s)" "p \<in> stopperForms"
      by (auto simp: stopInv_def)
    with blocked [of "hd p" "tl p"] assms(3) g show False
      by (auto simp: stopperForms_def exec_defs split: prod.splits)
  qed
  then have wait: "ins = WgWait \<and> nsWg s \<noteq> 0" if "ins # p \<in> set (pcThreads s)" for ins p
    using blocked_why [OF blocked [OF that] assms(3) g] no g by blast
  obtain p where "p \<in> set (pcThreads s)" "p \<noteq> []" using assms(4) by (auto simp: allDone_def list_all_iff)
  then have "nsWg s \<noteq> 0" using wait [of "hd p" "tl p"] by simp
  then obtain r where "r \<in> set (pcThreads s)" "r \<in> serveForms h"
    using assms(1) total_0_iff [of owed "pcThreads s"] unfolding serverInv_def by metis
  then show False using wait [of "hd r" "tl r"] by (auto simp: serveForms_def)
qed

lemma fairRun_inv:
  assumes "fairRun G \<sigma>" "serverInv h (\<sigma> 0)" "stopInv (\<sigma> 0)"
  shows "serverInv h (\<sigma> n) \<and> stopInv (\<sigma> n)"
proof (induction n)
  case (Suc n)
  then have "nsServer (\<sigma> n) \<noteq> None" by (simp add: serverInv_def)
  with Suc assms(1) step_serverInv step_stopInv show ?case by (metis fairRun_def)
qed (use assms in simp)

lemma fairRun_done:
  assumes "fairRun G \<sigma>" "pcDone (\<sigma> m)" "m \<le> n"
  shows "pcDone (\<sigma> n)"
  using assms(3)
proof (induction n rule: dec_induct)
  case (step n)
  from assms(1) have "Server.step G (\<sigma> n) (\<sigma> (Suc n)) \<or> \<sigma> (Suc n) = \<sigma> n" by (auto simp: fairRun_def)
  with step.IH show ?case by (auto elim!: stepE simp: threadStep_frame)
qed (rule assms(2))

text \<open>After some point the goroutines stand still, since every instruction uses up work.\<close>

lemma fairRun_standstill:
  assumes "fairRun G \<sigma>" "serverInv h (\<sigma> 0)" "stopInv (\<sigma> 0)"
  shows "\<exists>N. \<forall>n\<ge>N. \<not> threadStep G (\<sigma> n) (\<sigma> (Suc n))"
proof -
  let ?w = "\<lambda>n. total work (pcThreads (\<sigma> n))"
  have less: "threadStep G (\<sigma> n) (\<sigma> (Suc n)) \<Longrightarrow> ?w (Suc n) < ?w n" for n
    using threadStep_counts(2) fairRun_inv [OF assms] by blast
  have le: "?w (Suc n) \<le> ?w n" for n
    using assms(1) less [of n] by (force simp: fairRun_def elim!: stepE)
  obtain N where N: "\<forall>n. ?w N \<le> ?w n" using ex_has_least_nat [of "\<lambda>_. True" 0 ?w] by blast
  have "?w n = ?w N" if "N \<le> n" for n
    using that by (induction n rule: dec_induct) (use N le in \<open>force intro: le_antisym order_trans\<close>)+
  then show ?thesis using less by (metis le_SucI less_irrefl)
qed

lemma stopped_drains:
  assumes "fairRun G \<sigma>" "serverInv h (\<sigma> 0)" "stopInv (\<sigma> 0)" "pcDone (\<sigma> N)"
    and "\<forall>n\<ge>N. \<not> threadStep G (\<sigma> n) (\<sigma> (Suc n))" "\<forall>n. \<not> allDone (\<sigma> n)"
    and "N \<le> n" "nsServer (\<sigma> n) = Some g" "stopped g"
  shows False
  using assms(7-9)
proof (induction "pending g" arbitrary: n g rule: less_induct)
  case less
  have "pcDone (\<sigma> n)" using fairRun_done [OF assms(1,4) less.prems(1)] .
  then have "(\<exists>t. threadStep G (\<sigma> n) t) \<or> 0 < pending g"
    using progress [of h "\<sigma> n"] fairRun_inv [OF assms(1-3)] assms(6) less.prems(2) by auto
  then have "\<exists>t. step G (\<sigma> n) t"
    using drains(2) [OF less.prems(3)] less.prems(2) by (auto intro: step.intros)
  then have "step G (\<sigma> n) (\<sigma> (Suc n))" using assms(1) by (auto simp: fairRun_def)
  then obtain g' where "gInternal G g g'" "nsServer (\<sigma> (Suc n)) = Some g'"
    using \<open>pcDone (\<sigma> n)\<close> assms(5) less.prems(1,2) by (auto elim!: stepE)
  then show False
    using less.hyps [of g' "Suc n"] drains(1) [OF less.prems(3)] stays_stopped(3) [OF less.prems(3)] less.prems(1)
    by simp
qed

lemma fairRun_ends:
  assumes "fairRun G \<sigma>" "serverInv h (\<sigma> 0)" "stopInv (\<sigma> 0)" "pcDone (\<sigma> m)"
  shows "\<exists>n. allDone (\<sigma> n)"
proof (rule ccontr)
  assume no: "\<not> ?thesis"
  obtain N0 where "\<forall>n\<ge>N0. \<not> threadStep G (\<sigma> n) (\<sigma> (Suc n))"
    using fairRun_standstill [OF assms(1-3)] by blast
  then obtain N where N: "\<forall>n\<ge>N. \<not> threadStep G (\<sigma> n) (\<sigma> (Suc n))" "m \<le> N"
    by (meson le_trans nat_le_linear)
  have late: "pcDone (\<sigma> n)" if "N \<le> n" for n using fairRun_done [OF assms(1,4)] N(2) that by simp
  have "\<exists>t. threadStep G (\<sigma> n) t" if n: "N \<le> n" for n
  proof (rule ccontr)
    assume "\<not> ?thesis"
    then obtain g where "nsServer (\<sigma> n) = Some g" "stopped g"
      using progress [of h "\<sigma> n"] fairRun_inv [OF assms(1-3)] no late [OF n] by blast
    then show False using stopped_drains [OF assms(1-3) late [OF order_refl] N(1) _ n] no by blast
  qed
  then show False using assms(1) N(1) by (auto simp: fairRun_def) blast
qed

end

section \<open>The socket and the log\<close>

text \<open>\<open>socketInv h p F\<close>: the only listener is \<open>h\<close> on the path \<open>p\<close>; while it is open the files are
  \<open>F\<close>, and afterwards its socket is gone.\<close>

definition closedFiles :: "string option \<Rightarrow> fsys \<Rightarrow> fsys" where
  "closedFiles p F = (case p of None \<Rightarrow> F | Some path \<Rightarrow> snd (unlink path F))"

definition socketInv :: "nat \<Rightarrow> string option \<Rightarrow> fsys \<Rightarrow> 'g process \<Rightarrow> bool" where
  "socketInv h p F s \<longleftrightarrow> pcOpen s = [h \<mapsto> p] \<and> pcFiles s = F
     \<or> pcOpen s = Map.empty \<and> pcFiles s = closedFiles p F"

lemma closeHandle_socketInv: "socketInv h p F s \<Longrightarrow> socketInv h p F (snd (closeHandle h' s))"
  by (cases "h' = h") (auto simp: socketInv_def closeHandle_def closedFiles_def)

lemma closeAll_socketInv: "socketInv h p F s \<Longrightarrow> socketInv h p F (closeAll hs s)"
  unfolding closeAll_def by (induction hs arbitrary: s) (simp_all add: closeHandle_socketInv)

lemma socketInv_upd [simp]:
  "socketInv h p F (s\<lparr>nsServer := g\<rparr>) = socketInv h p F s" "socketInv h p F (s\<lparr>nsOnce := b\<rparr>) = socketInv h p F s"
  "socketInv h p F (s\<lparr>nsWg := n\<rparr>) = socketInv h p F s" "socketInv h p F (s\<lparr>pcThreads := ts\<rparr>) = socketInv h p F s"
  "socketInv h p F (s\<lparr>pcDone := b\<rparr>) = socketInv h p F s" "socketInv h p F (logError e m s) = socketInv h p F s"
  by (simp_all add: socketInv_def)

lemma exec_socketInv:
  assumes "exec G ins s = Move s' q" "socketInv h p F s"
  shows "socketInv h p F s'"
  using assms
  by (cases ins) (auto simp: exec_defs closeListener_eq closeAll_socketInv closeHandle_socketInv split: move_splits)

lemma step_socketInv: "step G s t \<Longrightarrow> socketInv h p F s \<Longrightarrow> socketInv h p F t"
  by (auto elim!: stepE threadStepE simp: exec_socketInv)

text \<open>\<open>orderly b p\<close>: the goroutine closes the listener only after waiting for the wait group, or when
  the group is known to be empty (\<open>b\<close>).\<close>

fun orderly :: "bool \<Rightarrow> instr list \<Rightarrow> bool" where
  "orderly b [] = True"
| "orderly b (CloseListener # p) = (b \<and> orderly b p)"
| "orderly b (WgWait # p) = orderly True p"
| "orderly b (CallForceStop # p) = False"
| "orderly b (StopGrpc # p) = False"
| "orderly b (Spawn r # p) = (orderly b r \<and> orderly b p)"
| "orderly b (_ # p) = orderly b p"

lemma orderly_mono: "orderly b p \<Longrightarrow> (b \<Longrightarrow> c) \<Longrightarrow> orderly c p"
  by (induction b p rule: orderly.induct) auto

definition closeLines :: "'g process \<Rightarrow> nat" where
  "closeLines s = length (filter (\<lambda>l. snd l = ''failed to close listener'') (pcLog s))"

definition logInv :: "'g process \<Rightarrow> bool" where
  "logInv s \<longleftrightarrow> closeLines s = of_bool (nsOnce s) \<and> (\<forall>p\<in>set (pcThreads s). orderly (nsWg s = 0) p)"

lemma serverInv_closed:
  assumes "serverInv h s" "nsWg s = 0"
  shows "pcOpen s h = None"
  using assms by (auto simp: serverInv_def total_0_iff)

lemma exec_closeLines:
  assumes "exec G ins s = Move s' q" "serverInv h s" "ins = CloseListener \<Longrightarrow> nsWg s = 0"
    and "closeLines s = of_bool (nsOnce s)"
  shows "closeLines s' = of_bool (nsOnce s')"
proof (cases "ins = CloseListener")
  case True
  then have "pcOpen s h = None" "nsListener s = Some h"
    using assms(2,3) serverInv_closed [OF assms(2)] by (simp_all add: serverInv_def)
  moreover have "s' = closeListener s" using assms(1) True by simp
  ultimately show ?thesis using assms(4) by (cases "nsOnce s") (simp_all add: closeListener_eq closeLines_def)
next
  case False
  with assms(1,4) show ?thesis by (cases ins) (auto simp: exec_defs closeLines_def split: move_splits)
qed

lemma exec_orderly:
  assumes "exec G ins s = Move s' q" "orderly (nsWg s = 0) (ins # p)"
  shows "orderly (nsWg s' = 0) (q @ p)"
proof -
  have "nsWg s' \<le> nsWg s" using exec_totals [OF assms(1)] by metis
  then have "orderly (nsWg s = 0) (q @ p) \<Longrightarrow> orderly (nsWg s' = 0) (q @ p)"
    using orderly_mono [of "nsWg s = 0" "q @ p" "nsWg s' = 0"] by simp
  then show ?thesis
    using assms by (cases ins) (auto simp: exec_defs split: move_splits elim: orderly_mono)
qed

lemma threadStep_logInv:
  assumes "threadStep G s t" "serverInv h s" "logInv s"
  shows "logInv t"
proof -
  obtain i ins p s' q where i: "i < length (pcThreads s)" "pcThreads s ! i = ins # p"
      and ex: "exec G ins s = Move s' q" and t: "t = s'\<lparr>pcThreads := (pcThreads s')[i := q @ p]\<rparr>"
    using assms(1) by (elim threadStepE) blast
  obtain new where new: "pcThreads s' = pcThreads s @ new" "nsWg s' \<le> nsWg s" "\<forall>r\<in>set new. ins = Spawn r"
    using exec_totals [OF ex] by metis
  have ord: "orderly (nsWg s = 0) r" if "r \<in> set (pcThreads s)" for r using assms(3) that by (simp add: logInv_def)
  then have head: "orderly (nsWg s = 0) (ins # p)" using i nth_mem by metis
  have "closeLines s' = of_bool (nsOnce s')"
    by (rule exec_closeLines [OF ex assms(2)]) (use head assms(3) in \<open>auto simp: logInv_def\<close>)
  moreover have "orderly (nsWg s' = 0) r" if r: "r \<in> set (pcThreads t)" for r
  proof -
    consider "r = q @ p" | "r \<in> set (pcThreads s)" | "ins = Spawn r"
      using set_move [OF i, of r new q] r new(1,3) t by auto
    then have "orderly (nsWg s' = 0) r \<or> orderly (nsWg s = 0) r"
      by cases (use exec_orderly [OF ex head] ord head in auto)
    then show ?thesis using new(2) by (auto elim: orderly_mono)
  qed
  ultimately show ?thesis by (simp add: logInv_def t closeLines_def)
qed

lemma step_logInv:
  assumes "step G s t" "serverInv h s" "logInv s"
  shows "logInv t"
  using assms(1)
proof cases
  case goroutine
  then show ?thesis using threadStep_logInv assms by blast
qed (use assms(3) in \<open>auto simp: logInv_def closeLines_def\<close>)

section \<open>Starting\<close>

lemma onProcessFiles_eq [go_inv]:
  "onProcessFiles m s = (r, t) \<longleftrightarrow> (\<exists>f. m (pcFiles s) = (r, f) \<and> t = s\<lparr>pcFiles := f\<rparr>)"
  by (auto simp: onProcessFiles_def split: prod.splits)

lemma net_Listen_Inr:
  assumes "net_Listen proto addr s = (Inr h, t)"
  shows "h = pcNext s \<and> (\<exists>p F. t = s\<lparr>pcFiles := F, pcOpen := (pcOpen s)(h \<mapsto> p), pcNext := Suc h\<rparr>)"
  using assms
  by (cases s) (auto simp: net_Listen_def openHandle_def split: if_splits prod.splits sum.splits option.splits)

lemma removeUnixSocket_frame: "removeUnixSocket addr s = (Ok (), t) \<Longrightarrow> \<exists>F. t = s\<lparr>pcFiles := F\<rparr>"
  by (auto simp: removeUnixSocket_def tryG_eq_Ok go_inv split: if_splits)

lemma createListener_server_Ok:
  assumes "createListener_server s = (Ok h, t)"
  shows "h = pcNext s \<and> (\<exists>p F. t = s\<lparr>pcFiles := F, pcOpen := (pcOpen s)(h \<mapsto> p), pcNext := Suc h\<rparr>)"
proof -
  obtain proto addr F where "net_Listen proto addr (s\<lparr>pcFiles := F\<rparr>) = (Inr h, t)"
    using assms
    by (cases s) (force simp: createListener_server_def go_inv split: if_splits dest!: removeUnixSocket_frame)
  from net_Listen_Inr [OF this] show ?thesis by auto
qed

lemma Start_Ok:
  assumes "Start s = (Ok (), t)"
  shows "\<exists>p F. t = s\<lparr>pcFiles := F, pcOpen := (pcOpen s)(pcNext s \<mapsto> p), pcNext := Suc (pcNext s),
    nsListener := Some (pcNext s), nsWg := nsWg s + 1, pcThreads := pcThreads s @ [serveGoroutine]\<rparr>"
  using assms by (fastforce simp: Start_def go_inv dest: createListener_server_Ok)

section \<open>Fair runs exist\<close>

lemma fairRun_from:
  assumes "(step G)\<^sup>*\<^sup>* s u" "\<nexists>t. step G u t"
  shows "\<exists>\<sigma> n. fairRun G \<sigma> \<and> \<sigma> 0 = s \<and> \<sigma> n = u"
  using assms(1)
proof (induction rule: converse_rtranclp_induct)
  case base
  have "fairRun G (\<lambda>_. u)" using assms(2) by (auto simp: fairRun_def intro: step.goroutine)
  then show ?case by auto
next
  case (step s s1)
  then obtain \<sigma> n where \<sigma>: "fairRun G \<sigma>" "\<sigma> 0 = s1" "\<sigma> n = u" by blast
  let ?\<tau> = "\<lambda>k. case k of 0 \<Rightarrow> s | Suc m \<Rightarrow> \<sigma> m"
  have run: "step G (?\<tau> k) (?\<tau> (Suc k)) \<or> (?\<tau> (Suc k) = ?\<tau> k \<and> (\<nexists>t. step G (?\<tau> k) t))" for k
    using \<sigma>(1,2) step.hyps(1) by (cases k) (auto simp: fairRun_def)
  have stuck: "\<sigma> m = u" if "n \<le> m" for m
    using that by (induction m rule: dec_induct) (use \<sigma> assms(2) in \<open>auto simp: fairRun_def\<close>)
  have "\<exists>k\<ge>N. \<nexists>t. threadStep G (?\<tau> k) t" for N
    using stuck [of "n + N"] assms(2) by (intro exI [of _ "Suc (n + N)"]) (auto intro: step.goroutine)
  with run have "fairRun G ?\<tau>" unfolding fairRun_def by blast
  with \<sigma>(3) show ?case by (intro exI [of _ ?\<tau>] exI [of _ "Suc n"]) auto
qed

context grpc_server
begin

lemma allDone_stuck:
  assumes "stopInv s" "pcDone s" "allDone s" "\<forall>g. nsServer s = Some g \<longrightarrow> pending g = 0"
  shows "\<nexists>t. step G s t"
proof -
  have nil: "\<forall>p\<in>set (pcThreads s). p = []" using assms(3) by (simp add: allDone_def list_all_iff)
  then have "[] \<in> stopperForms \<or> (\<exists>g. nsServer s = Some g \<and> stopped g)" using assms(1) by (auto simp: stopInv_def)
  then obtain g where "nsServer s = Some g" "stopped g" by (auto simp: stopperForms_def)
  with assms(2,4) nil drains(1) [of g] show ?thesis by (fastforce elim!: stepE threadStepE dest: nth_mem)
qed

lemma can_finish:
  assumes "serverInv h s" "stopInv s" "pcDone s"
  shows "\<exists>u. (step G)\<^sup>*\<^sup>* s u \<and> (\<nexists>t. step G u t)"
  using assms
proof (induction s rule: wf_induct_rule [OF wf_measures
    [of "[\<lambda>s. total work (pcThreads s), \<lambda>s. case nsServer s of Some g \<Rightarrow> pending g | None \<Rightarrow> 0]"]])
  case (1 s)
  have server: "nsServer s \<noteq> None" using 1(2) by (simp add: serverInv_def)
  have via: ?case if "step G s t" "(t, s) \<in> measures [\<lambda>s. total work (pcThreads s),
      \<lambda>s. case nsServer s of Some g \<Rightarrow> pending g | None \<Rightarrow> 0]" "pcDone t" for t
    using 1(1) [OF that(2) step_serverInv [OF that(1) 1(2)] step_stopInv [OF that(1) server 1(3)] that(3)] that(1)
    by (meson converse_rtranclp_into_rtranclp)
  show ?case
  proof (cases "\<exists>t. threadStep G s t")
    case True
    then obtain t where "threadStep G s t" by blast
    then show ?thesis
      using threadStep_counts(2) [OF _ 1(2), of G t] threadStep_frame(2) [of G s t] 1(4)
      by (intro via [of t]) (auto intro: step.goroutine)
  next
    case stuck: False
    obtain g where g: "nsServer s = Some g" using server by auto
    show ?thesis
    proof (cases "stopped g \<and> 0 < pending g")
      case True
      then obtain g' where "gInternal G g g'" using drains(2) by blast
      with True g 1(4) drains(1) [of g g'] show ?thesis
        by (intro via [of "s\<lparr>nsServer := Some g'\<rparr>"]) (auto intro: step.library)
    next
      case False
      with stuck progress [OF 1(2-4)] g have "allDone s" by auto
      moreover have "stopped g" using 1(3) \<open>allDone s\<close> g
        by (auto simp: stopInv_def allDone_def list_all_iff stopperForms_def)
      ultimately have "\<nexists>t. step G s t" using allDone_stuck [OF 1(3,4)] False g by auto
      then show ?thesis by blast
    qed
  qed
qed

end

end
