(* ===== verification/ServerProps.thy ===== *)
theory ServerProps
  imports ServerSpec
begin

text \<open>
  The properties of the gRPC server of \<^verbatim>\<open>pkg/server/server.go\<close>, with an in-memory gRPC library on
  which the laws of the library are shown to hold.
\<close>

section \<open>A gRPC server in memory\<close>

record 'v fakeGrpcServer =
  fgServices :: "'v csiService list"
  fgServing :: "nat list"
  fgStopped :: bool
  fgPending :: nat

definition fakeGrpc :: "('v fakeGrpcServer, 'v) grpc" where
  "fakeGrpc = \<lparr>
     gNew = (\<lambda>_. \<lparr>fgServices = [], fgServing = [], fgStopped = False, fgPending = 0\<rparr>),
     gRegister = (\<lambda>v g. g\<lparr>fgServices := fgServices g @ [v]\<rparr>),
     gServe = (\<lambda>h g. g\<lparr>fgServing := h # fgServing g\<rparr>),
     gServeReturns = (\<lambda>h g. if fgStopped g \<and> fgPending g = 0
       then Some (None, g\<lparr>fgServing := remove1 h (fgServing g)\<rparr>, [h]) else None),
     gGraceful = (\<lambda>g. (g\<lparr>fgStopped := True\<rparr>, [])),
     gGracefulReturns = (\<lambda>g. fgStopped g \<and> fgPending g = 0),
     gStop = (\<lambda>g. (g\<lparr>fgStopped := True, fgPending := 0\<rparr>, fgServing g)),
     gInternal = (\<lambda>g g'. \<not> fgStopped g \<and> g' = g\<lparr>fgPending := Suc (fgPending g)\<rparr>
       \<or> fgPending g \<noteq> 0 \<and> g' = g\<lparr>fgPending := fgPending g - 1\<rparr>)\<rparr>"

interpretation fakeRpc: grpc_server fakeGrpc fgStopped fgPending
  by unfold_locales (auto simp: fakeGrpc_def split: if_splits)

text \<open>A process with a new server and the given goroutines.\<close>

definition newProcess :: "'g nbServer \<Rightarrow> fsys \<Rightarrow> (string \<Rightarrow> error option) \<Rightarrow> instr list list \<Rightarrow> 'g process" where
  "newProcess srv f tcp ts = nbServer.extend srv
     \<lparr>pcFiles = f, pcOpen = Map.empty, pcNext = 0, pcTcp = tcp, pcLog = [], pcDone = False, pcThreads = ts\<rparr>"

lemma newProcess_sel [simp]:
  "pcFiles (newProcess srv f tcp ts) = f" "pcOpen (newProcess srv f tcp ts) = Map.empty"
  "pcNext (newProcess srv f tcp ts) = 0" "pcTcp (newProcess srv f tcp ts) = tcp"
  "pcLog (newProcess srv f tcp ts) = []" "\<not> pcDone (newProcess srv f tcp ts)"
  "pcThreads (newProcess srv f tcp ts) = ts" "nsServer (newProcess srv f tcp ts) = nsServer srv"
  "nsWg (newProcess srv f tcp ts) = nsWg srv" "nsListener (newProcess srv f tcp ts) = nsListener srv"
  "nsOnce (newProcess srv f tcp ts) = nsOnce srv" "nsEndpoint (newProcess srv f tcp ts) = nsEndpoint srv"
  by (simp_all add: newProcess_def nbServer.extend_def)

lemma NewNonBlockingServer_sel [simp]:
  "nsServer (NewNonBlockingServer G ep []) = Some (gNew G [UnaryInterceptorLogGRPC])" "nsEndpoint (NewNonBlockingServer G ep []) = ep"
  "nsWg (NewNonBlockingServer G ep []) = 0" "\<not> nsOnce (NewNonBlockingServer G ep [])"
  by (simp_all add: NewNonBlockingServer_def Let_def)

section \<open>Listening on a Unix socket\<close>

lemma removeUnixSocket_plain:
  assumes "list_all good_comp cs" "good_comp c" "dir_chain (tree (pcFiles s)) cs"
    "fault (pcFiles s) SysRemove (cs @ [c]) = None"
  shows "removeUnixSocket (abs_path (cs @ [c])) s =
    (if tree (pcFiles s) (cs @ [c]) \<noteq> None \<and> cs @ [c] \<in> set (mounts (pcFiles s))
     then (Err (OsErr EBUSY (abs_path (cs @ [c]))), s)
     else if tree (pcFiles s) (cs @ [c]) = Some Dir \<and> (\<exists>q. below (cs @ [c]) q \<and> tree (pcFiles s) q \<noteq> None)
     then (Err (OsErr ENOTEMPTY (abs_path (cs @ [c]))), s)
     else (Ok (), s\<lparr>pcFiles := (pcFiles s)\<lparr>tree := (tree (pcFiles s))(cs @ [c] := None)\<rparr>\<rparr>))"
proof -
  have "tree (pcFiles s) (cs @ [c]) = None \<Longrightarrow> (tree (pcFiles s))(cs @ [c] := None) = tree (pcFiles s)" by auto
  then show ?thesis
    using os_Remove_plain [OF assms(1,3,2,4)]
    by (auto simp: removeUnixSocket_def tryG_def onProcessFiles_def callG_def IsNotExist_def)
qed

lemma createListener_server_plain:
  assumes "nsEndpoint s = ''unix:/'' @ abs_path (cs @ [c])"
    and "list_all good_comp cs" "good_comp c" "dir_chain (tree (pcFiles s)) cs"
    and "length (abs_path (cs @ [c])) < 108" "\<forall>sc. fault (pcFiles s) sc (cs @ [c]) = None"
  shows "createListener_server s =
    (if tree (pcFiles s) (cs @ [c]) \<noteq> None \<and> cs @ [c] \<in> set (mounts (pcFiles s))
     then (Err (FmtErr ''failed to remove existing unix socket: '' (OsErr EBUSY (abs_path (cs @ [c])))), s)
     else if tree (pcFiles s) (cs @ [c]) = Some Dir \<and> (\<exists>q. below (cs @ [c]) q \<and> tree (pcFiles s) q \<noteq> None)
     then (Err (FmtErr ''failed to remove existing unix socket: '' (OsErr ENOTEMPTY (abs_path (cs @ [c])))), s)
     else (Ok (pcNext s), s\<lparr>pcFiles := set_entry (cs @ [c]) Socket (pcFiles s),
             pcOpen := (pcOpen s)(pcNext s \<mapsto> Some (abs_path (cs @ [c]))), pcNext := pcNext s + 1\<rparr>))"
proof -
  let ?p = "cs @ [c]"
  let ?f = "(pcFiles s)\<lparr>tree := (tree (pcFiles s))(?p := None)\<rparr>"
  obtain addr where addr: "abs_path ?p = ''/'' @ addr" "addr \<noteq> ''''"
    using assms(3) by (cases cs) (auto simp: good_comp_def abs_path_simps)
  have parse: "ParseEndpoint (nsEndpoint s) = Ok (''unix'', addr)"
    using ParseEndpoint_scheme [of "''unix''" addr] addr assms(1) by (simp add: lower_byte_def)
  have "dir_chain (tree ?f) cs" using assms(4) by (auto simp: dir_chain_iff entry_at_def prefix_def)
  then have bind: "bindUnix (abs_path ?p) ?f = (Inr (), set_entry ?p Socket (pcFiles s))"
    using bindUnix_plain [of cs ?f c] assms by (simp add: set_entry_def)
  show ?thesis
    using removeUnixSocket_plain [OF assms(2-4)] assms(6) bind
    unfolding addr(1) by (auto simp: createListener_server_def parse bindG_def mapErrG_def callG_def
        net_Listen_def openHandle_def)
qed

lemma Start_plain:
  assumes "nsEndpoint s = ''unix:/'' @ abs_path (cs @ [c])"
    and "list_all good_comp cs" "good_comp c" "dir_chain (tree (pcFiles s)) cs"
    and "length (abs_path (cs @ [c])) < 108" "\<forall>sc. fault (pcFiles s) sc (cs @ [c]) = None"
    and "\<not> (tree (pcFiles s) (cs @ [c]) = Some Dir \<and> (\<exists>q. below (cs @ [c]) q \<and> tree (pcFiles s) q \<noteq> None))"
    and "cs @ [c] \<notin> set (mounts (pcFiles s))"
  shows "Start s = (Ok (), s\<lparr>pcFiles := set_entry (cs @ [c]) Socket (pcFiles s),
    pcOpen := (pcOpen s)(pcNext s \<mapsto> Some (abs_path (cs @ [c]))), pcNext := pcNext s + 1,
    nsListener := Some (pcNext s), nsWg := nsWg s + 1, pcThreads := pcThreads s @ [serveGoroutine]\<rparr>)"
  using createListener_server_plain [OF assms(1-6)] assms(7,8)
  by (simp add: Start_def bindG_def mapErrG_def)

text \<open>C23. Listening on a Unix endpoint replaces what an earlier process left at the path: whatever
  entry is there, a stale socket, a file or an empty directory, is removed and the new socket takes its
  place, open under a new handle. Only a mount point or a directory that is not empty stops it, with
  nothing changed.\<close>

theorem createListener_server_unix:
  assumes "nsEndpoint s = ''unix:/'' @ abs_path (cs @ [c])"
    and "list_all good_comp cs" "good_comp c" "dir_chain (tree (pcFiles s)) cs"
    and "length (abs_path (cs @ [c])) < 108" "\<forall>sc. fault (pcFiles s) sc (cs @ [c]) = None"
  shows "createListener_server s =
    (if tree (pcFiles s) (cs @ [c]) \<noteq> None \<and> cs @ [c] \<in> set (mounts (pcFiles s))
     then (Err (FmtErr ''failed to remove existing unix socket: '' (OsErr EBUSY (abs_path (cs @ [c])))), s)
     else if tree (pcFiles s) (cs @ [c]) = Some Dir \<and> (\<exists>q. below (cs @ [c]) q \<and> tree (pcFiles s) q \<noteq> None)
     then (Err (FmtErr ''failed to remove existing unix socket: '' (OsErr ENOTEMPTY (abs_path (cs @ [c])))), s)
     else (Ok (pcNext s), s\<lparr>pcFiles := set_entry (cs @ [c]) Socket (pcFiles s),
             pcOpen := (pcOpen s)(pcNext s \<mapsto> Some (abs_path (cs @ [c]))), pcNext := pcNext s + 1\<rparr>))"
  by (rule createListener_server_plain [OF assms])

text \<open>The parser accepts a scheme in any case, the network only in lower case: an endpoint such as
  \<^verbatim>\<open>UNIX://tmp/csi.sock\<close> passes \<^verbatim>\<open>ParseEndpoint\<close>, keeps its leading slash off, and is refused by
  \<^verbatim>\<open>net.Listen\<close>, with nothing changed.\<close>

theorem mixed_case_endpoint_refused:
  assumes "ParseEndpoint (nsEndpoint s) = Ok (proto, addr)" "proto \<notin> {''unix'', ''tcp''}"
  shows "Start s = (Err (FmtErr ''failed to create listener: ''
    (FmtErr (''failed to listen on '' @ proto @ ''://'' @ addr @ '': '')
      (NewErr (''listen '' @ proto @ '': unknown network '' @ proto)))), s)"
  using assms by (simp add: Start_def createListener_server_def net_Listen_def bindG_def mapErrG_def callG_def)

definition tmpFiles :: fsys where
  "tmpFiles = \<lparr>tree = [[''tmp''] \<mapsto> Dir, [''tmp'', ''csi.sock''] \<mapsto> Socket], cwd = [], mounts = [], fault = (\<lambda>_ _. None)\<rparr>"

definition exampleServer :: "string \<Rightarrow> instr list list \<Rightarrow> unit fakeGrpcServer process" where
  "exampleServer ep ts = newProcess (NewNonBlockingServer fakeGrpc ep []) tmpFiles (\<lambda>_. None) ts"

theorem createListener_server_unix_witness:
  "tree (pcFiles (exampleServer ''unix://tmp/csi.sock'' [])) [''tmp'', ''csi.sock''] = Some Socket
   \<and> fst (createListener_server (exampleServer ''unix://tmp/csi.sock'' [])) = Ok 0
   \<and> pcOpen (snd (createListener_server (exampleServer ''unix://tmp/csi.sock'' [])))
       = [0 \<mapsto> Some ''/tmp/csi.sock'']"
proof -
  let ?s = "exampleServer ''unix://tmp/csi.sock'' []"
  have "createListener_server ?s = (Ok (pcNext ?s), ?s\<lparr>pcFiles := set_entry ([''tmp''] @ [''csi.sock'']) Socket (pcFiles ?s),
      pcOpen := (pcOpen ?s)(pcNext ?s \<mapsto> Some (abs_path ([''tmp''] @ [''csi.sock'']))), pcNext := pcNext ?s + 1\<rparr>)"
    by (subst createListener_server_unix [where cs = "[''tmp'']" and c = "''csi.sock''"])
      (simp_all add: exampleServer_def tmpFiles_def abs_path_simps good_comp_def dir_chain_iff prefix_Cons entry_at_def)
  then show ?thesis by (simp add: exampleServer_def tmpFiles_def abs_path_simps)
qed

theorem mixed_case_endpoint_refused_witness:
  "ParseEndpoint ''UNIX://tmp/csi.sock'' = Ok (''UNIX'', ''tmp/csi.sock'')
   \<and> Start (exampleServer ''UNIX://tmp/csi.sock'' []) = (Err (FmtErr ''failed to create listener: ''
      (FmtErr ''failed to listen on UNIX://tmp/csi.sock: '' (NewErr ''listen UNIX: unknown network UNIX''))),
      exampleServer ''UNIX://tmp/csi.sock'' [])"
proof -
  have "ParseEndpoint ''UNIX://tmp/csi.sock'' = Ok (''UNIX'', ''tmp/csi.sock'')"
    using ParseEndpoint_scheme [of "''UNIX''" "''tmp/csi.sock''"] by (simp add: lower_byte_def char_of_def bit_0)
  moreover from this have "ParseEndpoint (nsEndpoint (exampleServer ''UNIX://tmp/csi.sock'' []))
      = Ok (''UNIX'', ''tmp/csi.sock'')"
    by (simp add: exampleServer_def)
  from mixed_case_endpoint_refused [OF this] have "Start (exampleServer ''UNIX://tmp/csi.sock'' [])
      = (Err (FmtErr ''failed to create listener: ''
      (FmtErr ''failed to listen on UNIX://tmp/csi.sock: '' (NewErr ''listen UNIX: unknown network UNIX''))),
      exampleServer ''UNIX://tmp/csi.sock'' [])"
    by simp
  ultimately show ?thesis by blast
qed

section \<open>Safety\<close>

text \<open>A goroutine of a client of the server: calls of its methods, when the context is done or before.\<close>

definition clientProgram :: "instr list \<Rightarrow> bool" where
  "clientProgram p = list_all (\<lambda>i. i \<in> {AwaitCtx, CallStop, CallForceStop, CallWait}) p"

lemma clientProgram_owed: "clientProgram p \<Longrightarrow> sum_list (map owed p) = 0"
  by (induction p) (auto simp: clientProgram_def)

lemma Start_serverInv:
  assumes "Start s = (Ok (), t)" "nsServer s \<noteq> None" "nsWg s = 0"
    and "\<forall>p\<in>set (pcThreads s). sum_list (map owed p) = 0"
  shows "serverInv (pcNext s) t"
proof -
  have "total owed (pcThreads s) = 0" using assms(4) by (simp add: total_0_iff)
  with Start_Ok [OF assms(1)] assms(2-4) show ?thesis
    by (auto simp: serverInv_def serveGoroutine_def serveForms_def)
qed

lemma serving_count:
  assumes "\<forall>p\<in>set ts. sum_list (map owed p) \<noteq> 0 \<longrightarrow> p \<in> serveForms h"
  shows "total owed ts = length (filter (\<lambda>p. p \<in> serveForms h) ts)"
  using assms by (induction ts) (auto simp: serveForms_def)

text \<open>C15. Under every interleaving of the goroutine that serves, of any goroutines that call \<^verbatim>\<open>Stop\<close>,
  \<^verbatim>\<open>ForceStop\<close> and \<^verbatim>\<open>Wait\<close>, of the calls that arrive and of the cancellation of the context, a started
  server never crashes, its wait group counts exactly the goroutines that still serve its listener, and
  once the count is zero, which is when \<^verbatim>\<open>Wait\<close> and \<^verbatim>\<open>Stop\<close> go on, the listener is closed.\<close>

theorem server_invariant:
  assumes "grpc_server G stopped pending" "Start s = (Ok (), t)" "nsServer s \<noteq> None" "nsWg s = 0"
    and "list_all clientProgram (pcThreads s)" "(step G)\<^sup>*\<^sup>* t u"
  shows "\<not> crashes G u
     \<and> nsWg u = length (filter (\<lambda>p. p \<in> serveForms (pcNext s)) (pcThreads u))
     \<and> (nsWg u = 0 \<longrightarrow> pcOpen u (pcNext s) = None)"
proof -
  have "serverInv (pcNext s) t"
    using Start_serverInv [OF assms(2-4)] assms(5) clientProgram_owed by (auto simp: list_all_iff)
  then have inv: "serverInv (pcNext s) u" using grpc_server.steps_serverInv [OF assms(1,6)] by blast
  then show ?thesis
    using serverInv_no_crash [OF inv] serverInv_closed [OF inv] serving_count [of "pcThreads u" "pcNext s"]
    by (simp add: serverInv_def)
qed

text \<open>A server on a TCP endpoint starts.\<close>

lemma exampleServer_starts:
  obtains t where "Start (exampleServer ''tcp://:50051'' ts) = (Ok (), t)"
    "pcThreads t = ts @ [serveGoroutine]" "nsServer t = Some (gNew fakeGrpc [UnaryInterceptorLogGRPC])"
proof -
  let ?s = "exampleServer ''tcp://:50051'' ts"
  have "ParseEndpoint (nsEndpoint ?s) = Ok (''tcp'', '':50051'')"
    using ParseEndpoint_scheme [of "''tcp''" "'':50051''"] by (simp add: lower_byte_def exampleServer_def)
  then obtain t where t: "Start ?s = (Ok (), t)"
    by (auto simp: Start_def createListener_server_def net_Listen_def openHandle_def bindG_def mapErrG_def
        callG_def exampleServer_def)
  with Start_Ok [OF t] show thesis by (intro that [of t]) (auto simp: exampleServer_def)
qed

lemma exampleServer_sel [simp]:
  "nsServer (exampleServer ep ts) = Some (gNew fakeGrpc [UnaryInterceptorLogGRPC])" "nsWg (exampleServer ep ts) = 0"
  "pcThreads (exampleServer ep ts) = ts" "pcNext (exampleServer ep ts) = 0"
  by (simp_all add: exampleServer_def)

theorem server_invariant_witness:
  "\<exists>t u. Start (exampleServer ''tcp://:50051'' [[CallStop], [CallForceStop], [CallWait]]) = (Ok (), t)
     \<and> step fakeGrpc t u \<and> pcThreads u ! 0 = [GracefulStop, WgWait, CloseListener]
     \<and> \<not> crashes fakeGrpc u \<and> nsWg u = 1"
proof -
  let ?s = "exampleServer ''tcp://:50051'' [[CallStop], [CallForceStop], [CallWait]]"
  obtain t where t: "Start ?s = (Ok (), t)"
      "pcThreads t = [[CallStop], [CallForceStop], [CallWait]] @ [serveGoroutine]" "nsServer t \<noteq> None"
    using exampleServer_starts [of "[[CallStop], [CallForceStop], [CallWait]]"] by (metis option.distinct(1))
  let ?u = "t\<lparr>pcThreads := (pcThreads t)[0 := Stop t @ []]\<rparr>"
  have "threadStep fakeGrpc t ?u"
    by (rule threadStep [of 0 t CallStop]) (simp_all add: t)
  then have st: "step fakeGrpc t ?u" by (rule step.goroutine)
  have "\<not> crashes fakeGrpc ?u \<and> nsWg ?u = length (filter (\<lambda>p. p \<in> serveForms (pcNext ?s)) (pcThreads ?u))
     \<and> (nsWg ?u = 0 \<longrightarrow> pcOpen ?u (pcNext ?s) = None)"
    by (rule server_invariant [OF fakeRpc.grpc_server_axioms t(1)])
      (use st in \<open>auto simp: clientProgram_def\<close>)
  then show ?thesis
    using t st by (intro exI [of _ t] exI [of _ ?u]) (simp add: Stop_def serveForms_def serveGoroutine_def)
qed

section \<open>Termination\<close>

context grpc_server
begin

definition isStopped :: "'g process \<Rightarrow> bool" where
  "isStopped s \<longleftrightarrow> (\<exists>g. nsServer s = Some g \<and> stopped g)"

lemma step_isStopped:
  assumes "step G s t" "isStopped s"
  shows "isStopped t"
  using assms(1)
proof cases
  case goroutine
  then show ?thesis using assms(2) exec_stopped by (fastforce simp: isStopped_def elim!: threadStepE)
qed (use assms(2) stays_stopped(3) in \<open>auto simp: isStopped_def\<close>)

lemma step_decreases:
  assumes "step G s t" "serverInv h s" "isStopped s"
  shows "(t, s) \<in> measures [\<lambda>s. total work (pcThreads s),
    \<lambda>s. case nsServer s of Some g \<Rightarrow> pending g | None \<Rightarrow> 0, \<lambda>s. of_bool (\<not> pcDone s)]"
  using assms(1)
proof cases
  case goroutine
  then show ?thesis using threadStep_counts(2) [OF _ assms(2)] by auto
qed (use assms(3) drains(1) in \<open>auto simp: isStopped_def\<close>)

lemma stopped_no_infinite_run:
  assumes "serverInv h u" "isStopped u"
  shows "\<not> (\<exists>\<sigma>. \<sigma> 0 = u \<and> (\<forall>n. step G (\<sigma> n) (\<sigma> (Suc n))))"
proof
  assume "\<exists>\<sigma>. \<sigma> 0 = u \<and> (\<forall>n. step G (\<sigma> n) (\<sigma> (Suc n)))"
  then obtain \<sigma> where \<sigma>: "\<sigma> 0 = u" "\<And>n. step G (\<sigma> n) (\<sigma> (Suc n))" by blast
  have "serverInv h (\<sigma> n) \<and> isStopped (\<sigma> n)" for n
    by (induction n) (use assms \<sigma> step_serverInv step_isStopped in blast)+
  then have "(\<sigma> (Suc n), \<sigma> n) \<in> measures [\<lambda>s. total work (pcThreads s),
      \<lambda>s. case nsServer s of Some g \<Rightarrow> pending g | None \<Rightarrow> 0, \<lambda>s. of_bool (\<not> pcDone s)]" for n
    using step_decreases \<sigma>(2) by blast
  then show False using wf_measures wf_iff_no_infinite_down_chain by metis
qed

lemma stuck_allDone:
  assumes "serverInv h s" "isStopped s" "\<nexists>t. step G s t"
  shows "allDone s"
proof (rule ccontr)
  assume "\<not> allDone s"
  have "pcDone s" using assms(3) step.cancelled by blast
  moreover have "stopInv s" using assms(2) by (simp add: stopInv_def isStopped_def)
  ultimately consider t where "threadStep G s t" | g where "nsServer s = Some g" "stopped g" "0 < pending g"
    using progress [OF assms(1)] \<open>\<not> allDone s\<close> by blast
  then show False using assms(3) drains(2) by cases (blast intro: step.intros)+
qed

lemma steps_isStopped: "(step G)\<^sup>*\<^sup>* s t \<Longrightarrow> isStopped s \<Longrightarrow> isStopped t"
  by (induction rule: rtranclp_induct) (auto intro: step_isStopped)

end

lemma Start_client_inv:
  assumes "Start s = (Ok (), t)" "nsServer s \<noteq> None" "nsWg s = 0" "list_all clientProgram (pcThreads s)"
  shows "serverInv (pcNext s) t"
  using Start_serverInv [OF assms(1-3)] assms(4) clientProgram_owed by (auto simp: list_all_iff)

text \<open>C16. A server that was told to stop, by \<^verbatim>\<open>Stop\<close> or by \<^verbatim>\<open>ForceStop\<close>, terminates without any
  assumption on the scheduler: no run goes on for ever, and a run that can go no further has brought
  every goroutine to its end.\<close>

theorem stopped_server_terminates:
  assumes "grpc_server G stopped pending" "Start s = (Ok (), t)" "nsServer s \<noteq> None" "nsWg s = 0"
    and "list_all clientProgram (pcThreads s)" "(step G)\<^sup>*\<^sup>* t u" "nsServer u = Some g" "stopped g"
  shows "\<not> (\<exists>\<sigma>. \<sigma> 0 = u \<and> (\<forall>n. step G (\<sigma> n) (\<sigma> (Suc n))))
     \<and> ((step G)\<^sup>*\<^sup>* u v \<longrightarrow> (\<exists>w. step G v w) \<or> allDone v)"
proof -
  have inv: "serverInv (pcNext s) u"
    by (rule grpc_server.steps_serverInv [OF assms(1,6) Start_client_inv [OF assms(2-5)]])
  have stop: "grpc_server.isStopped stopped u"
    using assms(7,8) by (simp add: grpc_server.isStopped_def [OF assms(1)])
  show ?thesis
    using grpc_server.stopped_no_infinite_run [OF assms(1) inv stop]
      grpc_server.stuck_allDone [OF assms(1)] grpc_server.steps_serverInv [OF assms(1) _ inv]
      grpc_server.steps_isStopped [OF assms(1) _ stop] by blast
qed

text \<open>Two instructions of a goroutine that stops the example server by force.\<close>

lemma exampleServer_forced:
  obtains t t1 u where "Start (exampleServer ''tcp://:50051'' [[CallForceStop]]) = (Ok (), t)"
    "threadStep fakeGrpc t t1" "threadStep fakeGrpc t1 u" "\<exists>g. nsServer u = Some g \<and> fgStopped g"
proof -
  obtain t where t: "Start (exampleServer ''tcp://:50051'' [[CallForceStop]]) = (Ok (), t)"
      "pcThreads t = [[CallForceStop]] @ [serveGoroutine]" "nsServer t = Some (gNew fakeGrpc [UnaryInterceptorLogGRPC])"
    by (rule exampleServer_starts)
  let ?t1 = "t\<lparr>pcThreads := (pcThreads t)[0 := ForceStop t @ []]\<rparr>"
  have s1: "threadStep fakeGrpc t ?t1" by (rule threadStep [of 0 t CallForceStop]) (simp_all add: t)
  obtain g :: "unit fakeGrpcServer" and cs where g: "gStop fakeGrpc (gNew fakeGrpc [UnaryInterceptorLogGRPC]) = (g, cs)" by (metis surj_pair)
  let ?u0 = "closeAll cs (?t1\<lparr>nsServer := Some g\<rparr>)"
  have "threadStep fakeGrpc ?t1 (?u0\<lparr>pcThreads := (pcThreads ?u0)[0 := [] @ [CloseListener]]\<rparr>)"
    by (rule threadStep [of 0 ?t1 StopGrpc]) (simp_all add: t g ForceStop_def withServer_def)
  moreover have "fgStopped g" using g by (auto simp: fakeGrpc_def)
  ultimately show thesis using that [OF t(1) s1] by simp
qed

theorem stopped_server_terminates_witness:
  "\<exists>t u. Start (exampleServer ''tcp://:50051'' [[CallForceStop]]) = (Ok (), t) \<and> (step fakeGrpc)\<^sup>*\<^sup>* t u
     \<and> ((\<exists>w. step fakeGrpc u w) \<or> allDone u)
     \<and> \<not> (\<exists>\<sigma>. \<sigma> 0 = u \<and> (\<forall>n. step fakeGrpc (\<sigma> n) (\<sigma> (Suc n))))"
proof -
  obtain t t1 u where t: "Start (exampleServer ''tcp://:50051'' [[CallForceStop]]) = (Ok (), t)"
      "threadStep fakeGrpc t t1" "threadStep fakeGrpc t1 u" "\<exists>g. nsServer u = Some g \<and> fgStopped g"
    by (rule exampleServer_forced)
  then obtain g where g: "nsServer u = Some g" "fgStopped g" by blast
  have run: "(step fakeGrpc)\<^sup>*\<^sup>* t u" using t(2,3) by (meson rtranclp.simps step.goroutine)
  have ends: "\<not> (\<exists>\<sigma>. \<sigma> 0 = u \<and> (\<forall>n. step fakeGrpc (\<sigma> n) (\<sigma> (Suc n))))
      \<and> ((step fakeGrpc)\<^sup>*\<^sup>* u u \<longrightarrow> (\<exists>w. step fakeGrpc u w) \<or> allDone u)"
    by (rule stopped_server_terminates [OF fakeRpc.grpc_server_axioms t(1) _ _ _ run g])
      (simp_all add: clientProgram_def)
  with t(1) run show ?thesis by blast
qed

end
