(* ===== verification/Driver.thy ===== *)
theory Driver
  imports ServerProps Csi
begin

text \<open>
  The driver of \<^verbatim>\<open>internal/csi/driver.go\<close>: it makes the gRPC server, registers the three CSI services
  with it and runs it until the context is done.
\<close>

section \<open>driver.go\<close>

definition DefaultDriverName :: string where
  "DefaultDriverName = ''listeners.kubedoop.dev''"

record driver =
  drName :: string
  drNodeID :: string
  drEndpoint :: string

text \<open>The driver owns its server, which is returned beside it.\<close>

definition NewDriver ::
  "('g, identityServer) grpc \<Rightarrow> string \<Rightarrow> string \<Rightarrow> driver \<times> 'g nbServer" where
  "NewDriver G nodeID endpoint =
     (\<lparr>drName = DefaultDriverName, drNodeID = nodeID, drEndpoint = endpoint\<rparr>,
      NewNonBlockingServer G endpoint [])"

text \<open>\<^verbatim>\<open>Run\<close> up to the point where it waits: the goroutine that called it goes on with starting the
  goroutine that stops the server and with \<^verbatim>\<open>Wait\<close>. The result is the number of that goroutine;
  \<^verbatim>\<open>Run\<close> returns nil when it has no instructions left. \<open>buildVersion\<close> is \<^verbatim>\<open>version.BuildVersion\<close>,
  which the build sets.\<close>

definition driverMain :: "instr list" where
  "driverMain = [Spawn [AwaitCtx, CallStop], CallWait]"

definition Run ::
  "('g, identityServer) grpc \<Rightarrow> string \<Rightarrow> driver \<Rightarrow> ('g process, nat) go" where
  "Run G buildVersion d =
     (if drNodeID d = '''' then failG (NewErr ''NodeID is not provided'')
      else
        bindG (\<lambda>s. (Ok (), RegisterService G (Some (NodeService (drNodeID d)))
          (Some (IdentityService (NewIdentityServer (drName d) buildVersion))) (Some ControllerService) s)) (\<lambda>_.
        bindG Start (\<lambda>_.
        \<lambda>s. (Ok (length (pcThreads s)), s\<lparr>pcThreads := pcThreads s @ [driverMain]\<rparr>))))"

definition DriverStop :: "'g process \<Rightarrow> instr list" where
  "DriverStop s = Stop s"

section \<open>A run of the driver\<close>

text \<open>\<open>closerForms\<close>: a goroutine that has still to close the listener.\<close>

definition closerForms :: "instr list set" where
  "closerForms = {driverMain, [CallWait], [WgWait, CloseListener], [CloseListener]}"

definition closeInv :: "'g process \<Rightarrow> bool" where
  "closeInv s \<longleftrightarrow> nsOnce s \<or> (\<exists>p\<in>set (pcThreads s). p \<in> closerForms)"

lemma exec_once: "exec G ins s = Move s' q \<Longrightarrow> nsOnce s \<Longrightarrow> nsOnce s'"
  by (cases ins) (auto simp: exec_defs split: move_splits)

lemma threadStep_closeInv:
  assumes "threadStep G s t" "closeInv s"
  shows "closeInv t"
proof (cases "nsOnce s")
  case True
  then show ?thesis using assms(1) exec_once by (auto simp: closeInv_def elim!: threadStepE)
next
  case False
  then have "\<exists>p\<in>set (pcThreads s). p \<in> closerForms" using assms(2) by (auto simp: closeInv_def)
  then have "(\<exists>p\<in>set (pcThreads t). p \<in> closerForms) \<or> nsOnce t"
    by (intro threadStep_track [OF assms(1)])
      (auto simp: closerForms_def driverMain_def exec_defs split: move_splits)
  then show ?thesis by (auto simp: closeInv_def)
qed

lemma step_closeInv:
  assumes "step G s t" "closeInv s"
  shows "closeInv t"
  using assms(1)
proof cases
  case goroutine
  then show ?thesis using threadStep_closeInv assms(2) by blast
qed (use assms(2) in \<open>auto simp: closeInv_def\<close>)

text \<open>What holds from the moment \<^verbatim>\<open>Run\<close> waits.\<close>

definition runInv :: "string option \<Rightarrow> fsys \<Rightarrow> 'g process \<Rightarrow> bool" where
  "runInv p F s \<longleftrightarrow> serverInv 0 s \<and> socketInv 0 p F s \<and> logInv s \<and> closeInv s"

text \<open>The conditions under which a driver can listen at the path \<open>cs @ [c]\<close>.\<close>

definition canListen :: "path \<Rightarrow> string \<Rightarrow> fsys \<Rightarrow> bool" where
  "canListen cs c f \<longleftrightarrow> list_all good_comp cs \<and> good_comp c \<and> dir_chain (tree f) cs
     \<and> length (abs_path (cs @ [c])) < 108 \<and> cs @ [c] \<notin> set (mounts f) \<and> (\<forall>sc. fault f sc (cs @ [c]) = None)
     \<and> \<not> (tree f (cs @ [c]) = Some Dir \<and> (\<exists>q. below (cs @ [c]) q \<and> tree f q \<noteq> None))"

lemma Run_unix:
  assumes "canListen cs c f" "nodeID \<noteq> ''''"
    and "NewDriver G nodeID (''unix:/'' @ abs_path (cs @ [c])) = (d, srv)"
    and "Run G ver d (newProcess srv f tcp []) = (r, s)"
  shows "r = Ok 1" "runInv (Some (abs_path (cs @ [c]))) (set_entry (cs @ [c]) Socket f) s"
    "driverMain \<in> set (pcThreads s)" "tree (pcFiles s) (cs @ [c]) = Some Socket"
proof -
  let ?s = "RegisterService G (Some (NodeService nodeID))
    (Some (IdentityService (NewIdentityServer (drName d) ver))) (Some ControllerService) (newProcess srv f tcp [])"
  have d: "srv = NewNonBlockingServer G (''unix:/'' @ abs_path (cs @ [c])) []" "drNodeID d = nodeID"
    using assms(3) by (auto simp: NewDriver_def)
  have s0: "nsServer ?s \<noteq> None" "nsWg ?s = 0" "pcThreads ?s = []" "pcNext ?s = 0" "pcOpen ?s = Map.empty"
      "pcLog ?s = []" "\<not> nsOnce ?s" "pcFiles ?s = f" "nsEndpoint ?s = ''unix:/'' @ abs_path (cs @ [c])"
    by (simp_all add: RegisterService_def d(1))
  have "Start ?s = (Ok (), ?s\<lparr>pcFiles := set_entry (cs @ [c]) Socket f,
      pcOpen := [0 \<mapsto> Some (abs_path (cs @ [c]))], pcNext := 1,
      nsListener := Some 0, nsWg := 1, pcThreads := [serveGoroutine]\<rparr>)"
    using Start_plain [of ?s cs c] assms(1) s0 by (simp add: canListen_def)
  then have rs: "r = Ok 1" "s = ?s\<lparr>pcFiles := set_entry (cs @ [c]) Socket f,
      pcOpen := [0 \<mapsto> Some (abs_path (cs @ [c]))], pcNext := 1,
      nsListener := Some 0, nsWg := 1, pcThreads := [serveGoroutine, driverMain]\<rparr>"
    using assms(2,4) by (auto simp: Run_def bindG_def d(2))
  then show "r = Ok 1" "driverMain \<in> set (pcThreads s)" "tree (pcFiles s) (cs @ [c]) = Some Socket"
    by simp_all
  show "runInv (Some (abs_path (cs @ [c]))) (set_entry (cs @ [c]) Socket f) s"
    using s0 by (auto simp: rs(2) runInv_def serverInv_def socketInv_def logInv_def closeInv_def closeLines_def
        closerForms_def serveForms_def serveGoroutine_def driverMain_def)
qed

lemma closedFiles_unix:
  assumes "canListen cs c f"
  shows "closedFiles (Some (abs_path (cs @ [c]))) (set_entry (cs @ [c]) Socket f)
    = f\<lparr>tree := (tree f)(cs @ [c] := None)\<rparr>"
proof -
  have "dir_chain (tree (set_entry (cs @ [c]) Socket f)) cs"
    using assms by (auto simp: canListen_def dir_chain_iff entry_at_def prefix_def)
  then show ?thesis
    using unlink_plain [of cs "set_entry (cs @ [c]) Socket f" c] assms
    by (simp add: canListen_def closedFiles_def set_entry_def)
qed

lemma step_runInv:
  assumes "grpc_server G stopped pending" "step G s t" "runInv p F s"
  shows "runInv p F t"
  using assms grpc_server.step_serverInv [OF assms(1,2)] step_socketInv [OF assms(2)]
    step_logInv [OF assms(2)] step_closeInv [OF assms(2)]
  by (auto simp: runInv_def)

lemma fairRun_runInv:
  assumes "grpc_server G stopped pending" "fairRun G \<sigma>" "runInv p F (\<sigma> 0)"
  shows "runInv p F (\<sigma> n)"
proof (induction n)
  case (Suc n)
  then show ?case using assms(2) step_runInv [OF assms(1)] by (metis fairRun_def)
qed (rule assms(3))

lemma runInv_allDone:
  assumes "runInv p F s" "allDone s"
  shows "pcOpen s = Map.empty" "pcFiles s = closedFiles p F" "closeLines s = 1"
proof -
  have nil: "\<forall>r\<in>set (pcThreads s). r = []" using assms(2) by (simp add: allDone_def list_all_iff)
  then have "nsWg s = 0" using assms(1) by (auto simp: runInv_def serverInv_def total_0_iff)
  then have "pcOpen s 0 = None" using assms(1) serverInv_closed by (auto simp: runInv_def)
  then show "pcOpen s = Map.empty" "pcFiles s = closedFiles p F"
    using assms(1) by (auto simp: runInv_def socketInv_def)
  have "nsOnce s" using assms(1) nil by (auto simp: runInv_def closeInv_def closerForms_def driverMain_def)
  then show "closeLines s = 1" using assms(1) by (simp add: runInv_def logInv_def)
qed

section \<open>Properties\<close>

text \<open>C3. A driver with a node id whose endpoint is a usable Unix path starts, and comes to an orderly
  end: in every fair run of its goroutines in which the context is done at some time, all goroutines come
  to their end, so \<^verbatim>\<open>Run\<close> returns; then the listener is closed, the socket is removed and the rest of
  the file system is as it was, and the log has exactly one line ``failed to close listener'', because
  the gRPC server had closed the listener before \<^verbatim>\<open>closeListener\<close> closed it.\<close>

theorem driver_shuts_down:
  assumes "grpc_server G stopped pending" "canListen cs c f" "nodeID \<noteq> ''''"
    and "NewDriver G nodeID (''unix:/'' @ abs_path (cs @ [c])) = (d, srv)"
    and "Run G ver d (newProcess srv f tcp []) = (r, s)"
    and "fairRun G \<sigma>" "\<sigma> 0 = s" "pcDone (\<sigma> m)"
  shows "r = Ok 1 \<and> (\<exists>n. allDone (\<sigma> n) \<and> pcOpen (\<sigma> n) = Map.empty
     \<and> pcFiles (\<sigma> n) = f\<lparr>tree := (tree f)(cs @ [c] := None)\<rparr> \<and> closeLines (\<sigma> n) = 1)"
proof -
  note run = Run_unix [OF assms(2-5)]
  have "grpc_server.stopInv stopped (\<sigma> 0)"
    using run(3) assms(7) by (auto simp: grpc_server.stopInv_def [OF assms(1)] stopperForms_def driverMain_def)
  then obtain n where n: "allDone (\<sigma> n)"
    using grpc_server.fairRun_ends [OF assms(1,6), of 0 m] run(2) assms(7,8) by (auto simp: runInv_def)
  moreover have "runInv (Some (abs_path (cs @ [c]))) (set_entry (cs @ [c]) Socket f) (\<sigma> n)"
    using fairRun_runInv [OF assms(1,6)] run(2) assms(7) by blast
  ultimately show ?thesis using runInv_allDone closedFiles_unix [OF assms(2)] run(1) by (metis (no_types))
qed

theorem driver_shuts_down_witness:
  "\<exists>d srv s \<sigma> n. NewDriver fakeGrpc ''node-1'' ''unix://tmp/csi.sock'' = (d, srv)
     \<and> Run fakeGrpc ''1.0'' d (newProcess srv tmpFiles (\<lambda>_. None) []) = (Ok 1, s)
     \<and> fairRun fakeGrpc \<sigma> \<and> \<sigma> 0 = s \<and> allDone (\<sigma> n)
     \<and> tree (pcFiles s) [''tmp'', ''csi.sock''] = Some Socket \<and> tree (pcFiles (\<sigma> n)) [''tmp'', ''csi.sock''] = None"
proof -
  have can: "canListen [''tmp''] ''csi.sock'' tmpFiles"
    by (auto simp: canListen_def tmpFiles_def good_comp_def dir_chain_iff prefix_Cons entry_at_def abs_path_simps)
  obtain d and srv :: "identityServer fakeGrpcServer nbServer" where
    d: "NewDriver fakeGrpc ''node-1'' (''unix:/'' @ abs_path ([''tmp''] @ [''csi.sock''])) = (d, srv)"
    by (metis surj_pair)
  obtain r s where s: "Run fakeGrpc ''1.0'' d (newProcess srv tmpFiles (\<lambda>_. None) []) = (r, s)" by (metis surj_pair)
  note run = Run_unix [OF can _ d s]
  let ?s = "s\<lparr>pcDone := True\<rparr>"
  have inv: "serverInv 0 ?s" "fakeRpc.stopInv ?s"
    using run(2,3) by (auto simp: runInv_def serverInv_def fakeRpc.stopInv_def stopperForms_def driverMain_def)
  obtain u where u: "(step fakeGrpc)\<^sup>*\<^sup>* ?s u" "\<nexists>t. step fakeGrpc u t"
    using fakeRpc.can_finish [OF inv] by auto
  have "pcDone s \<Longrightarrow> ?s = s" by (cases s) simp
  then have "(step fakeGrpc)\<^sup>*\<^sup>* s u"
    using u(1) step.cancelled [of s fakeGrpc] by (metis converse_rtranclp_into_rtranclp)
  then obtain \<sigma> m where \<sigma>: "fairRun fakeGrpc \<sigma>" "\<sigma> 0 = s" "\<sigma> m = u" using fairRun_from u(2) by blast
  have "pcDone (\<sigma> m)" using u(2) \<sigma>(3) step.cancelled by metis
  from driver_shuts_down [OF fakeRpc.grpc_server_axioms can _ d s \<sigma>(1,2) this]
  obtain n where "r = Ok 1" "allDone (\<sigma> n)" "tree (pcFiles (\<sigma> n)) [''tmp'', ''csi.sock''] = None" by auto
  moreover have "tree (pcFiles s) [''tmp'', ''csi.sock''] = Some Socket"
    using run(4) by simp
  ultimately show ?thesis using d s \<sigma> by (auto simp: abs_path_simps)
qed

end
