(* ===== verification/GoFlag.thy ===== *)
theory GoFlag
  imports Prelude
begin

text \<open>
  What the programs use of Go's \<^verbatim>\<open>flag\<close> package: \<^verbatim>\<open>flag.Parse\<close> on a set of string and boolean flags.
  The flags are a table from names to setters on the record \<open>'f\<close> of the flags' variables. A flag that a
  library registers is \<open>LibraryFlag\<close>: whether it is boolean, and the error for which it refuses a value.
\<close>

datatype 'f flagVar =
    StringFlag "string \<Rightarrow> 'f \<Rightarrow> 'f"
  | BoolFlag "bool \<Rightarrow> 'f \<Rightarrow> 'f"
  | LibraryFlag bool "string \<Rightarrow> error option"

type_synonym 'f flagSet = "string \<rightharpoonup> 'f flagVar"

text \<open>\<^verbatim>\<open>strconv.ParseBool\<close>\<close>

definition ParseBool :: "string \<Rightarrow> bool option" where
  "ParseBool s =
     (if s \<in> {''1'', ''t'', ''T'', ''true'', ''TRUE'', ''True''} then Some True
      else if s \<in> {''0'', ''f'', ''F'', ''false'', ''FALSE'', ''False''} then Some False
      else None)"

text \<open>Why parsing ends the program: \<^verbatim>\<open>-h\<close> prints the usage and exits with 0, everything else with 2.\<close>

datatype flagError =
    Help
  | BadSyntax string
  | Undefined string
  | NeedsArgument string
  | InvalidValue string string

definition flagExit :: "flagError \<Rightarrow> int" where
  "flagExit e = (case e of Help \<Rightarrow> 0 | _ \<Rightarrow> 2)"

text \<open>The value after the first \<^verbatim>\<open>=\<close> that is not the first character.\<close>

definition splitValue :: "string \<Rightarrow> string \<times> string option" where
  "splitValue name =
     (let n = hd name # takeWhile (\<lambda>c. c \<noteq> CHR ''='') (tl name);
          rest = dropWhile (\<lambda>c. c \<noteq> CHR ''='') (tl name)
      in (n, case rest of [] \<Rightarrow> None | _ # v \<Rightarrow> Some v))"

definition setBool :: "(bool \<Rightarrow> 'f \<Rightarrow> 'f) \<Rightarrow> string \<Rightarrow> string \<Rightarrow> 'f \<Rightarrow> flagError + 'f" where
  "setBool upd name v fl = (case ParseBool v of
     None \<Rightarrow> Inl (InvalidValue name v) | Some b \<Rightarrow> Inr (upd b fl))"

definition checkLibrary :: "(string \<Rightarrow> error option) \<Rightarrow> string \<Rightarrow> string \<Rightarrow> 'f \<Rightarrow> flagError + 'f" where
  "checkLibrary check name v fl = (case check v of
     None \<Rightarrow> Inr fl | Some e \<Rightarrow> Inl (InvalidValue name v))"

definition setVar :: "'f flagVar \<Rightarrow> string \<Rightarrow> string \<Rightarrow> 'f \<Rightarrow> flagError + 'f" where
  "setVar var name v fl = (case var of
     StringFlag upd \<Rightarrow> Inr (upd v fl)
   | BoolFlag upd \<Rightarrow> setBool upd name v fl
   | LibraryFlag b check \<Rightarrow> checkLibrary check name v fl)"

definition isBoolFlag :: "'f flagVar \<Rightarrow> bool" where
  "isBoolFlag var = (case var of StringFlag upd \<Rightarrow> False | BoolFlag upd \<Rightarrow> True | LibraryFlag b check \<Rightarrow> b)"

text \<open>The name of a flag without its dashes; \<open>None\<close>: the argument is not a flag and ends parsing.\<close>

definition flagName :: "string \<Rightarrow> (flagError + string) option" where
  "flagName s =
     (if length s < 2 \<or> s ! 0 \<noteq> CHR ''-'' then None
      else if s = ''--'' then None
      else let name = (if s ! 1 = CHR ''-'' then drop 2 s else drop 1 s)
           in if name = [] \<or> hd name = CHR ''-'' \<or> hd name = CHR ''='' then Some (Inl (BadSyntax s))
              else Some (Inr name))"

text \<open>\<^verbatim>\<open>FlagSet.Parse\<close> over the arguments that are left.\<close>

fun flag_Parse :: "'f flagSet \<Rightarrow> string list \<Rightarrow> 'f \<Rightarrow> flagError + 'f" where
  "flag_Parse F [] fl = Inr fl"
| "flag_Parse F (s # args) fl = (case flagName s of
     None \<Rightarrow> Inr fl
   | Some (Inl e) \<Rightarrow> Inl e
   | Some (Inr nv) \<Rightarrow> (case splitValue nv of (name, value) \<Rightarrow>
       (case F name of
          None \<Rightarrow> Inl (if name = ''help'' \<or> name = ''h'' then Help else Undefined name)
        | Some var \<Rightarrow>
            (case (value, isBoolFlag var, args) of
               (Some v, _, _) \<Rightarrow> (case setVar var name v fl of Inl e \<Rightarrow> Inl e | Inr fl' \<Rightarrow> flag_Parse F args fl')
             | (None, True, _) \<Rightarrow> (case setVar var name ''true'' fl of Inl e \<Rightarrow> Inl e | Inr fl' \<Rightarrow> flag_Parse F args fl')
             | (None, False, v # args') \<Rightarrow> (case setVar var name v fl of Inl e \<Rightarrow> Inl e | Inr fl' \<Rightarrow> flag_Parse F args' fl')
             | (None, False, []) \<Rightarrow> Inl (NeedsArgument name)))))"

section \<open>Flags that are written out\<close>

definition plainName :: "string \<Rightarrow> bool" where
  "plainName n \<longleftrightarrow> n \<noteq> [] \<and> hd n \<noteq> CHR ''-'' \<and> CHR ''='' \<notin> set n"

definition flagArg :: "string \<Rightarrow> string \<Rightarrow> string" where
  "flagArg n v = ''--'' @ n @ ''='' @ v"

lemma flagName_flagArg:
  assumes "plainName n"
  shows "flagName (flagArg n v) = Some (Inr (n @ CHR ''='' # v))"
proof -
  have "hd n \<noteq> CHR ''=''" using assms by (cases n) (auto simp: plainName_def)
  then show ?thesis using assms by (auto simp: flagName_def flagArg_def plainName_def)
qed

lemma splitValue_flagArg:
  assumes "plainName n"
  shows "splitValue (n @ CHR ''='' # v) = (n, Some v)"
proof -
  obtain c m where n: "n = c # m" "CHR ''='' \<notin> set m"
    using assms by (cases n) (auto simp: plainName_def)
  then have "takeWhile (\<lambda>c. c \<noteq> CHR ''='') (m @ CHR ''='' # v) = m"
      "dropWhile (\<lambda>c. c \<noteq> CHR ''='') (m @ CHR ''='' # v) = CHR ''='' # v"
    by (auto simp: takeWhile_append dropWhile_append)
  with n show ?thesis by (simp add: splitValue_def)
qed

lemma flag_Parse_flagArg:
  assumes "plainName n" "F n = Some var" "setVar var n v fl = Inr fl'"
  shows "flag_Parse F (flagArg n v # args) fl = flag_Parse F args fl'"
  using assms by (simp add: flagName_flagArg splitValue_flagArg)

lemma flag_Parse_undefined:
  assumes "plainName n" "F n = None" "n \<notin> {''help'', ''h''}"
  shows "flag_Parse F (flagArg n v # args) fl = Inl (Undefined n)"
  using assms by (simp add: flagName_flagArg splitValue_flagArg)

text \<open>The text that \<^verbatim>\<open>strconv.FormatBool\<close> gives.\<close>

definition FormatBool :: "bool \<Rightarrow> string" where
  "FormatBool b = (if b then ''true'' else ''false'')"

lemma ParseBool_FormatBool [simp]: "ParseBool (FormatBool b) = Some b"
  by (simp add: ParseBool_def FormatBool_def)

end
