(* ===== verification/Cmd.thy ===== *)
theory Cmd
  imports Driver GoFlag
begin

text \<open>
  The two programs, \<^verbatim>\<open>cmd/main.go\<close> (the operator) and \<^verbatim>\<open>cmd/csiplugin/main.go\<close> (the CSI driver), from
  their command lines to their exit codes, and the version information of
  \<^verbatim>\<open>internal/util/version/version.go\<close>. The controller manager and the flags that the logging library
  registers are parameters.
\<close>

section \<open>version.go\<close>

text \<open>What the build and the Go runtime know: the three variables that the build sets and
  \<^verbatim>\<open>runtime.Version()\<close>, \<^verbatim>\<open>runtime.Compiler\<close>, \<^verbatim>\<open>runtime.GOOS\<close> and \<^verbatim>\<open>runtime.GOARCH\<close>.\<close>

record buildInfo =
  BuildVersion :: string
  bBuildTime :: string
  bGitCommit :: string
  bGoVersion :: string
  bCompiler :: string
  bGOOS :: string
  bGOARCH :: string

record appInfo =
  aiName :: string
  AppVersion :: string
  BuildTime :: string
  GitCommit :: string
  GoVersion :: string
  Compiler :: string
  Platform :: string

definition NewAppInfo :: "buildInfo \<Rightarrow> string \<Rightarrow> appInfo" where
  "NewAppInfo b n = \<lparr>aiName = n, AppVersion = BuildVersion b, BuildTime = bBuildTime b,
     GitCommit = bGitCommit b, GoVersion = bGoVersion b, Compiler = bCompiler b,
     Platform = bGOOS b @ ''/'' @ bGOARCH b\<rparr>"

text \<open>\<^verbatim>\<open>json.Marshal\<close> of a text: quotes, backslashes, control characters and the characters that HTML
  gives a meaning are escaped.\<close>

definition hexDigit :: "nat \<Rightarrow> char" where
  "hexDigit n = ''0123456789abcdef'' ! n"

definition escapeByte :: "char \<Rightarrow> string" where
  "escapeByte c = (let n = of_char c :: nat in
     if n = 0x22 \<or> n = 0x5C then [CHR 0x5C, c]
     else if n = 8 then [CHR 0x5C, CHR ''b''] else if n = 12 then [CHR 0x5C, CHR ''f'']
     else if n = 10 then [CHR 0x5C, CHR ''n''] else if n = 13 then [CHR 0x5C, CHR ''r'']
     else if n = 9 then [CHR 0x5C, CHR ''t'']
     else if n < 32 \<or> n = 0x3C \<or> n = 0x3E \<or> n = 0x26 then
       [CHR 0x5C, CHR ''u'', CHR ''0'', CHR ''0'', hexDigit (n div 16), hexDigit (n mod 16)]
     else [c])"

definition jsonString :: "string \<Rightarrow> string" where
  "jsonString s = [CHR 0x22] @ concat (map escapeByte s) @ [CHR 0x22]"

definition jsonField :: "string \<times> string \<Rightarrow> string" where
  "jsonField kv = jsonString (fst kv) @ '':'' @ jsonString (snd kv)"

fun jsonFields :: "(string \<times> string) list \<Rightarrow> string" where
  "jsonFields [] = ''''"
| "jsonFields [kv] = jsonField kv"
| "jsonFields (kv # kvs) = jsonField kv @ '','' @ jsonFields kvs"

definition String_appInfo :: "appInfo \<Rightarrow> string" where
  "String_appInfo a = ''{'' @ jsonFields [(''AppName'', aiName a), (''AppVersion'', AppVersion a),
     (''BuildTime'', BuildTime a), (''GitCommit'', GitCommit a), (''GoVersion'', GoVersion a),
     (''Compiler'', Compiler a), (''Platform'', Platform a)] @ ''}''"

section \<open>What both programs set up\<close>

text \<open>A TLS option is a function that changes a TLS configuration; the programs have one.\<close>

record tlsConfig =
  NextProtos :: "string list"

definition disableHTTP2 :: "tlsConfig \<Rightarrow> tlsConfig" where
  "disableHTTP2 c = c\<lparr>NextProtos := [''http/1.1'']\<rparr>"

record webhookOptions =
  whTLSOpts :: "(tlsConfig \<Rightarrow> tlsConfig) list"
  whCertDir :: string
  whCertName :: string
  whKeyName :: string

datatype filterProvider = WithAuthenticationAndAuthorization

record metricsOptions =
  msBindAddress :: string
  msSecureServing :: bool
  msTLSOpts :: "(tlsConfig \<Rightarrow> tlsConfig) list"
  msFilterProvider :: "filterProvider option"
  msCertDir :: string
  msCertName :: string
  msKeyName :: string

record managerOptions =
  moMetrics :: metricsOptions
  moHealthProbeBindAddress :: string
  moLeaderElection :: bool
  moWebhookServer :: "webhookOptions option"
  moLeaderElectionID :: string

text \<open>The servers apply the options of a list in order.\<close>

definition applyTLSOpts :: "(tlsConfig \<Rightarrow> tlsConfig) list \<Rightarrow> tlsConfig \<Rightarrow> tlsConfig" where
  "applyTLSOpts opts c = fold (\<lambda>opt c. opt c) opts c"

text \<open>The manager of controller-runtime. \<open>getConfig\<close> is the error for which \<^verbatim>\<open>GetConfigOrDie\<close> ends the
  program, and \<open>completeController\<close> is \<^verbatim>\<open>SetupWithManager\<close> of the controller with the given name.
  \<open>addToScheme\<close> is the error with which a package fails to register its types, and \<open>zapFlags\<close> are the
  flags of the logging library.\<close>

record 'm managerLib =
  addToScheme :: "string \<Rightarrow> error option"
  zapFlags :: "string \<rightharpoonup> bool \<times> (string \<Rightarrow> error option)"
  getConfig :: "error option"
  newManager :: "managerOptions \<Rightarrow> error + 'm"
  completeController :: "string \<Rightarrow> 'm \<Rightarrow> error + 'm"
  addHealthzCheck :: "string \<Rightarrow> 'm \<Rightarrow> error + 'm"
  addReadyzCheck :: "string \<Rightarrow> 'm \<Rightarrow> error + 'm"
  startManager :: "'m \<Rightarrow> error + unit"

text \<open>How a program ends: its exit code, the lines it printed, each a text and possibly the text of
  an error after it, and the errors it logged.\<close>

record exit =
  exitCode :: int
  stdout :: "(string \<times> error option) list"
  errorLog :: "(error \<times> string) list"

definition exitWith :: "error \<Rightarrow> string \<Rightarrow> exit" where
  "exitWith e msg = \<lparr>exitCode = 1, stdout = [], errorLog = [(e, msg)]\<rparr>"

definition exitOk :: "string list \<Rightarrow> exit" where
  "exitOk out = \<lparr>exitCode = 0, stdout = map (\<lambda>l. (l, None)) out, errorLog = []\<rparr>"

text \<open>\<^verbatim>\<open>init\<close>: \<^verbatim>\<open>utilruntime.Must\<close> panics with the first error, which ends the program with code 2.\<close>

fun mustAll :: "(string \<Rightarrow> error option) \<Rightarrow> string list \<Rightarrow> error option" where
  "mustAll add [] = None"
| "mustAll add (p # ps) = (case add p of Some e \<Rightarrow> Some e | None \<Rightarrow> mustAll add ps)"

definition initScheme :: "('m, 'z) managerLib_scheme \<Rightarrow> exit option" where
  "initScheme L = map_option (\<lambda>e. \<lparr>exitCode = 2, stdout = [], errorLog = []\<rparr>)
     (mustAll (addToScheme L) [''clientgoscheme'', ''operator-go/listeners/v1alpha1'', ''api/v1alpha1''])"

text \<open>The flags that \<^verbatim>\<open>opts.BindFlags\<close> registers are those of the logger, whose names begin with \<^verbatim>\<open>zap-\<close>. They
  are taken to differ from the program's own, of which none does: \<^verbatim>\<open>flag\<close> panics on a name that is
  registered twice.\<close>

definition libraryFlags :: "('m, 'z) managerLib_scheme \<Rightarrow> 'f flagSet" where
  "libraryFlags L = (\<lambda>n. map_option (\<lambda>(b, check). LibraryFlag b check) (zapFlags L n))"

text \<open>\<^verbatim>\<open>flag.Parse()\<close> on the arguments of the program, which ends the program on an error.\<close>

definition parseOrExit :: "'f flagSet \<Rightarrow> string list \<Rightarrow> 'f \<Rightarrow> ('f \<Rightarrow> exit + 'b) \<Rightarrow> exit + 'b" where
  "parseOrExit F args fl k = (case flag_Parse F args fl of
     Inl e \<Rightarrow> Inl \<lparr>exitCode = flagExit e, stdout = [], errorLog = []\<rparr> | Inr fl' \<Rightarrow> k fl')"

section \<open>cmd/main.go\<close>

record managerFlags =
  metricsAddr :: string
  metricsCertPath :: string
  metricsCertName :: string
  metricsCertKey :: string
  webhookCertPath :: string
  webhookCertName :: string
  webhookCertKey :: string
  enableLeaderElection :: bool
  probeAddr :: string
  secureMetrics :: bool
  enableHTTP2 :: bool
  showVersion :: bool

definition defaultManagerFlags :: managerFlags where
  "defaultManagerFlags = \<lparr>metricsAddr = ''0'', metricsCertPath = '''', metricsCertName = ''tls.crt'',
     metricsCertKey = ''tls.key'', webhookCertPath = '''', webhookCertName = ''tls.crt'',
     webhookCertKey = ''tls.key'', enableLeaderElection = False, probeAddr = '':8081'',
     secureMetrics = True, enableHTTP2 = False, showVersion = False\<rparr>"

definition managerFlagSet :: "('m, 'z) managerLib_scheme \<Rightarrow> managerFlags flagSet" where
  "managerFlagSet L = libraryFlags L ++ map_of [
     (''metrics-bind-address'', StringFlag (\<lambda>v fl. fl\<lparr>metricsAddr := v\<rparr>)),
     (''health-probe-bind-address'', StringFlag (\<lambda>v fl. fl\<lparr>probeAddr := v\<rparr>)),
     (''leader-elect'', BoolFlag (\<lambda>v fl. fl\<lparr>enableLeaderElection := v\<rparr>)),
     (''metrics-secure'', BoolFlag (\<lambda>v fl. fl\<lparr>secureMetrics := v\<rparr>)),
     (''webhook-cert-path'', StringFlag (\<lambda>v fl. fl\<lparr>webhookCertPath := v\<rparr>)),
     (''webhook-cert-name'', StringFlag (\<lambda>v fl. fl\<lparr>webhookCertName := v\<rparr>)),
     (''webhook-cert-key'', StringFlag (\<lambda>v fl. fl\<lparr>webhookCertKey := v\<rparr>)),
     (''metrics-cert-path'', StringFlag (\<lambda>v fl. fl\<lparr>metricsCertPath := v\<rparr>)),
     (''metrics-cert-name'', StringFlag (\<lambda>v fl. fl\<lparr>metricsCertName := v\<rparr>)),
     (''metrics-cert-key'', StringFlag (\<lambda>v fl. fl\<lparr>metricsCertKey := v\<rparr>)),
     (''enable-http2'', BoolFlag (\<lambda>v fl. fl\<lparr>enableHTTP2 := v\<rparr>)),
     (''version'', BoolFlag (\<lambda>v fl. fl\<lparr>showVersion := v\<rparr>))]"

definition tlsOptsOf :: "bool \<Rightarrow> (tlsConfig \<Rightarrow> tlsConfig) list" where
  "tlsOptsOf http2 = (if \<not> http2 then [disableHTTP2] else [])"

definition webhookOptionsOf :: "managerFlags \<Rightarrow> webhookOptions" where
  "webhookOptionsOf fl =
     (let o0 = \<lparr>whTLSOpts = tlsOptsOf (enableHTTP2 fl), whCertDir = '''', whCertName = '''', whKeyName = ''''\<rparr>
      in if length (webhookCertPath fl) > 0
         then o0\<lparr>whCertDir := webhookCertPath fl, whCertName := webhookCertName fl, whKeyName := webhookCertKey fl\<rparr>
         else o0)"

definition metricsOptionsOf :: "string \<Rightarrow> bool \<Rightarrow> bool \<Rightarrow> metricsOptions" where
  "metricsOptionsOf addr secure http2 =
     (let o0 = \<lparr>msBindAddress = addr, msSecureServing = secure, msTLSOpts = tlsOptsOf http2,
                msFilterProvider = None, msCertDir = '''', msCertName = '''', msKeyName = ''''\<rparr>
      in if secure then o0\<lparr>msFilterProvider := Some WithAuthenticationAndAuthorization\<rparr> else o0)"

definition metricsCertOptions :: "managerFlags \<Rightarrow> metricsOptions" where
  "metricsCertOptions fl =
     (let o1 = metricsOptionsOf (metricsAddr fl) (secureMetrics fl) (enableHTTP2 fl)
      in if length (metricsCertPath fl) > 0
         then o1\<lparr>msCertDir := metricsCertPath fl, msCertName := metricsCertName fl, msKeyName := metricsCertKey fl\<rparr>
         else o1)"

definition managerOptionsOf :: "managerFlags \<Rightarrow> managerOptions" where
  "managerOptionsOf fl = \<lparr>moMetrics = metricsCertOptions fl, moHealthProbeBindAddress = probeAddr fl,
     moLeaderElection = enableLeaderElection fl, moWebhookServer = Some (webhookOptionsOf fl),
     moLeaderElectionID = ''0254a9f2.kubedoop.dev''\<rparr>"

text \<open>\<^verbatim>\<open>if err != nil { setupLog.Error(err, msg); os.Exit(1) }\<close>\<close>

definition orExit :: "error + 'a \<Rightarrow> string \<Rightarrow> ('a \<Rightarrow> exit + 'b) \<Rightarrow> exit + 'b" where
  "orExit r msg k = (case r of Inl e \<Rightarrow> Inl (exitWith e msg) | Inr a \<Rightarrow> k a)"

definition configOrDie :: "('m, 'z) managerLib_scheme \<Rightarrow> (unit \<Rightarrow> exit + 'b) \<Rightarrow> exit + 'b" where
  "configOrDie L k = (case getConfig L of
     Some e \<Rightarrow> Inl (exitWith e ''unable to get kubeconfig'') | None \<Rightarrow> k ())"

definition exitOf :: "exit + exit \<Rightarrow> exit" where
  "exitOf r = (case r of Inl e \<Rightarrow> e | Inr e \<Rightarrow> e)"

text \<open>The program after its flags are parsed, and the program.\<close>

definition managerRun :: "('m, 'z) managerLib_scheme \<Rightarrow> buildInfo \<Rightarrow> managerFlags \<Rightarrow> exit + exit" where
  "managerRun L b fl =
     (if showVersion fl then Inl (exitOk [String_appInfo (NewAppInfo b ''listener-operator'')])
      else
        configOrDie L (\<lambda>_.
        orExit (newManager L (managerOptionsOf fl)) ''unable to start manager'' (\<lambda>m0.
        orExit (completeController L ''ListenerClass'' m0) ''unable to create controller'' (\<lambda>m1.
        orExit (completeController L ''Listener'' m1) ''unable to create controller'' (\<lambda>m2.
        orExit (completeController L ''PodListeners'' m2) ''unable to create controller'' (\<lambda>m3.
        orExit (addHealthzCheck L ''healthz'' m3) ''unable to set up health check'' (\<lambda>m4.
        orExit (addReadyzCheck L ''readyz'' m4) ''unable to set up ready check'' (\<lambda>m5.
        orExit (startManager L m5) ''problem running manager'' (\<lambda>_. Inr (exitOk []))))))))))"

definition managerMain :: "('m, 'z) managerLib_scheme \<Rightarrow> buildInfo \<Rightarrow> string list \<Rightarrow> exit" where
  "managerMain L b args = (case initScheme L of
     Some x \<Rightarrow> x
   | None \<Rightarrow> exitOf (parseOrExit (managerFlagSet L) args defaultManagerFlags (managerRun L b)))"

section \<open>cmd/csiplugin/main.go\<close>

record pluginFlags =
  endpoint :: string
  nodeID :: string
  pfMetricsAddr :: string
  pfEnableLeaderElection :: bool
  pfProbeAddr :: string
  pfSecureMetrics :: bool
  pfEnableHTTP2 :: bool
  versionInfo :: bool

definition defaultPluginFlags :: pluginFlags where
  "defaultPluginFlags = \<lparr>endpoint = ''unix://tmp/csi.sock'', nodeID = '''', pfMetricsAddr = ''0'',
     pfEnableLeaderElection = False, pfProbeAddr = '':8081'', pfSecureMetrics = True,
     pfEnableHTTP2 = False, versionInfo = False\<rparr>"

definition pluginFlagSet :: "('m, 'z) managerLib_scheme \<Rightarrow> pluginFlags flagSet" where
  "pluginFlagSet L = libraryFlags L ++ map_of [
     (''endpoint'', StringFlag (\<lambda>v fl. fl\<lparr>endpoint := v\<rparr>)),
     (''nodeid'', StringFlag (\<lambda>v fl. fl\<lparr>nodeID := v\<rparr>)),
     (''metrics-bind-address'', StringFlag (\<lambda>v fl. fl\<lparr>pfMetricsAddr := v\<rparr>)),
     (''health-probe-bind-address'', StringFlag (\<lambda>v fl. fl\<lparr>pfProbeAddr := v\<rparr>)),
     (''leader-elect'', BoolFlag (\<lambda>v fl. fl\<lparr>pfEnableLeaderElection := v\<rparr>)),
     (''metrics-secure'', BoolFlag (\<lambda>v fl. fl\<lparr>pfSecureMetrics := v\<rparr>)),
     (''enable-http2'', BoolFlag (\<lambda>v fl. fl\<lparr>pfEnableHTTP2 := v\<rparr>)),
     (''version'', BoolFlag (\<lambda>v fl. fl\<lparr>versionInfo := v\<rparr>))]"

definition pluginOptionsOf :: "pluginFlags \<Rightarrow> managerOptions" where
  "pluginOptionsOf fl = \<lparr>moMetrics = metricsOptionsOf (pfMetricsAddr fl) (pfSecureMetrics fl) (pfEnableHTTP2 fl),
     moHealthProbeBindAddress = pfProbeAddr fl, moLeaderElection = pfEnableLeaderElection fl,
     moWebhookServer = None, moLeaderElectionID = ''6a34b29b.kubedoop.dev''\<rparr>"

text \<open>
  The program up to the point where the driver waits: it has ended, or it goes on with the manager \<open>m\<close>
  running in its own goroutine and the driver's process, in which the goroutine \<open>i\<close> is the one whose
  end ends the program with code 0. When the manager ends with an error the program ends with code 1.
\<close>

definition pluginRun ::
  "('m, 'z) managerLib_scheme \<Rightarrow> ('g, identityServer) grpc \<Rightarrow> buildInfo \<Rightarrow> fsys \<Rightarrow> (string \<Rightarrow> error option)
     \<Rightarrow> pluginFlags \<Rightarrow> exit + ('m \<times> nat \<times> 'g process)" where
  "pluginRun L G b f tcp fl =
     (if versionInfo fl then Inl (exitOk [String_appInfo (NewAppInfo b DefaultDriverName)])
      else
        configOrDie L (\<lambda>_.
        orExit (newManager L (pluginOptionsOf fl)) ''unable to start manager'' (\<lambda>m0.
        orExit (addHealthzCheck L ''healthz'' m0) ''unable to set up health check'' (\<lambda>m1.
        orExit (addReadyzCheck L ''readyz'' m1) ''unable to set up ready check'' (\<lambda>m2.
        case NewDriver G (nodeID fl) (endpoint fl) of (driver, srv) \<Rightarrow>
          (case Run G (BuildVersion b) driver (newProcess srv f tcp []) of
             (Ok i, s) \<Rightarrow> Inr (m2, i, s)
           | (Err e, s) \<Rightarrow> Inl \<lparr>exitCode = 1, 
               stdout = [(''Failed to run driver error '', Some e)], errorLog = []\<rparr>
           | (Panic p, s) \<Rightarrow> Inl \<lparr>exitCode = 2, stdout = [], errorLog = []\<rparr>))))))"

definition pluginMain ::
  "('m, 'z) managerLib_scheme \<Rightarrow> ('g, identityServer) grpc \<Rightarrow> buildInfo \<Rightarrow> fsys \<Rightarrow> (string \<Rightarrow> error option)
     \<Rightarrow> string list \<Rightarrow> exit + ('m \<times> nat \<times> 'g process)" where
  "pluginMain L G b f tcp args = (case initScheme L of
     Some x \<Rightarrow> Inl x
   | None \<Rightarrow> parseOrExit (pluginFlagSet L) args defaultPluginFlags (pluginRun L G b f tcp))"

section \<open>Properties\<close>

text \<open>HTTP/2 is off unless it was asked for: whatever the other flags are, the TLS configuration of
  the metrics server and of the webhook server of the operator, and of the metrics server of the driver,
  offers only HTTP/1.1 unless the flag is set, and is left alone if it is. The metrics of both programs
  are behind authentication and authorization exactly when they are served securely.\<close>

theorem http2_off_unless_enabled:
  "applyTLSOpts (msTLSOpts (moMetrics (managerOptionsOf fl))) c
     = (if enableHTTP2 fl then c else c\<lparr>NextProtos := [''http/1.1'']\<rparr>)
   \<and> (\<exists>wh. moWebhookServer (managerOptionsOf fl) = Some wh
        \<and> applyTLSOpts (whTLSOpts wh) c = (if enableHTTP2 fl then c else c\<lparr>NextProtos := [''http/1.1'']\<rparr>))
   \<and> applyTLSOpts (msTLSOpts (moMetrics (pluginOptionsOf pf))) c
       = (if pfEnableHTTP2 pf then c else c\<lparr>NextProtos := [''http/1.1'']\<rparr>)
   \<and> (msFilterProvider (moMetrics (managerOptionsOf fl)) = Some WithAuthenticationAndAuthorization \<longleftrightarrow> secureMetrics fl)
   \<and> (msFilterProvider (moMetrics (pluginOptionsOf pf)) = Some WithAuthenticationAndAuthorization \<longleftrightarrow> pfSecureMetrics pf)"
  by (simp add: managerOptionsOf_def pluginOptionsOf_def metricsCertOptions_def metricsOptionsOf_def
      webhookOptionsOf_def tlsOptsOf_def applyTLSOpts_def disableHTTP2_def Let_def)

lemma ParseEndpoint_no_panic: "ParseEndpoint ep \<noteq> Panic p"
proof (cases "\<exists>p a. ep = p @ ''://'' @ a \<and> ToLower p \<in> {''unix'', ''tcp''}")
  case True
  then obtain q a where "ep = q @ ''://'' @ a" "ToLower q \<in> {''unix'', ''tcp''}" by blast
  then show ?thesis using ParseEndpoint_scheme [of q a] by (simp split: if_splits)
qed (simp add: ParseEndpoint_no_scheme)

lemma removeUnixSocket_no_panic: "removeUnixSocket addr s \<noteq> (Panic p, t)"
  by (auto simp: removeUnixSocket_def tryG_def onProcessFiles_def callG_def split: prod.splits sum.splits)

lemma createListener_server_no_panic: "createListener_server s \<noteq> (Panic p, t)"
  by (auto simp: createListener_server_def go_inv ParseEndpoint_no_panic removeUnixSocket_no_panic split: if_splits)

lemma Run_no_panic: "Run G ver d s \<noteq> (Panic p, t)"
  by (auto simp: Run_def Start_def go_inv createListener_server_no_panic)

lemma Run_Ok: "Run G ver d s = (Ok i, t) \<Longrightarrow> drNodeID d \<noteq> '''' \<and> driverMain = pcThreads t ! i"
  by (auto simp: Run_def go_inv nth_append split: if_splits)

lemma pluginRun_outcome:
  "(case pluginRun L G b f tcp fl of
      Inl x \<Rightarrow> exitCode x = (if versionInfo fl then 0 else 1)
    | Inr (m, i, s) \<Rightarrow> \<not> versionInfo fl \<and> nodeID fl \<noteq> '''' \<and> getConfig L = None \<and> driverMain = pcThreads s ! i)"
proof -
  obtain d srv where d: "NewDriver G (nodeID fl) (endpoint fl) = (d, srv)" "drNodeID d = nodeID fl"
    by (simp add: NewDriver_def)
  obtain r s where r: "Run G (BuildVersion b) d (newProcess srv f tcp []) = (r, s)" by (metis surj_pair)
  then have "case r of Ok i \<Rightarrow> nodeID fl \<noteq> '''' \<and> driverMain = pcThreads s ! i | Err e \<Rightarrow> True | Panic p \<Rightarrow> False"
    using d(2) by (cases r) (auto simp: Run_no_panic dest: Run_Ok)
  then show ?thesis
    by (cases r) (simp_all add: pluginRun_def configOrDie_def orExit_def exitWith_def exitOk_def d(1) r
        split: option.splits sum.splits)
qed

text \<open>C37. The driver program ends before it serves only with code 0, when it was asked for its version
  or its usage, with code 2, when its command line is wrong or its types cannot be registered, or with
  code 1. It serves only with a node id and a configuration, and no command line crashes it.\<close>

theorem plugin_exit_codes:
  "(case pluginMain L G b f tcp args of
      Inl x \<Rightarrow>
        (case (initScheme L, flag_Parse (pluginFlagSet L) args defaultPluginFlags) of
           (Some y, _) \<Rightarrow> exitCode x = 2
         | (None, Inl e) \<Rightarrow> exitCode x = (if e = Help then 0 else 2)
         | (None, Inr fl) \<Rightarrow> exitCode x = (if versionInfo fl then 0 else 1))
    | Inr (m, i, s) \<Rightarrow> getConfig L = None \<and> driverMain = pcThreads s ! i
        \<and> (\<exists>fl. flag_Parse (pluginFlagSet L) args defaultPluginFlags = Inr fl
             \<and> \<not> versionInfo fl \<and> nodeID fl \<noteq> ''''))"
proof (cases "flag_Parse (pluginFlagSet L) args defaultPluginFlags")
  case (Inl e)
  then show ?thesis
    by (cases e) (auto simp: pluginMain_def parseOrExit_def flagExit_def initScheme_def split: option.splits)
next
  case (Inr fl)
  then show ?thesis using pluginRun_outcome [where L = L and G = G and b = b and f = f and tcp = tcp and fl = fl]
    by (auto simp: pluginMain_def parseOrExit_def initScheme_def split: option.splits sum.splits prod.splits)
qed

section \<open>Command lines\<close>

definition managerArgs :: "managerFlags \<Rightarrow> string list" where
  "managerArgs fl = [
     flagArg ''metrics-bind-address'' (metricsAddr fl), flagArg ''health-probe-bind-address'' (probeAddr fl),
     flagArg ''leader-elect'' (FormatBool (enableLeaderElection fl)),
     flagArg ''metrics-secure'' (FormatBool (secureMetrics fl)),
     flagArg ''webhook-cert-path'' (webhookCertPath fl), flagArg ''webhook-cert-name'' (webhookCertName fl),
     flagArg ''webhook-cert-key'' (webhookCertKey fl), flagArg ''metrics-cert-path'' (metricsCertPath fl),
     flagArg ''metrics-cert-name'' (metricsCertName fl), flagArg ''metrics-cert-key'' (metricsCertKey fl),
     flagArg ''enable-http2'' (FormatBool (enableHTTP2 fl)), flagArg ''version'' (FormatBool (showVersion fl))]"

definition pluginArgs :: "pluginFlags \<Rightarrow> string list" where
  "pluginArgs fl = [
     flagArg ''endpoint'' (endpoint fl), flagArg ''nodeid'' (nodeID fl),
     flagArg ''metrics-bind-address'' (pfMetricsAddr fl), flagArg ''health-probe-bind-address'' (pfProbeAddr fl),
     flagArg ''leader-elect'' (FormatBool (pfEnableLeaderElection fl)),
     flagArg ''metrics-secure'' (FormatBool (pfSecureMetrics fl)),
     flagArg ''enable-http2'' (FormatBool (pfEnableHTTP2 fl)), flagArg ''version'' (FormatBool (versionInfo fl))]"

lemma managerArgs_parse: "flag_Parse (managerFlagSet L) (managerArgs fl) defaultManagerFlags = Inr fl"
  by (cases fl)
    (simp add: managerArgs_def flag_Parse_flagArg plainName_def managerFlagSet_def setVar_def setBool_def
      defaultManagerFlags_def del: flag_Parse.simps(2))

lemma pluginArgs_parse: "flag_Parse (pluginFlagSet L) (pluginArgs fl) defaultPluginFlags = Inr fl"
  by (cases fl)
    (simp add: pluginArgs_def flag_Parse_flagArg plainName_def pluginFlagSet_def setVar_def setBool_def
      defaultPluginFlags_def del: flag_Parse.simps(2))

text \<open>C24. Every setting of the flags of either program can be given on its command line, whatever the
  logging library registers: written out flag by flag it is parsed back, and the program runs with
  exactly that setting.\<close>

theorem flags_roundtrip:
  "initScheme L = None \<Longrightarrow>
     managerMain L b (managerArgs fl) = exitOf (managerRun L b fl)
     \<and> pluginMain L G b f tcp (pluginArgs pf) = pluginRun L G b f tcp pf"
  by (simp add: managerMain_def pluginMain_def parseOrExit_def managerArgs_parse pluginArgs_parse)

text \<open>A manager for which everything succeeds.\<close>

definition quietManager :: "unit managerLib" where
  "quietManager = \<lparr>addToScheme = (\<lambda>_. None), zapFlags = Map.empty, getConfig = None, newManager = (\<lambda>_. Inr ()),
     completeController = (\<lambda>_. Inr), addHealthzCheck = (\<lambda>_. Inr), addReadyzCheck = (\<lambda>_. Inr), startManager = Inr\<rparr>"

definition exampleBuild :: buildInfo where
  "exampleBuild = \<lparr>BuildVersion = ''1.0'', bBuildTime = ''N/A'', bGitCommit = ''N/A'', bGoVersion = ''go1.24'',
     bCompiler = ''gc'', bGOOS = ''linux'', bGOARCH = ''amd64''\<rparr>"

theorem flags_roundtrip_witness:
  "exitCode (managerMain quietManager exampleBuild (managerArgs (defaultManagerFlags\<lparr>probeAddr := '':9000''\<rparr>))) = 0
   \<and> pluginMain quietManager fakeGrpc exampleBuild tmpFiles (\<lambda>_. None) (pluginArgs defaultPluginFlags)
       = pluginRun quietManager fakeGrpc exampleBuild tmpFiles (\<lambda>_. None) defaultPluginFlags"
proof -
  have "initScheme quietManager = None" by (simp add: initScheme_def quietManager_def)
  from flags_roundtrip [OF this, of exampleBuild "defaultManagerFlags\<lparr>probeAddr := '':9000''\<rparr>" fakeGrpc tmpFiles
      "\<lambda>_. None" defaultPluginFlags]
  show ?thesis
    by (simp add: managerRun_def defaultManagerFlags_def configOrDie_def orExit_def exitOf_def exitOk_def quietManager_def)
qed

end
