(* ===== verification/Spec2Isabelle.thy ===== *)
theory Spec2Isabelle
  imports EndToEnd CsiController PublishRace Cmd
begin

text \<open>
  A verification development for the listener operator (Go, under \<^verbatim>\<open>src/\<close>).

  \<^bold>\<open>The program.\<close> A \<^emph>\<open>Listener\<close> object asks for a stable address of a workload. The operator
  (\<^verbatim>\<open>cmd/main.go\<close>) runs a controller that keeps one Service per Listener, of the type that the
  \<^emph>\<open>ListenerClass\<close> names, and publishes the addresses of that Service in the Listener's status
  (\<^verbatim>\<open>internal/controller/listener\<close>). The CSI driver (\<^verbatim>\<open>cmd/csiplugin/main.go\<close>) runs on every node behind a
  gRPC server (\<^verbatim>\<open>pkg/server\<close>): its controller service turns a claim with listener annotations into a
  volume (\<^verbatim>\<open>internal/csi/controller.go\<close>), and its node service finds or creates the Listener, labels pod and
  volume, records the addresses in a \<^emph>\<open>PodListeners\<close> object and writes them as files into the volume of
  the pod (\<^verbatim>\<open>internal/csi/node.go\<close>). The two halves meet only in the objects of the cluster: the labels
  on the pod select it for the Service, and the status of the Listener is what the volume shows.

  \<^bold>\<open>How code becomes definitions.\<close> A function keeps its name; where one name stands for several
  functions, or is taken in HOL, it has a suffix (\<open>createListener_server\<close>, \<open>getListenerClassFor\<close>,
  \<open>mountTarget\<close>, \<open>DriverStop\<close>). A struct is a record, an enumeration a datatype, a 32-bit integer a
  \<open>32 word\<close>, a map an association list whose order is the order of one \<^verbatim>\<open>range\<close>, a pointer an option.
  A handler is a state transformer \<open>('s, 'a) go\<close> that returns a value or an error or panics; each early
  return and each nil dereference is a branch of it. Loops over slices are structural recursion (\<open>forG\<close>
  or a \<open>fun\<close> of their own), so every handler is total and nothing needs fuel; the one recursion that is
  not structural, following symbolic links, is bounded by the 40 links that the kernel follows.

  \<^bold>\<open>The theories.\<close>
  \<^item> \<open>Prelude\<close>: errors, outcomes, the sequencing \<open>bindG\<close> with its running and inversion rules, Go maps.
  \<^item> \<open>GoStd\<close>, \<open>GoPath\<close>, \<open>GoOs\<close>, \<open>GoRegexp\<close>, \<open>GoFlag\<close>: what the program uses of \<^verbatim>\<open>strings\<close>,
    \<^verbatim>\<open>strconv\<close>, \<^verbatim>\<open>path/filepath\<close>, \<^verbatim>\<open>os\<close> (a file tree with links, sockets and mount points, which cannot be
    removed while they are mounted), \<^verbatim>\<open>regexp\<close> (matching, proved equal to membership in the language of the
    expression) and \<^verbatim>\<open>flag\<close>.
  \<^item> \<open>Kube\<close>: the API objects and the record \<open>client\<close>, the Kubernetes client as a parameter. Its laws
    are locales that extend \<open>kube_reads\<close>, each in the theory of the component that relies on it:
    \<open>kube_services\<close>, \<open>kube_status\<close>, \<open>kube_podlisteners\<close>, \<open>kube_listeners\<close>, and those that extend them
    (\<open>kube_quiet\<close>, \<open>kube_merge\<close>, \<open>kube_views\<close>). \<open>FakeClient\<close>: an in-memory cluster that satisfies them
    all, on which the witnesses run.
  \<^item> \<open>Util\<close>: \<^verbatim>\<open>pkg/util\<close>.
  \<^item> \<open>Service\<close>, \<open>ServiceSpec\<close>: \<^verbatim>\<open>listener/service.go\<close>, the Service of a Listener. \<open>createService\<close>
    implements the specification \<open>up_to_date\<close> and converges in one round.
  \<^item> \<open>ListenerCtl\<close>, \<open>ListenerSpec\<close>: \<^verbatim>\<open>listener/controller.go\<close>, \<open>Reconcile\<close>, the status and the
    watches, whose common contract is the locale \<open>watch\<close>. \<open>ReconcileSpec\<close>: the rounds that follow one
    another (\<open>laterRound\<close>), and that they come to rest. The two controllers that do nothing are in
    \<open>ListenerCtl\<close> too.
  \<^item> \<open>Csi\<close>, \<open>CsiController\<close>: the messages, the identity service and the controller service.
  \<^item> \<open>NodeData\<close>: writing addresses into a volume. \<open>CsiNode\<close>: the node service. \<open>NodeSpec\<close>: its
    cluster phase and its file phase as reference definitions, the mounter as a parameter with the law
    \<open>tmpfs_mounter\<close>: a mount adds a mount point and hides what was below it, an unmount that succeeds takes
    one mount away, one that fails changes nothing. \<open>PublishSpec\<close>: its properties. \<open>PublishRace\<close>: publishes
    that run at the same time;
    \<open>plStep\<close> is one request of \<^verbatim>\<open>createOrUpdatePodListeners\<close>, \<open>race\<close> interleaves the requests of any
    number of calls, with reads that may come from a stale cache.
  \<^item> \<open>Server\<close>: \<^verbatim>\<open>pkg/server/server.go\<close>. A goroutine is the list of the instructions that it has still
    to execute, \<open>exec\<close> is one instruction, \<open>step\<close> interleaves goroutines, the gRPC library and the
    cancellation of the context. \<open>ServerSpec\<close>: the laws of the library (\<open>grpc_server\<close>), the invariant,
    progress and fair runs. \<open>ServerProps\<close>: the properties and a library in memory.
  \<^item> \<open>Driver\<close>: \<^verbatim>\<open>internal/csi/driver.go\<close>. \<open>Cmd\<close>: the two programs and the version information.
  \<^item> \<open>EndToEnd\<close>: the controller and the node service together, from the Service to the file that the pod
    reads; \<open>listenerFor\<close> and \<open>recordListener\<close> are the two parts of the cluster phase of a publish.
  \<^item> \<open>Spec2Isabelle\<close>: the other properties that span the controller, the controller service and the
    node service.

  \<^bold>\<open>What is shown.\<close> Reconciling converges and leaves a Service that follows the Listener and its class
  while it keeps what the cluster allocated, and the rounds that its own status writes cause change nothing
  more; the status lists the addresses of that Service in the preferred kind; the labels of a published pod
  satisfy the selector of the Service; a publish fails and touches nothing until there is a status, and then
  what the status lists is what the volume shows, file by file; unpublishing restores the node if the volume
  can be unmounted and otherwise fails with the target still mounted;
  volumes of one pod that are published at the same time lose no entry of the PodListeners object; creating
  the Listener and unpublishing are repeatable; a volume that was created can be published. For the server: no
  interleaving crashes it, the wait group is exact, a stopped server terminates, and a cancelled driver shuts
  down and removes its socket. For the programs: their exit codes, and that every setting of their flags can
  be given on the command line. The watches of the controller are compared with what a reconciliation reads:
  Services and Nodes are read but not watched. The error behaviour
  of the handlers is stated branch by branch, including the panics and the requests that the code refuses
  although it should not.

  \<^bold>\<open>Parameters.\<close> The Kubernetes client, the mounter, the gRPC library, the controller manager and the
  stripping of secrets from messages are arguments of the definitions. What a property needs of them is a
  hypothesis that names the locale, and each locale is interpreted on an in-memory instance.

  \<^bold>\<open>Not modelled.\<close> Log lines below error level and the choice of the logger (\<^verbatim>\<open>WithLogger\<close>): they have no
  effect. Permission bits of files. The tables of types in \<^verbatim>\<open>api/v1alpha1\<close> and the generated deep copies:
  they hold no code of the program. The goroutine in which the driver program runs the manager: it shares
  no state with the driver, and when the manager fails the process ends. The constructors that only store
  their arguments (\<^verbatim>\<open>NewServiceReconciler\<close>, \<^verbatim>\<open>NewServiceAddress\<close>, \<^verbatim>\<open>NewControllerServer\<close>,
  \<^verbatim>\<open>NewNodeServer\<close>) and the methods \<^verbatim>\<open>Name\<close> and \<^verbatim>\<open>Namespace\<close> that only log lines call: what they hold are
  arguments here. A flag of the logging library that has the name of a flag of the program, on which \<^verbatim>\<open>flag\<close>
  panics: there is none. Deletion of objects by others between two requests of a call; a cache that lags behind
  the server, except for the reads of \<open>PublishRace\<close>. What is left of the source files are imports, type
  declarations and comments.
\<close>

section \<open>From the node service to the controller\<close>

lemma withPodLabels_labels:
  "map_of (Labels (pMeta (withPodLabels l p))) = map_of (Labels (pMeta p)) ++ map_of (ListenerMountPodLabels l)"
  by (simp add: withPodLabels_def)

text \<open>C7. The pod that mounts a Listener is selected by the Listener's Service. The labels that the
  node service puts on the pod satisfy the selector of a Service that is up to date with the Listener,
  provided the pod carries the extra selector labels of the Listener and these do not redefine the
  mount label. For a Listener that the node service creates there are none.\<close>

theorem published_pod_selected:
  assumes "up_to_date C l lc st" "wf_map (ExtraPodSelectorLabels (lSpec l))"
    and "\<forall>k v. map_of (ExtraPodSelectorLabels (lSpec l)) k = Some v \<longrightarrow>
           map_of (Labels (pMeta p)) k = Some v \<and> map_of (ListenerMountPodLabels l) k = None"
  shows "matchingLabels (svSelector st) (Labels (pMeta (withPodLabels l p)))"
proof -
  have "wf_map (getPodSelectorLabels l)" by (simp add: getPodSelectorLabels_def)
  then have sel: "map_of (getPodSelectorLabels l) k = Some v" if "(k, v) \<in> set (getPodSelectorLabels l)" for k v
    using that by (simp add: wf_map_def)
  have "map_of (Labels (pMeta (withPodLabels l p))) k = Some v" if "(k, v) \<in> set (getPodSelectorLabels l)" for k v
    using sel [OF that] assms(2,3)
    by (auto simp: withPodLabels_labels getPodSelectorLabels_def map_add_def split: option.splits)
  moreover have "svSelector st = getPodSelectorLabels l" using assms(1) by (simp add: up_to_date_def)
  ultimately show ?thesis by (auto simp: matchingLabels_def list_all_iff)
qed

theorem published_pod_selected_witness:
  "\<exists>w' st. createService fakeClient exampleListener exampleCluster = (Ok (zeroResult\<lparr>Requeue := True\<rparr>), w')
     \<and> map_of (cServices w') (''shop'', ''web'') = Some st
     \<and> matchingLabels (svSelector st) (Labels (pMeta (withPodLabels exampleListener examplePod)))"
proof -
  obtain w' where w': "createService fakeClient exampleListener exampleCluster
      = (Ok (zeroResult\<lparr>Requeue := True\<rparr>), w')"
    using example_createService by blast
  obtain st where st: "map_of (cServices w') (''shop'', ''web'') = Some st"
      "up_to_date fakeClient exampleListener exampleClass st"
    using fake.createService_up_to_date [OF w'] by (auto simp: fake_defs)
  have "matchingLabels (svSelector st) (Labels (pMeta (withPodLabels exampleListener examplePod)))"
    by (rule published_pod_selected [OF st(2)]) (simp_all add: exampleListener_def)
  with w' st show ?thesis by blast
qed

text \<open>C38. The labels that the node service puts on a volume never reach the controller's watch on
  volumes. The watch reads the Listener's name under the annotation key of the listener API, the node
  service writes it under another key, so a labelled volume requeues nothing.\<close>

theorem labelled_volume_not_watched:
  assumes "AnnotationListenerName C \<notin> {LabelListenerName, LabelListenerNamespace}"
    and "map_of (Labels (pvMeta pv)) (AnnotationListenerName C) = None"
  shows "handlePVChanges C (withPVLabels l pv) w = (Ok [], w)"
proof -
  have "map_of (Labels (pvMeta (withPVLabels l pv))) (AnnotationListenerName C) = None"
    using assms by (auto simp: withPVLabels_def map_add_def) (simp add: ListenerMetaLabels_def)
  then show ?thesis by (simp add: handlePVChanges_def split: option.splits)
qed

theorem labelled_volume_not_watched_witness:
  "handlePVChanges fakeClient (withPVLabels exampleListener examplePV) exampleCluster = (Ok [], exampleCluster)"
  by (rule labelled_volume_not_watched)
    (simp_all add: LabelListenerName_def LabelListenerNamespace_def examplePV_def newMeta_def)

section \<open>From the controller service to the node service\<close>

lemma createListener_no_panic:
  assumes "vcListenerClassName vc \<noteq> None" "vcPodNamespace vc \<noteq> None" "ClaimRef pv \<noteq> None"
  shows "createListener C vc pv p w \<noteq> (Panic m, w')"
  using assms
  by (auto simp: createListener_def getPVC_def go_inv Let_def tryG_def
      split: prod.splits sum.splits outcome.splits if_splits)

text \<open>C25. A volume that \<^verbatim>\<open>CreateVolume\<close> made can be published: with a volume context that contains the
  one \<^verbatim>\<open>CreateVolume\<close> returned and the pod's namespace, and a volume bound to a claim, finding or creating
  the Listener never dereferences a missing annotation.\<close>

theorem created_volume_has_listener:
  assumes "kube_reads C" "CreateVolume C rq w = (Ok v, w')" "map_of (VolumeContext v) \<subseteq>\<^sub>m map_of ctx"
    and "map_of ctx CSI_STORAGE_POD_NAMESPACE \<noteq> None" "ClaimRef pv \<noteq> None"
  shows "getListener C p pv (newVolumeContextFromMap C ctx) k \<noteq> (Panic m, k')"
proof -
  have "map_of ctx (ListenerClassAnnotation C) \<noteq> None \<or> map_of ctx (AnnotationListenerName C) \<noteq> None"
    using kube_reads.CreateVolume_context [OF assms(1,2)] assms(3)
    by (auto simp: map_le_def dom_def)
  then show ?thesis
    using assms(4,5) createListener_no_panic [of "newVolumeContextFromMap C ctx" pv C p k m k']
    by (cases "map_of ctx (AnnotationListenerName C)")
      (auto simp: getListener_def newVolumeContextFromMap_def go_inv)
qed

theorem created_volume_has_listener_witness:
  "\<exists>v. CreateVolume fakeClient exampleRequest claimCluster = (Ok v, claimCluster)
     \<and> getListener fakeClient examplePod examplePV
         (newVolumeContextFromMap fakeClient ((CSI_STORAGE_POD_NAMESPACE, ''shop'') # VolumeContext v)) claimCluster
       \<noteq> (Panic ''nil pointer dereference'', claimCluster)"
proof -
  obtain v where v: "CreateVolume fakeClient exampleRequest claimCluster = (Ok v, claimCluster)"
      "VolumeContext v = [(''listeners.kubedoop.dev/class'', ''external'')]"
    by (simp add: CreateVolume_def validateCreateVolumeRequest_def isValid_all supported_def
        newCreateVolumeRequestParamsFromMap_def exampleRequest_def claimCluster_def exampleClaim_def fake_defs
        CSI_STORAGE_PVC_NAME_def CSI_STORAGE_PVC_NAMESPACE_def getVolumeContext_def getListenerClassFor_def
        exampleCluster_def Let_def)
  have "getListener fakeClient examplePod examplePV
      (newVolumeContextFromMap fakeClient ((CSI_STORAGE_POD_NAMESPACE, ''shop'') # VolumeContext v)) claimCluster
    \<noteq> (Panic ''nil pointer dereference'', claimCluster)"
    by (rule created_volume_has_listener [OF fake.kube_reads_axioms v(1)])
      (simp_all add: v(2) map_le_def CSI_STORAGE_POD_NAMESPACE_def examplePV_def)
  with v(1) show ?thesis by blast
qed

section \<open>From the status to the volume\<close>

text \<open>What the controller publishes is what the pod gets. For a Service that is not of type
  NodePort, once the status that the controller computed is stored and lists an address, the node service
  hands exactly those addresses to the volume, in order, each of the kind that the class prefers and with
  the ports of the Service.\<close>

theorem status_reaches_volume:
  assumes "kube_reads C" "computeStatus C l s t w0 = (Ok st, w1)" "svType s \<noteq> ServiceTypeNodePort"
    and "fst (GetListener C (objectKeyOf (lMeta l)) w) = Inr l'" "lStatus l' = st" "IngressAddresses st \<noteq> []"
  shows "\<exists>ds. getAddresses C l p w = (Ok (l', ds), w)
     \<and> map Address ds = map iaAddress (IngressAddresses st)
     \<and> list_all (\<lambda>d. AddressType d = (if t = AddressTypeIP then AddressTypeIP else AddressTypeHostname)
          \<and> Ports d = namedPorts spPort (svPorts s)) ds
     \<and> determinePodListenerScope l' = PodlistenerClusterScope"
proof -
  have st: "NodePorts st = []"
    "\<forall>i\<in>set (IngressAddresses st). iaAddressType i = (if t = AddressTypeIP then AddressTypeIP else AddressTypeHostname)
       \<and> iaPorts i = namedPorts spPort (svPorts s)"
    using computeStatus_kinds [OF assms(2)] assms(3) by auto
  have "GetListener C (objectKeyOf (lMeta l)) w = (Inr l', w)"
    using assms(4) kube_reads.reads(1) [OF assms(1)] by (metis prod.collapse)
  with st assms(5,6) show ?thesis
    by (auto simp: getAddresses_def determinePodListenerScope_def list_all_iff)
qed

theorem status_reaches_volume_witness:
  "\<exists>st l' ds. computeStatus fakeClient exampleListener exampleService AddressTypeHostname exampleCluster
        = (Ok st, exampleCluster)
     \<and> lStatus l' = st
     \<and> getAddresses fakeClient exampleListener examplePod
         (exampleCluster\<lparr>cListeners := [((''shop'', ''web''), l')]\<rparr>)
       = (Ok (l', ds), exampleCluster\<lparr>cListeners := [((''shop'', ''web''), l')]\<rparr>)
     \<and> map Address ds = [''web.shop.svc.cluster.local'']"
proof -
  obtain st where st: "computeStatus fakeClient exampleListener exampleService AddressTypeHostname
      exampleCluster = (Ok st, exampleCluster)" "map iaAddress (IngressAddresses st) = [''web.shop.svc.cluster.local'']"
    by (simp add: exampleService_def computeStatus_ClusterIP getServiceFQDN_def getClusterDomain_def newMeta_def)
  let ?l = "exampleListener\<lparr>lStatus := st\<rparr>"
  let ?w = "exampleCluster\<lparr>cListeners := [((''shop'', ''web''), ?l)]\<rparr>"
  have "fst (GetListener fakeClient (objectKeyOf (lMeta exampleListener)) ?w) = Inr ?l"
    by (simp add: fake_defs)
  moreover have "svType exampleService \<noteq> ServiceTypeNodePort" by (simp add: exampleService_def)
  moreover have "IngressAddresses st \<noteq> []" using st(2) by auto
  ultimately obtain ds where "getAddresses fakeClient exampleListener examplePod ?w = (Ok (?l, ds), ?w)"
      "map Address ds = map iaAddress (IngressAddresses st)"
    using status_reaches_volume [OF fake.kube_reads_axioms st(1), of ?w ?l examplePod] by auto
  with st show ?thesis by (intro exI [of _ st] exI [of _ ?l] exI [of _ ds]) simp
qed

end
